theory Spec2Isabelle
  imports Complex_Main
begin

section \<open>Conventions shared by the LEED routines\<close>

text \<open>
  The C type \<open>real\<close> is read as the mathematical reals: rounding, overflow and NaN are not
  part of this development.  A C array that is only handed over as a pointer
  (\<open>real *a\<close>, \<open>real *d_ij\<close>, \<open>real *k_in\<close>) is a function from its index to its
  value, with the source's own 1-based indices.  Diagnostic output is a list of messages,
  oldest first.
\<close>

datatype msg = ERROR_MSG string | WARNING_MSG string

definition GEO_TOLERANCE :: real where
  \<comment> \<open>\<open>#define GEO_TOLERANCE 0.0001\<close>, the fallback the sources carry.\<close>
  "GEO_TOLERANCE = 0.0001"

definition K_TOLERANCE :: real where
  \<comment> \<open>\<open>#define K_TOLERANCE 0.0001\<close>, the fallback the sources carry.\<close>
  "K_TOLERANCE = 0.0001"

definition R_nint :: "real \<Rightarrow> int" where
  \<comment> \<open>Modelled from the spec: the macro \<open>R_nint\<close> is not part of the sources; it rounds
      to the nearest integer.\<close>
  "R_nint x = round x"

definition cri_mul :: "complex \<Rightarrow> complex \<Rightarrow> complex" where
  \<comment> \<open>Modelled from the spec: \<open>cri_mul(&r, &i, a_r, a_i, b_r, b_i)\<close> is the complex
      product.\<close>
  "cri_mul a b = Complex (Re a * Re b - Im a * Im b) (Re a * Im b + Im a * Re b)"

definition cri_expi :: "real \<Rightarrow> real \<Rightarrow> complex" where
  \<comment> \<open>Modelled from the spec: \<open>cri_expi(&r, &i, x, y)\<close> is \<open>exp (i (x + i y))\<close>.\<close>
  "cri_expi x y = Complex (exp (- y) * cos x) (exp (- y) * sin x)"

definition M1P :: "int \<Rightarrow> real" where
  \<comment> \<open>The sign macro \<open>M1P(n) = (-1)^n\<close>.\<close>
  "M1P n = (if even n then 1 else - 1)"

section \<open>Interlayer lattice sum: \<open>leed_ms_lsum_ij\<close>\<close>

definition WARN_LEVEL :: real where
  "WARN_LEVEL = 1000"

text \<open>
  The Hankel functions and the spherical harmonics come from \<open>c_hank1\<close> and \<open>r_ylm\<close>,
  which are not part of the sources: each is a parameter, a function from its real
  arguments and \<open>l_max\<close> to the vector it returns (indexed from 1 as in the source).
\<close>

record lsum_env =
  c_hank1 :: "real \<Rightarrow> real \<Rightarrow> nat \<Rightarrow> nat \<Rightarrow> complex"
  r_ylm :: "real \<Rightarrow> real \<Rightarrow> nat \<Rightarrow> nat \<Rightarrow> complex"

definition R_atan2 :: "real \<Rightarrow> real \<Rightarrow> real" where
  \<comment> \<open>Modelled from the spec: the polar angle of the point \<open>(x, y)\<close>.\<close>
  "R_atan2 y x = Arg (Complex x y)"

text \<open>\<open>pref->rel[l], pref->iel[l]\<close>: \<open>pref[0] = -8 PI k\<close> and \<open>pref[l] = i * pref[l-1]\<close>.\<close>

fun pref :: "real \<Rightarrow> real \<Rightarrow> nat \<Rightarrow> complex" where
  "pref k_r k_i 0 = Complex (- 8 * pi * k_r) (- 8 * pi * k_i)"
| "pref k_r k_i (Suc l) = Complex (- Im (pref k_r k_i l)) (Re (pref k_r k_i l))"

text \<open>The pairs \<open>(l, m)\<close> in natural order; the pair at list position \<open>p\<close> is stored at
  index \<open>p + 1 = l (l + 1) + m + 1\<close> of \<open>Llm_p\<close> and \<open>Llm_m\<close>.\<close>

definition lm_natural :: "nat \<Rightarrow> (nat \<times> int) list" where
  "lm_natural l_max = concat (map (\<lambda>l. map (\<lambda>m. (l, m)) [- int l .. int l]) [0 ..< Suc l_max])"

text \<open>The state of the double loop: the two sums, and (as a record of what the loop did,
  not a variable of the source) the lattice points it visited and the ones it summed,
  each as \<open>(n1, n2, p_x, p_y)\<close>.\<close>

record lsum_acc =
  Llm_p :: "complex list"
  Llm_m :: "complex list"
  visited :: "(int \<times> int \<times> real \<times> real) list"
  summed :: "(int \<times> int \<times> real \<times> real) list"

text \<open>The contribution of one lattice point to element \<open>(l, m)\<close> of \<open>Llm_p\<close> and of
  \<open>Llm_m\<close> (the body of the loops over \<open>l\<close> and \<open>m\<close>).\<close>

definition lsum_term_p ::
  "lsum_env \<Rightarrow> real \<Rightarrow> real \<Rightarrow> (nat \<Rightarrow> real) \<Rightarrow> (nat \<Rightarrow> real) \<Rightarrow> nat \<Rightarrow> real \<Rightarrow> real \<Rightarrow> nat \<times> int \<Rightarrow> complex"
where
  "lsum_term_p env k_r k_i k_in d_ij l_max p_x p_y lm =
     (let l = fst lm; m = snd lm;
          r_x = d_ij 1 + p_x; r_y = d_ij 2 + p_y; r_z = d_ij 3;
          r_abs = sqrt (r_x * r_x + r_y * r_y + r_z * r_z);
          Hl = c_hank1 env (k_r * r_abs) (k_i * r_abs) l_max;
          Ylm = r_ylm env (r_z / r_abs) (R_atan2 r_y r_x) l_max;
          exp_ikp = cri_expi (- (k_in 1 * p_x + k_in 2 * p_y)) 0;
          off = int l * (int l + 1) + 1;
          faux = cri_mul (pref k_r k_i (l + 1)) (Hl (l + 1));
          fauxp = cri_mul faux exp_ikp;
          t = cri_mul (Ylm (nat (off + m))) fauxp
      in Complex (Re t * M1P (int l + m)) (Im t * M1P (int l + m)))"

definition lsum_term_m ::
  "lsum_env \<Rightarrow> real \<Rightarrow> real \<Rightarrow> (nat \<Rightarrow> real) \<Rightarrow> (nat \<Rightarrow> real) \<Rightarrow> nat \<Rightarrow> real \<Rightarrow> real \<Rightarrow> nat \<times> int \<Rightarrow> complex"
where
  "lsum_term_m env k_r k_i k_in d_ij l_max p_x p_y lm =
     (let l = fst lm; m = snd lm;
          r_x = d_ij 1 + p_x; r_y = d_ij 2 + p_y; r_z = d_ij 3;
          r_abs = sqrt (r_x * r_x + r_y * r_y + r_z * r_z);
          Hl = c_hank1 env (k_r * r_abs) (k_i * r_abs) l_max;
          Ylm = r_ylm env (r_z / r_abs) (R_atan2 r_y r_x) l_max;
          exp_ikp = cri_expi (- (k_in 1 * p_x + k_in 2 * p_y)) 0;
          off = int l * (int l + 1) + 1;
          faux = cri_mul (pref k_r k_i (l + 1)) (Hl (l + 1));
          fauxm = cri_mul faux (Complex (Re exp_ikp) (- Im exp_ikp));
          t = cri_mul (Ylm (nat (off + m))) fauxm
      in Complex (Re t * M1P m) (Im t * M1P m))"

text \<open>
  The loops over \<open>l\<close> and \<open>m\<close>.  The source declares \<open>size_t l\<close> and \<open>int m\<close>, so the test
  \<open>m <= l\<close> of \<open>for (m = -l; m <= l; m++)\<close> is made in \<open>size_t\<close> (64 bits), where a negative
  \<open>m\<close> stands for \<open>2^64 + m\<close>; \<open>m = -l\<close> stores \<open>- l\<close> in \<open>m\<close>.  Element \<open>off + m\<close> of \<open>Llm_p\<close>
  and \<open>Llm_m\<close> is list position \<open>off + m - 1 = l (l + 1) + m\<close>.
\<close>

definition size_t_of_int :: "int \<Rightarrow> int" where
  "size_t_of_int m = (if m < 0 then m + 2 ^ 64 else m)"

function lsum_m_loop ::
  "(nat \<times> int \<Rightarrow> complex) \<Rightarrow> (nat \<times> int \<Rightarrow> complex) \<Rightarrow> nat \<Rightarrow> int \<Rightarrow>
   complex list \<times> complex list \<Rightarrow> complex list \<times> complex list"
where
  "lsum_m_loop term_p term_m l m L =
     (if size_t_of_int m \<le> int l
      then let i = nat (int l * (int l + 1) + m)
           in lsum_m_loop term_p term_m l (m + 1)
                ((fst L)[i := fst L ! i + term_p (l, m)], (snd L)[i := snd L ! i + term_m (l, m)])
      else L)"
  by pat_completeness auto
termination
  by (relation "measure (\<lambda>(term_p, term_m, l, m, L). nat (int l + 1 - m))")
    (auto simp add: size_t_of_int_def split: if_splits)

declare lsum_m_loop.simps [simp del]

definition lsum_l_loop ::
  "(nat \<times> int \<Rightarrow> complex) \<Rightarrow> (nat \<times> int \<Rightarrow> complex) \<Rightarrow> nat \<Rightarrow>
   complex list \<times> complex list \<Rightarrow> complex list \<times> complex list"
where
  "lsum_l_loop term_p term_m l_max L =
     fold (\<lambda>l L. lsum_m_loop term_p term_m l (- int l) L) [0 ..< Suc l_max] L"

text \<open>The body of the inner loop at the lattice point \<open>(p_x, p_y)\<close>; \<open>r_max\<close> is already
  the square of the radius here, as in the source after \<open>r_max *= r_max\<close>.\<close>

definition lsum_point ::
  "lsum_env \<Rightarrow> real \<Rightarrow> real \<Rightarrow> (nat \<Rightarrow> real) \<Rightarrow> (nat \<Rightarrow> real) \<Rightarrow> nat \<Rightarrow> real \<Rightarrow>
   int \<Rightarrow> int \<Rightarrow> real \<Rightarrow> real \<Rightarrow> lsum_acc \<Rightarrow> lsum_acc"
where
  "lsum_point env k_r k_i k_in d_ij l_max r_max n1 n2 p_x p_y acc =
     (let r_x = d_ij 1 + p_x; r_y = d_ij 2 + p_y; r_z = d_ij 3;
          r_abs = r_x * r_x + r_y * r_y + r_z * r_z;
          acc1 = acc\<lparr>visited := visited acc @ [(n1, n2, p_x, p_y)]\<rparr>
      in if r_abs < r_max \<and> r_abs > GEO_TOLERANCE
         then let L = lsum_l_loop (lsum_term_p env k_r k_i k_in d_ij l_max p_x p_y)
                        (lsum_term_m env k_r k_i k_in d_ij l_max p_x p_y) l_max
                        (Llm_p acc1, Llm_m acc1)
              in acc1\<lparr>Llm_p := fst L, Llm_m := snd L,
                      summed := summed acc1 @ [(n1, n2, p_x, p_y)]\<rparr>
         else acc1)"

text \<open>The loop over \<open>n2\<close> ("lattice vectors a2"): \<open>p_x, p_y\<close> advance by \<open>a2\<close>.\<close>

function lsum_n2_loop ::
  "lsum_env \<Rightarrow> real \<Rightarrow> real \<Rightarrow> (nat \<Rightarrow> real) \<Rightarrow> (nat \<Rightarrow> real) \<Rightarrow> (nat \<Rightarrow> real) \<Rightarrow> nat \<Rightarrow> real \<Rightarrow>
   int \<Rightarrow> int \<Rightarrow> int \<Rightarrow> real \<Rightarrow> real \<Rightarrow> lsum_acc \<Rightarrow> lsum_acc"
where
  "lsum_n2_loop env k_r k_i k_in a d_ij l_max r_max n1 n2 n2_max p_x p_y acc =
     (if n2 \<le> n2_max
      then lsum_n2_loop env k_r k_i k_in a d_ij l_max r_max n1 (n2 + 1) n2_max
             (p_x + a 2) (p_y + a 4)
             (lsum_point env k_r k_i k_in d_ij l_max r_max n1 n2 p_x p_y acc)
      else acc)"
  by pat_completeness auto
termination
  by (relation "measure (\<lambda>(env, k_r, k_i, k_in, a, d_ij, l_max, r_max, n1, n2, n2_max, p_x, p_y, acc).
        nat (n2_max + 1 - n2))") auto

declare lsum_n2_loop.simps [simp del]

text \<open>The metric factors \<open>f1, f2, f12, f1d, f2d, fd\<close>.\<close>

definition lsum_f1 :: "(nat \<Rightarrow> real) \<Rightarrow> real" where
  "lsum_f1 a = a 1 * a 1 + a 3 * a 3"

definition lsum_f2 :: "(nat \<Rightarrow> real) \<Rightarrow> real" where
  "lsum_f2 a = a 2 * a 2 + a 4 * a 4"

definition lsum_f12 :: "(nat \<Rightarrow> real) \<Rightarrow> real" where
  "lsum_f12 a = a 1 * a 2 + a 3 * a 4"

definition lsum_f1d :: "(nat \<Rightarrow> real) \<Rightarrow> (nat \<Rightarrow> real) \<Rightarrow> real" where
  "lsum_f1d a d_ij = a 1 * d_ij 1 + a 3 * d_ij 2"

definition lsum_f2d :: "(nat \<Rightarrow> real) \<Rightarrow> (nat \<Rightarrow> real) \<Rightarrow> real" where
  "lsum_f2d a d_ij = a 2 * d_ij 1 + a 4 * d_ij 2"

definition lsum_fd :: "(nat \<Rightarrow> real) \<Rightarrow> real" where
  "lsum_fd d_ij = d_ij 1 * d_ij 1 + d_ij 2 * d_ij 2 + d_ij 3 * d_ij 3"

text \<open>The bounds of the inner loop for a given \<open>n1\<close>.  \<open>R_sqrt\<close> of a negative number is
  NaN and its conversion to \<open>int\<close> is not defined by C; the loop then meets no lattice
  point inside the radius, which the model renders as \<open>None\<close>: no pass of the inner loop.\<close>

definition lsum_n2_bounds :: "(nat \<Rightarrow> real) \<Rightarrow> (nat \<Rightarrow> real) \<Rightarrow> real \<Rightarrow> int \<Rightarrow> (int \<times> int) option" where
  "lsum_n2_bounds a d_ij r_max n1 =
     (let f1 = lsum_f1 a; f2 = lsum_f2 a; f12 = lsum_f12 a;
          f1d = lsum_f1d a d_ij; f2d = lsum_f2d a d_ij; fd = lsum_fd d_ij;
          fb = real_of_int n1 * f12 + f2d;
          fc = f1 * real_of_int n1 * real_of_int n1 + 2 * f1d * real_of_int n1 + fd - r_max;
          faux_r = - fb / f2
      in if fb * fb - f2 * fc < 0 then None
         else Some (R_nint (faux_r - sqrt (fb * fb - f2 * fc) / f2),
                    R_nint (faux_r + sqrt (fb * fb - f2 * fc) / f2)))"

text \<open>The bounds of the outer loop.\<close>

definition lsum_n1_bounds :: "(nat \<Rightarrow> real) \<Rightarrow> (nat \<Rightarrow> real) \<Rightarrow> real \<Rightarrow> int \<times> int" where
  "lsum_n1_bounds a d_ij r_max =
     (let f1 = lsum_f1 a; f2 = lsum_f2 a; f12 = lsum_f12 a;
          f1d = lsum_f1d a d_ij; f2d = lsum_f2d a d_ij; fd = lsum_fd d_ij;
          fa = f12 * f12 - f1 * f2;
          fb = f12 * f2d - f1d * f2;
          fc = f2d * f2d - f2 * fd + f2 * r_max;
          faux_i = (if fb * fb - fa * fc > 0 then sqrt (fb * fb - fa * fc) / fa else 0);
          faux_r = - fb / fa
      in (R_nint (faux_r + faux_i), R_nint (faux_r - faux_i)))"

text \<open>The loop over \<open>n1\<close> ("lattice vectors a1"): \<open>p0_x, p0_y\<close> advance by \<open>a1\<close>; the inner
  loop starts at \<open>p0 + n2_min * a2\<close>.\<close>

function lsum_n1_loop ::
  "lsum_env \<Rightarrow> real \<Rightarrow> real \<Rightarrow> (nat \<Rightarrow> real) \<Rightarrow> (nat \<Rightarrow> real) \<Rightarrow> (nat \<Rightarrow> real) \<Rightarrow> nat \<Rightarrow> real \<Rightarrow>
   int \<Rightarrow> int \<Rightarrow> real \<Rightarrow> real \<Rightarrow> lsum_acc \<Rightarrow> lsum_acc"
where
  "lsum_n1_loop env k_r k_i k_in a d_ij l_max r_max n1 n1_max p0_x p0_y acc =
     (if n1 \<le> n1_max
      then lsum_n1_loop env k_r k_i k_in a d_ij l_max r_max (n1 + 1) n1_max
             (p0_x + a 1) (p0_y + a 3)
             (case lsum_n2_bounds a d_ij r_max n1 of
                None \<Rightarrow> acc
              | Some (n2_min, n2_max) \<Rightarrow>
                  lsum_n2_loop env k_r k_i k_in a d_ij l_max r_max n1 n2_min n2_max
                    (p0_x + real_of_int n2_min * a 2) (p0_y + real_of_int n2_min * a 4) acc)
      else acc)"
  by pat_completeness auto
termination
  by (relation "measure (\<lambda>(env, k_r, k_i, k_in, a, d_ij, l_max, r_max, n1, n1_max, p0_x, p0_y, acc).
        nat (n1_max + 1 - n1))") auto

declare lsum_n1_loop.simps [simp del]

text \<open>The radius of summation, before it is squared.\<close>

definition lsum_radius :: "real \<Rightarrow> real \<Rightarrow> real" where
  "lsum_radius k_i epsilon = (if epsilon < 1 then - ln epsilon / k_i else epsilon)"

text \<open>What a call returns: the return code, the messages, and the state of the sums
  (\<open>None\<close> when the function left \<open>*p_Llm_p\<close> and \<open>*p_Llm_m\<close> untouched).  \<open>warning_log\<close>
  is the compile-time switch \<open>WARNING_LOG\<close>; \<open>ERROR_RETURN(-1)\<close> is rendered as the return
  of \<open>-1\<close> (with \<open>EXIT_ON_ERROR\<close> the process ends there instead).\<close>

record lsum_result =
  lsum_status :: int
  lsum_msgs :: "msg list"
  lsum_out :: "lsum_acc option"

definition leed_ms_lsum_ij ::
  "lsum_env \<Rightarrow> bool \<Rightarrow> real \<Rightarrow> real \<Rightarrow> (nat \<Rightarrow> real) \<Rightarrow> (nat \<Rightarrow> real) \<Rightarrow> (nat \<Rightarrow> real) \<Rightarrow> nat \<Rightarrow> real \<Rightarrow>
   lsum_result"
where
  "leed_ms_lsum_ij env warning_log k_r k_i k_in a d_ij l_max epsilon =
     (if k_i \<le> 0
      then \<lparr>lsum_status = - 1, lsum_msgs = [ERROR_MSG ''damping too small''], lsum_out = None\<rparr>
      else
        let iaux = (l_max + 1) * (l_max + 1);
            acc0 = \<lparr>Llm_p = replicate iaux 0, Llm_m = replicate iaux 0, visited = [], summed = []\<rparr>;
            r_m = lsum_radius k_i epsilon;
            msgs = (if warning_log \<and> r_m > WARN_LEVEL
                    then [WARNING_MSG ''damping very weak''] else []);
            r_max = r_m * r_m;
            n1_min = fst (lsum_n1_bounds a d_ij r_max);
            n1_max = snd (lsum_n1_bounds a d_ij r_max)
        in \<lparr>lsum_status = 0, lsum_msgs = msgs,
            lsum_out = Some (lsum_n1_loop env k_r k_i k_in a d_ij l_max r_max n1_min n1_max
                               (- (real_of_int n1_max * a 1)) (- (real_of_int n1_max * a 3)) acc0)\<rparr>)"

text \<open>The lattice point \<open>n1 a1 + n2 a2 + d_ij\<close> lies inside the radius (\<open>r_max\<close> is the
  squared radius): the condition the header comment of the source states.\<close>

definition lsum_inside :: "(nat \<Rightarrow> real) \<Rightarrow> (nat \<Rightarrow> real) \<Rightarrow> real \<Rightarrow> int \<Rightarrow> int \<Rightarrow> bool" where
  "lsum_inside a d_ij r_max n1 n2 =
     ((d_ij 1 + real_of_int n1 * a 1 + real_of_int n2 * a 2)
        * (d_ij 1 + real_of_int n1 * a 1 + real_of_int n2 * a 2)
      + (d_ij 2 + real_of_int n1 * a 3 + real_of_int n2 * a 4)
        * (d_ij 2 + real_of_int n1 * a 3 + real_of_int n2 * a 4)
      + d_ij 3 * d_ij 3 < r_max)"

text \<open>A rectangular cell \<open>a1 = (2, 0)\<close>, \<open>a2 = (0, 1)\<close> and the vector
  \<open>d_ij = (1, 0, 9/32)\<close> to an atom above the middle of the long edge.\<close>

definition lsum_ex_a :: "nat \<Rightarrow> real" where
  "lsum_ex_a = (!) [0, 2, 0, 0, 1]"

definition lsum_ex_d :: "nat \<Rightarrow> real" where
  "lsum_ex_d = (!) [0, 1, 0, 9 / 32]"

definition lsum_ex_env :: lsum_env where
  "lsum_ex_env = \<lparr>c_hank1 = (\<lambda>x y l_max l. 1), r_ylm = (\<lambda>x phi l_max lm. 1)\<rparr>"


section \<open>Matrices\<close>

text \<open>
  The type \<open>mat\<close> of the matrix library: the numbers of rows and columns and the
  elements in row-major order.  The source keeps two planes \<open>rel[1..rows*cols]\<close> and
  \<open>iel[1..rows*cols]\<close> (index \<open>0\<close> is not used); here element \<open>i\<close> of the source is the
  complex number at list position \<open>i - 1\<close>, with real part \<open>rel[i]\<close> and imaginary part
  \<open>iel[i]\<close>.  The library itself (\<open>matalloc\<close>, \<open>matcopy\<close>, \<open>matmul\<close>, \<open>matinv\<close>, ...) is
  not part of the sources.
\<close>

record mat =
  rows :: nat
  cols :: nat
  el :: "complex list"

definition matalloc :: "nat \<Rightarrow> nat \<Rightarrow> mat" where
  \<comment> \<open>Modelled from the spec: \<open>matalloc(M, rows, cols, NUM_COMPLEX)\<close> gives a
      \<open>rows \<times> cols\<close> matrix preset with zero.\<close>
  "matalloc r c = \<lparr>rows = r, cols = c, el = replicate (r * c) 0\<rparr>"

definition matel :: "mat \<Rightarrow> nat \<Rightarrow> nat \<Rightarrow> complex" where
  \<comment> \<open>\<open>*rmatel(i, j, M)\<close>, \<open>*imatel(i, j, M)\<close>: element \<open>(i, j)\<close>, counted from 1, stored at
      index \<open>(i - 1) * cols + j\<close>.\<close>
  "matel M i j = el M ! ((i - 1) * cols M + j - 1)"

definition matset :: "mat \<Rightarrow> nat \<Rightarrow> nat \<Rightarrow> complex \<Rightarrow> mat" where
  "matset M i j v = M\<lparr>el := (el M)[(i - 1) * cols M + j - 1 := v]\<rparr>"

section \<open>Atomic scattering factors: \<open>leed_par_mktl_nd\<close>\<close>

text \<open>
  One set of phase shifts (\<open>leed_phase\<close>): the tables \<open>energy[n_eng]\<close> and
  \<open>pshift[n_eng * (lmax + 1)]\<close> are lists counted from 0, as the source indexes them.
\<close>

record leed_phase =
  lmax :: int
  n_eng :: nat
  energy :: "real list"
  pshift :: "real list"
  eng_min :: real
  eng_max :: real
  t_type :: int
  dr :: "nat \<Rightarrow> real"

text \<open>
  What the function needs from outside the sources: the two values of \<open>t_type\<close>, and the
  two routines that put the temperature into the scattering factors, each working in
  place on \<open>p_tl[i_set]\<close> (the value they return is ignored by the caller).
  \<open>leed_par_cumulative_tl\<close> gives \<open>None\<close> when it returns \<open>NULL\<close> and leaves \<open>p_tl[i_set]\<close>
  as it was; it is modelled on its own further down.
\<close>

record mktl_env =
  T_DIAG :: int
  T_NOND :: int
  par_temp_tl :: "mat \<Rightarrow> real \<Rightarrow> real \<Rightarrow> nat \<Rightarrow> int \<Rightarrow> mat"
  par_cumulative_tl :: "mat \<Rightarrow> real \<Rightarrow> real \<Rightarrow> real \<Rightarrow> real \<Rightarrow> nat \<Rightarrow> int \<Rightarrow> mat option"

text \<open>How the treatment of one set ends when it does not go through: the two fatal
  exits of the source (\<open>exit(1)\<close> with \<open>EXIT_ON_ERROR\<close>, else \<open>free(p_tl); return(NULL)\<close>),
  and a read outside the tables of the set, whose outcome C does not define.\<close>

datatype mktl_error = Bad_t_type | Energy_too_low | Read_outside_table

definition table_read :: "real list \<Rightarrow> int \<Rightarrow> real option" where
  \<comment> \<open>An index computed in \<open>size_t\<close> that has wrapped below zero is far outside the table
      as well.\<close>
  "table_read xs i = (if 0 \<le> i \<and> i < int (length xs) then Some (xs ! nat i) else None)"

text \<open>The phase shift for \<open>l\<close> on the straight line through the tabulated points
  \<open>i_eng - 1\<close> and \<open>i_eng\<close>:
  \<open>delta = ps[i] - ((ps[i] - ps[i-1]) / (E[i] - E[i-1])) * (E[i] - energy)\<close>.\<close>

definition mktl_delta :: "leed_phase \<Rightarrow> int \<Rightarrow> nat \<Rightarrow> real \<Rightarrow> real option" where
  "mktl_delta phs i_eng l e =
     (let l_set_1 = lmax phs + 1 in
      case (table_read (pshift phs) (i_eng * l_set_1 + int l),
            table_read (pshift phs) ((i_eng - 1) * l_set_1 + int l),
            table_read (energy phs) i_eng,
            table_read (energy phs) (i_eng - 1)) of
        (Some p1, Some p0, Some e1, Some e0) \<Rightarrow> Some (p1 - ((p1 - p0) / (e1 - e0)) * (e1 - e))
      | _ \<Rightarrow> None)"

text \<open>The loop over \<open>l\<close>: element \<open>1 + l\<close> of \<open>p_tl[i_set]\<close> becomes
  \<open>cri_mul (cos delta, sin delta) (sin delta, 0)\<close>.\<close>

fun mktl_fill :: "leed_phase \<Rightarrow> int \<Rightarrow> real \<Rightarrow> nat list \<Rightarrow> mat \<Rightarrow> mat option" where
  "mktl_fill phs i_eng e [] ptl = Some ptl"
| "mktl_fill phs i_eng e (l # ls) ptl =
     (case mktl_delta phs i_eng l e of
        None \<Rightarrow> None
      | Some delta \<Rightarrow>
          mktl_fill phs i_eng e ls
            (ptl\<lparr>el := (el ptl)[l := cri_mul (Complex (cos delta) (sin delta)) (Complex (sin delta) 0)]\<rparr>))"

text \<open>The scan \<open>for (i_eng = 0; energy[i_eng] < energy; i_eng++)\<close>; it leaves the table
  when no tabulated energy reaches \<open>energy\<close>.\<close>

fun mktl_scan :: "real list \<Rightarrow> real \<Rightarrow> nat \<Rightarrow> nat option" where
  "mktl_scan [] e i = None"
| "mktl_scan (x # xs) e i = (if x < e then mktl_scan xs e (Suc i) else Some i)"

text \<open>"Include temperature in atomic scattering factors."\<close>

definition mktl_temperature :: "mktl_env \<Rightarrow> leed_phase \<Rightarrow> nat \<Rightarrow> real \<Rightarrow> mat \<Rightarrow> mat" where
  "mktl_temperature env phs l_max e ptl =
     (if t_type phs = T_DIAG env
      then par_temp_tl env ptl (dr phs 0) e l_max (lmax phs)
      else if t_type phs = T_NOND env
      then (case par_cumulative_tl env ptl (dr phs 1) (dr phs 2) (dr phs 3) e l_max (lmax phs) of
              None \<Rightarrow> ptl | Some t \<Rightarrow> t)
      else ptl)"

text \<open>The body of the loop over the sets, for the set \<open>phs\<close>: the messages it writes and
  the new \<open>p_tl[i_set]\<close>.\<close>

definition mktl_set ::
  "mktl_env \<Rightarrow> leed_phase \<Rightarrow> nat \<Rightarrow> real \<Rightarrow> mktl_error \<times> msg list + msg list \<times> mat"
where
  "mktl_set env phs l_max e =
     (let l_set_1 = nat (lmax phs + 1);
          tl0 = matalloc l_set_1 1
      in if t_type phs \<noteq> T_DIAG env \<and> t_type phs \<noteq> T_NOND env
         then Inl (Bad_t_type, [ERROR_MSG ''t_type has no valid value''])
         else if e < eng_min phs
         then Inl (Energy_too_low, [ERROR_MSG ''energy is lower than the min. energy''])
         else if e \<ge> eng_max phs
         then (case mktl_fill phs (int (n_eng phs) - 1) e [0 ..< l_set_1] tl0 of
                 None \<Rightarrow> Inl (Read_outside_table, [WARNING_MSG ''energy is higher than max. energy''])
               | Some ptl \<Rightarrow> Inr ([WARNING_MSG ''energy is higher than max. energy''],
                                 mktl_temperature env phs l_max e ptl))
         else (case mktl_scan (energy phs) e 0 of
                 None \<Rightarrow> Inl (Read_outside_table, [])
               | Some i_eng \<Rightarrow>
                   (case mktl_fill phs (int i_eng) e [0 ..< l_set_1] tl0 of
                      None \<Rightarrow> Inl (Read_outside_table, [])
                    | Some ptl \<Rightarrow> Inr ([], mktl_temperature env phs l_max e ptl))))"

text \<open>The loop over the sets.  \<open>phs_shifts\<close> holds the sets in front of the terminating
  entry (\<open>lmax == I_END_OF_LIST\<close>); the result is the array \<open>p_tl\<close>, or the way the first
  set that did not go through ended.\<close>

fun mktl_sets ::
  "mktl_env \<Rightarrow> leed_phase list \<Rightarrow> nat \<Rightarrow> real \<Rightarrow> msg list \<Rightarrow> mat list
   \<Rightarrow> mktl_error \<times> msg list + msg list \<times> mat list"
where
  "mktl_sets env [] l_max e msgs p_tl = Inr (msgs, p_tl)"
| "mktl_sets env (phs # rest) l_max e msgs p_tl =
     (case mktl_set env phs l_max e of
        Inl (err, m) \<Rightarrow> Inl (err, msgs @ m)
      | Inr (m, ptl) \<Rightarrow> mktl_sets env rest l_max e (msgs @ m) (p_tl @ [ptl]))"





text \<open>The two fatal exits.\<close>

definition mktl_fatal :: "mktl_error \<times> msg list + msg list \<times> 'a \<Rightarrow> bool" where
  "mktl_fatal r = (case r of Inl (err, m) \<Rightarrow> err = Bad_t_type \<or> err = Energy_too_low | Inr x \<Rightarrow> False)"



section \<open>The matrix library, as far as the routines below use it\<close>

definition matmul :: "mat \<Rightarrow> mat \<Rightarrow> mat" where
  \<comment> \<open>Modelled from the spec: \<open>matmul(R, A, B)\<close> is the dense product \<open>A B\<close>; the result
      may be written over either operand.\<close>
  "matmul A B =
     \<lparr>rows = rows A, cols = cols B,
      el = concat (map (\<lambda>i. map (\<lambda>j. \<Sum>k \<leftarrow> [0 ..< cols A].
                                      el A ! (i * cols A + k) * el B ! (k * cols B + j))
                               [0 ..< cols B])
                       [0 ..< rows A])\<rparr>"

text \<open>Matrices are handed over as pointers.  The store holds the matrices of the caller,
  a pointer is a position in it and \<open>NULL\<close> is \<open>None\<close>.\<close>

type_synonym store = "mat list"

definition matcopy :: "store \<Rightarrow> nat option \<Rightarrow> mat \<Rightarrow> store \<times> nat" where
  \<comment> \<open>Modelled from the spec: \<open>matcopy(dst, src)\<close> writes a copy of \<open>src\<close> into \<open>dst\<close>, which it
      allocates when \<open>dst\<close> is \<open>NULL\<close>, and returns \<open>dst\<close>.\<close>
  "matcopy h dst M = (case dst of None \<Rightarrow> (h @ [M], length h) | Some p \<Rightarrow> (h[p := M], p))"

section \<open>Cumulant expansion: \<open>leed_par_cumulative_tl\<close>\<close>

definition NITER :: nat where
  "NITER = 1000"

definition CONV_TEST :: real where
  "CONV_TEST = 0.000001"

text \<open>The six matrices \<open>Mx, My, Mz, MxMx, MyMy, MzMz\<close> that \<open>pc_mk_ms\<close> writes, and the
  static variables of the file.\<close>

record cum_ms =
  Mx :: mat
  My :: mat
  Mz :: mat
  MxMx :: mat
  MyMy :: mat
  MzMz :: mat

record cum_static =
  n_call :: nat
  last_l :: int
  ms :: cum_ms

text \<open>Not part of the sources: \<open>pc_mk_ms\<close> (the matrices for a given \<open>l_max\<close>) and the
  macro \<open>IS_EQUAL_REAL\<close>.\<close>

record cum_env =
  pc_mk_ms :: "nat \<Rightarrow> cum_ms"
  IS_EQUAL_REAL :: "real \<Rightarrow> real \<Rightarrow> bool"

text \<open>"Set up zero order t matrix": for \<open>(l1, m1)\<close> in natural order, with the counter
  \<open>lm1\<close>, the inner loops over \<open>(l2, m2)\<close> reach \<open>l2 = l1\<close>, \<open>m2 = m1\<close> once, at
  \<open>lm2 = lm1\<close>, and set element \<open>(lm1, lm2)\<close> to \<open>- tl_aux[l1 + 1] / kappa\<close>.\<close>

fun cum_t0_loop :: "mat \<Rightarrow> real \<Rightarrow> (nat \<times> int) list \<Rightarrow> nat \<Rightarrow> mat \<Rightarrow> mat" where
  "cum_t0_loop tl_aux kappa [] lm1 T_n = T_n"
| "cum_t0_loop tl_aux kappa ((l1, m1) # rest) lm1 T_n =
     cum_t0_loop tl_aux kappa rest (Suc lm1)
       (matset T_n lm1 lm1
          (Complex (- Re (el tl_aux ! l1) / kappa) (- Im (el tl_aux ! l1) / kappa)))"

definition cum_t0 :: "mat \<Rightarrow> real \<Rightarrow> nat \<Rightarrow> nat \<Rightarrow> mat" where
  "cum_t0 tl_aux kappa l_max_0 l_max_2 =
     cum_t0_loop tl_aux kappa (lm_natural l_max_0) 1 (matalloc l_max_2 l_max_2)"

text \<open>\<open>Tmat->rel[i_el] *= -kappa; Tmat->iel[i_el] *= -kappa\<close> for every element.\<close>

definition cum_scale :: "real \<Rightarrow> mat \<Rightarrow> mat" where
  "cum_scale kappa M = M\<lparr>el := map (\<lambda>z. Complex (Re z * (- kappa)) (Im z * (- kappa))) (el M)\<rparr>"

text \<open>One pass of the iteration: the nine products, then \<open>T_n\<close> replaced by \<open>T(n+1)\<close>
  (Eq. 35) element by element ...\<close>

definition cum_next :: "cum_ms \<Rightarrow> real \<Rightarrow> real \<Rightarrow> real \<Rightarrow> real \<Rightarrow> nat \<Rightarrow> mat \<Rightarrow> mat" where
  "cum_next M ux2 uy2 uz2 kappa i_iter T_n =
     (let MxTnMx = matmul (Mx M) (matmul T_n (Mx M));
          MxMxTn = matmul (MxMx M) T_n;
          TnMxMx = matmul T_n (MxMx M);
          MyTnMy = matmul (My M) (matmul T_n (My M));
          MyMyTn = matmul (MyMy M) T_n;
          TnMyMy = matmul T_n (MyMy M);
          MzTnMz = matmul (Mz M) (matmul T_n (Mz M));
          MzMzTn = matmul (MzMz M) T_n;
          TnMzMz = matmul T_n (MzMz M);
          pref = - kappa * kappa / real i_iter
      in T_n\<lparr>el := map (\<lambda>i.
           Complex
             (pref * (ux2 * (Re (el MxMxTn ! i) + Re (el TnMxMx ! i) - 2 * Re (el MxTnMx ! i))
                    + uy2 * (Re (el MyMyTn ! i) + Re (el TnMyMy ! i) - 2 * Re (el MyTnMy ! i))
                    + uz2 * (Re (el MzMzTn ! i) + Re (el TnMzMz ! i) - 2 * Re (el MzTnMz ! i))))
             (pref * (ux2 * (Im (el MxMxTn ! i) + Im (el TnMxMx ! i) - 2 * Im (el MxTnMx ! i))
                    + uy2 * (Im (el MyMyTn ! i) + Im (el TnMyMy ! i) - 2 * Im (el MyTnMy ! i))
                    + uz2 * (Im (el MzMzTn ! i) + Im (el TnMzMz ! i) - 2 * Im (el MzTnMz ! i)))))
           [0 ..< cols T_n * rows T_n]\<rparr>)"

text \<open>... and \<open>T_acc += T_n\<close> (Eq. 34).\<close>

definition cum_acc :: "mat \<Rightarrow> mat \<Rightarrow> mat" where
  "cum_acc T_acc T_n =
     T_acc\<lparr>el := map (\<lambda>i. el T_acc ! i + el T_n ! i) [0 ..< cols T_n * rows T_n]\<rparr>"

text \<open>The relative errors of the real and of the imaginary parts, summed over the
  elements of \<open>T_acc\<close> that are not (numerically) zero.\<close>

definition cum_relerr_r :: "cum_env \<Rightarrow> mat \<Rightarrow> mat \<Rightarrow> real" where
  "cum_relerr_r env T_n T_acc =
     (\<Sum>i \<leftarrow> [0 ..< cols T_acc * rows T_acc].
        if \<not> IS_EQUAL_REAL env (Re (el T_acc ! i)) 0
        then \<bar>Re (el T_n ! i) / Re (el T_acc ! i)\<bar> else 0)"

definition cum_relerr_i :: "cum_env \<Rightarrow> mat \<Rightarrow> mat \<Rightarrow> real" where
  "cum_relerr_i env T_n T_acc =
     (\<Sum>i \<leftarrow> [0 ..< cols T_acc * rows T_acc].
        if \<not> IS_EQUAL_REAL env (Im (el T_acc ! i)) 0
        then \<bar>Im (el T_n ! i) / Im (el T_acc ! i)\<bar> else 0)"

text \<open>The state of the loop \<open>for (i_iter = 1; (i_iter < NITER) && ((relerr_r > conv_test)
  || (relerr_i > conv_test)); i_iter++)\<close>.\<close>

record cum_state =
  i_iter :: nat
  T_n :: mat
  T_acc :: mat
  relerr_r :: real
  relerr_i :: real

definition cum_body ::
  "cum_env \<Rightarrow> cum_ms \<Rightarrow> real \<Rightarrow> real \<Rightarrow> real \<Rightarrow> real \<Rightarrow> cum_state \<Rightarrow> cum_state" where
  "cum_body env M ux2 uy2 uz2 kappa s =
     (let T_n' = cum_next M ux2 uy2 uz2 kappa (i_iter s) (T_n s);
          T_acc' = cum_acc (T_acc s) T_n'
      in \<lparr>i_iter = Suc (i_iter s), T_n = T_n', T_acc = T_acc',
          relerr_r = cum_relerr_r env T_n' T_acc', relerr_i = cum_relerr_i env T_n' T_acc'\<rparr>)"

function cum_loop ::
  "cum_env \<Rightarrow> cum_ms \<Rightarrow> real \<Rightarrow> real \<Rightarrow> real \<Rightarrow> real \<Rightarrow> real \<Rightarrow> cum_state \<Rightarrow> cum_state" where
  "cum_loop env M ux2 uy2 uz2 kappa conv_test s =
     (if i_iter s < NITER \<and> (relerr_r s > conv_test \<or> relerr_i s > conv_test)
      then cum_loop env M ux2 uy2 uz2 kappa conv_test (cum_body env M ux2 uy2 uz2 kappa s)
      else s)"
  by pat_completeness auto
termination
  by (relation "measure (\<lambda>(env, M, ux2, uy2, uz2, kappa, conv_test, s). NITER - i_iter s)")
    (auto simp add: cum_body_def Let_def)

declare cum_loop.simps [simp del]

text \<open>
  What a call returns: the pointer it returns (\<open>None\<close> for \<open>NULL\<close>), the messages, the
  static variables and the store afterwards, and the number of passes through the loop
  (a record of what the call did, not a variable of the source).  \<open>ERROR_RETURN(NULL)\<close> is
  rendered as the return of \<open>NULL\<close> (with \<open>EXIT_ON_ERROR\<close> the process ends there instead).
\<close>

record cum_result =
  cum_ret :: "nat option"
  cum_msgs :: "msg list"
  cum_stat :: cum_static
  cum_store :: store
  cum_passes :: nat

definition leed_par_cumulative_tl ::
  "cum_env \<Rightarrow> cum_static \<Rightarrow> store \<Rightarrow> nat option \<Rightarrow> nat \<Rightarrow> real \<Rightarrow> real \<Rightarrow> real \<Rightarrow> real \<Rightarrow>
   nat \<Rightarrow> nat \<Rightarrow> cum_result"
where
  "leed_par_cumulative_tl env st h Tmat tl_0 ux uy uz eng l_max_t l_max_0 =
     (let l_max_2 = (l_max_t + 1) * (l_max_t + 1);
          ux2 = ux * ux; uy2 = uy * uy; uz2 = uz * uz;
          kappa = sqrt (2 * eng);
          tl_aux = h ! tl_0;
          l_max_0' = (if l_max_0 > l_max_t then l_max_t else l_max_0);
          msgs = (if l_max_0 > l_max_t
                  then [WARNING_MSG ''input phase shifts are only used up to l_max'']
                  else if l_max_0 < l_max_t
                  then [WARNING_MSG ''input phase shifts exist only up to l_max_0'']
                  else []);
          T_n0 = cum_t0 tl_aux kappa l_max_0' l_max_2
      in if ux < GEO_TOLERANCE \<and> uy < GEO_TOLERANCE \<and> uz < GEO_TOLERANCE
         then
           let (h1, p) = matcopy h Tmat T_n0;
               h2 = h1[p := cum_scale kappa (h1 ! p)]
           in \<lparr>cum_ret = Some p,
               cum_msgs = msgs @ [WARNING_MSG ''All displacements are zero: return Tmat(T=0)''],
               cum_stat = st, cum_store = h2, cum_passes = 0\<rparr>
         else
           let st1 = (if n_call st = 0 \<or> last_l st \<noteq> int l_max_t
                      then st\<lparr>ms := pc_mk_ms env l_max_t\<rparr> else st);
               conv_test = CONV_TEST * real l_max_2 * real l_max_2;
               s = cum_loop env (ms st1) ux2 uy2 uz2 kappa conv_test
                     \<lparr>i_iter = 1, T_n = T_n0, T_acc = T_n0,
                      relerr_r = 2 * conv_test, relerr_i = 2 * conv_test\<rparr>
           in if i_iter s = NITER
              then \<lparr>cum_ret = None,
                    cum_msgs = msgs @ [ERROR_MSG ''No convergence''],
                    cum_stat = st1, cum_store = h, cum_passes = i_iter s - 1\<rparr>
              else
                let (h1, p) = matcopy h Tmat (T_acc s);
                    h2 = h1[p := cum_scale kappa (h1 ! p)]
                in \<lparr>cum_ret = Some p, cum_msgs = msgs,
                    cum_stat = st1\<lparr>n_call := Suc (n_call st1), last_l := int l_max_t\<rparr>,
                    cum_store = h2, cum_passes = i_iter s - 1\<rparr>)"


section \<open>Cumulant expansion: what the routine is compared with\<close>

definition mat_sq :: "nat \<Rightarrow> mat \<Rightarrow> bool" where
  "mat_sq n M = (rows M = n \<and> cols M = n \<and> length (el M) = n * n)"

definition cum_T0_spec :: "mat \<Rightarrow> real \<Rightarrow> nat \<Rightarrow> nat \<Rightarrow> mat" where
  "cum_T0_spec tl0 kappa l_max_0 n =
     \<lparr>rows = n, cols = n,
      el = map (\<lambda>p. if p div n = p mod n \<and> p div n < length (lm_natural l_max_0)
                     then - (el tl0 ! fst (lm_natural l_max_0 ! (p div n))) / of_real kappa
                     else 0) [0 ..< n * n]\<rparr>"

definition ptr_ok :: "store \<Rightarrow> nat option \<Rightarrow> bool" where
  "ptr_ok h P = (case P of None \<Rightarrow> True | Some p \<Rightarrow> p < length h)"

definition cum_result_mat :: "cum_result \<Rightarrow> mat option" where
  "cum_result_mat r = (case cum_ret r of None \<Rightarrow> None | Some p \<Rightarrow> Some (cum_store r ! p))"

definition cum_ms_used :: "cum_env \<Rightarrow> cum_static \<Rightarrow> nat \<Rightarrow> cum_ms" where
  "cum_ms_used env st l_max_t =
     (if n_call st = 0 \<or> last_l st \<noteq> int l_max_t then pc_mk_ms env l_max_t else ms st)"

text \<open>final loop state of a call on the non-degenerate path\<close>
definition cum_final :: "cum_env \<Rightarrow> cum_static \<Rightarrow> mat \<Rightarrow> real \<Rightarrow> real \<Rightarrow> real \<Rightarrow> real \<Rightarrow> nat \<Rightarrow> nat \<Rightarrow> cum_state" where
  "cum_final env st tl0 ux uy uz eng l_max_t l_max_0 =
     (let n = (l_max_t + 1) * (l_max_t + 1);
          kappa = sqrt (2 * eng);
          conv_test = CONV_TEST * real n * real n;
          T0 = cum_t0 tl0 kappa (if l_max_0 > l_max_t then l_max_t else l_max_0) n
      in cum_loop env (cum_ms_used env st l_max_t) (ux * ux) (uy * uy) (uz * uz) kappa conv_test
           \<lparr>i_iter = 1, T_n = T0, T_acc = T0, relerr_r = 2 * conv_test, relerr_i = 2 * conv_test\<rparr>)"

text \<open>The state after k passes through the body of the loop.\<close>
fun cum_pass :: "cum_env \<Rightarrow> cum_ms \<Rightarrow> real \<Rightarrow> real \<Rightarrow> real \<Rightarrow> real \<Rightarrow> cum_state \<Rightarrow> nat \<Rightarrow> cum_state" where
  "cum_pass env M ux2 uy2 uz2 kappa s0 0 = s0"
| "cum_pass env M ux2 uy2 uz2 kappa s0 (Suc k) = cum_body env M ux2 uy2 uz2 kappa (cum_pass env M ux2 uy2 uz2 kappa s0 k)"

text \<open>The loop goes on after k passes.\<close>
definition cum_goes_on :: "real \<Rightarrow> cum_state \<Rightarrow> bool" where
  "cum_goes_on conv_test s = (i_iter s < NITER \<and> (relerr_r s > conv_test \<or> relerr_i s > conv_test))"

definition madd :: "mat \<Rightarrow> mat \<Rightarrow> mat" where
  "madd A B = A\<lparr>el := map2 (+) (el A) (el B)\<rparr>"

definition msub :: "mat \<Rightarrow> mat \<Rightarrow> mat" where
  "msub A B = A\<lparr>el := map2 (-) (el A) (el B)\<rparr>"

definition mscale :: "real \<Rightarrow> mat \<Rightarrow> mat" where
  "mscale c A = A\<lparr>el := map (\<lambda>z. of_real c * z) (el A)\<rparr>"






definition cum_start :: "mat \<Rightarrow> real \<Rightarrow> cum_state" where
  "cum_start T0 conv_test =
     \<lparr>i_iter = 1, T_n = T0, T_acc = T0, relerr_r = 2 * conv_test, relerr_i = 2 * conv_test\<rparr>"

text \<open>The state of the loop of a call after k passes.\<close>
definition cum_after ::
  "cum_env \<Rightarrow> cum_static \<Rightarrow> mat \<Rightarrow> real \<Rightarrow> real \<Rightarrow> real \<Rightarrow> real \<Rightarrow> nat \<Rightarrow> nat \<Rightarrow> nat \<Rightarrow> cum_state" where
  "cum_after env st tl0 ux uy uz eng l_max_t l_max_0 k =
     (let n = (l_max_t + 1) * (l_max_t + 1);
          kappa = sqrt (2 * eng);
          conv_test = CONV_TEST * real n * real n
      in cum_pass env (cum_ms_used env st l_max_t) (ux * ux) (uy * uy) (uz * uz) kappa
           (cum_start (cum_t0 tl0 kappa (if l_max_0 > l_max_t then l_max_t else l_max_0) n) conv_test) k)"

definition cum_converged :: "nat \<Rightarrow> cum_state \<Rightarrow> bool" where
  "cum_converged l_max_t s =
     (let n = (l_max_t + 1) * (l_max_t + 1); conv_test = CONV_TEST * real n * real n
      in relerr_r s \<le> conv_test \<and> relerr_i s \<le> conv_test)"

definition cum_ex_ms :: cum_ms where
  "cum_ex_ms = \<lparr>Mx = matalloc 1 1, My = matalloc 1 1, Mz = matalloc 1 1,
                MxMx = matalloc 1 1, MyMy = matalloc 1 1, MzMz = matalloc 1 1\<rparr>"

definition cum_ex_env :: cum_env where
  "cum_ex_env = \<lparr>pc_mk_ms = (\<lambda>l. cum_ex_ms), IS_EQUAL_REAL = (\<lambda>x y. x = y)\<rparr>"

definition cum_ex_st :: cum_static where
  "cum_ex_st = \<lparr>n_call = 0, last_l = - 1,
     ms = \<lparr>Mx = matalloc 0 0, My = matalloc 0 0, Mz = matalloc 0 0,
           MxMx = matalloc 0 0, MyMy = matalloc 0 0, MzMz = matalloc 0 0\<rparr>\<rparr>"

definition cum_ex_tl :: mat where
  "cum_ex_tl = \<lparr>rows = 1, cols = 1, el = [Complex (1 / 2) (1 / 2)]\<rparr>"


section \<open>Matrix algebra in which the results are stated\<close>

definition mat_dim :: "nat \<Rightarrow> nat \<Rightarrow> mat \<Rightarrow> bool" where
  "mat_dim r c M = (rows M = r \<and> cols M = c \<and> length (el M) = r * c)"

definition mat_id :: "nat \<Rightarrow> mat" where
  "mat_id n = \<lparr>rows = n, cols = n, el = map (\<lambda>p. if p div n = p mod n then 1 else 0) [0 ..< n * n]\<rparr>"

definition mat_diag :: "complex list \<Rightarrow> mat" where
  "mat_diag P = \<lparr>rows = length P, cols = length P,
     el = map (\<lambda>p. if p div length P = p mod length P then P ! (p div length P) else 0)
            [0 ..< length P * length P]\<rparr>"

section \<open>Beams\<close>

text \<open>
  The fields of \<open>leed_beam\<close> that the routines below read or write.  The arrays \<open>k_r[4]\<close>
  and \<open>k_i[4]\<close> are functions of the index (1, 2, 3 for x, y, z), \<open>eout_b_r\<close> ... \<open>eout_s_i\<close>
  functions of the number of the layer; the field \<open>set\<close> of the source is \<open>set_no\<close> here.
\<close>

record leed_beam =
  ind_1 :: real
  ind_2 :: real
  k_par :: real
  k_r :: "nat \<Rightarrow> real"
  k_i :: "nat \<Rightarrow> real"
  set_no :: int
  Akz_r :: real
  Akz_i :: real
  eout_b_r :: "nat \<Rightarrow> real"
  eout_b_i :: "nat \<Rightarrow> real"
  eout_s_r :: "nat \<Rightarrow> real"
  eout_s_i :: "nat \<Rightarrow> real"

section \<open>Layer doubling: \<open>leed_ld_2lay_rpm\<close>\<close>

text \<open>
  The propagators: \<open>Pp\<close> and \<open>Pm\<close> are \<open>n_beams \<times> 1\<close> matrices, element \<open>k + 1\<close> set from
  beam \<open>k\<close>.
\<close>

definition ld_Pp :: "leed_beam list \<Rightarrow> (nat \<Rightarrow> real) \<Rightarrow> nat \<Rightarrow> complex list" where
  "ld_Pp beams vec_ab n_beams =
     map (\<lambda>k. let faux_r = k_r (beams ! k) 1 * vec_ab 1 + k_r (beams ! k) 2 * vec_ab 2
                              + k_r (beams ! k) 3 * vec_ab 3;
                   faux_i = k_i (beams ! k) 3 * vec_ab 3
               in cri_expi faux_r faux_i) [0 ..< n_beams]"

definition ld_Pm :: "leed_beam list \<Rightarrow> (nat \<Rightarrow> real) \<Rightarrow> nat \<Rightarrow> complex list" where
  "ld_Pm beams vec_ab n_beams =
     map (\<lambda>k. let faux_r = k_r (beams ! k) 1 * vec_ab 1 + k_r (beams ! k) 2 * vec_ab 2
                              + k_r (beams ! k) 3 * vec_ab 3;
                   faux_i = k_i (beams ! k) 3 * vec_ab 3;
                   faux_r' = faux_r - 2 * k_r (beams ! k) 3 * vec_ab 3
               in cri_expi (- faux_r') faux_i) [0 ..< n_beams]"

text \<open>
  \<open>for (ptr_r = M->rel+k, ptr_i = M->iel+k; ptr_r <= M->rel+nn_beams; ptr_r += n_beams, ...)
  cri_mul(ptr_r, ptr_i, *ptr_r, *ptr_i, faux_r, faux_i)\<close>: the elements \<open>k\<close>, \<open>k + n_beams\<close>,
  ... up to \<open>nn_beams\<close> (counted from 1), that is list positions \<open>k - 1 + r * n_beams\<close> for
  \<open>r < n_beams\<close>, are multiplied by \<open>c\<close>.
\<close>

definition ld_col_mul :: "nat \<Rightarrow> nat \<Rightarrow> complex \<Rightarrow> mat \<Rightarrow> mat" where
  "ld_col_mul n_beams k c M =
     fold (\<lambda>r M. M\<lparr>el := (el M)[k - 1 + r * n_beams := cri_mul (el M ! (k - 1 + r * n_beams)) c]\<rparr>)
       [0 ..< n_beams] M"

text \<open>\<open>for (k = 1; k <= n_beams; k++)\<close> around it, with the factor \<open>f\<close> of element \<open>k\<close> of a
  propagator.\<close>

definition ld_cols_mul :: "nat \<Rightarrow> (complex \<Rightarrow> complex) \<Rightarrow> complex list \<Rightarrow> mat \<Rightarrow> mat" where
  "ld_cols_mul n_beams f P M =
     fold (\<lambda>k M. ld_col_mul n_beams k (f (P ! (k - 1))) M) [1 ..< Suc n_beams] M"

text \<open>\<open>for (k = 1; k <= nn_beams; k += Maux_b->cols + 1) Maux_b->rel[k] += 1.\<close>\<close>

function ld_add_unity :: "nat \<Rightarrow> nat \<Rightarrow> mat \<Rightarrow> mat" where
  "ld_add_unity nn_beams k M =
     (if k \<le> nn_beams
      then ld_add_unity nn_beams (k + (cols M + 1)) (M\<lparr>el := (el M)[k - 1 := el M ! (k - 1) + 1]\<rparr>)
      else M)"
  by pat_completeness auto

termination
  by (relation "measure (\<lambda>(nn_beams, k, M). Suc nn_beams - k)") auto

declare ld_add_unity.simps [simp del]

text \<open>The two loops that add \<open>Rpm_b\<close> to \<open>Res\<close>, real and imaginary parts, over the elements
  \<open>1 .. nn_beams\<close>.\<close>

definition ld_add :: "nat \<Rightarrow> mat \<Rightarrow> mat \<Rightarrow> mat" where
  "ld_add nn_beams Res Rpm_b =
     Res\<lparr>el := map (\<lambda>p. Complex (Re (el Res ! p) + Re (el Rpm_b ! p)) (Im (el Res ! p) + Im (el Rpm_b ! p)))
                  [0 ..< nn_beams] @ drop nn_beams (el Res)\<rparr>"

text \<open>
  \<open>matinv\<close> is not part of the sources: it is a parameter.  The matrix returned is the
  copy of \<open>Res\<close> that \<open>matcopy(Rpm_ab, Res)\<close> makes, so the argument \<open>Rpm_ab\<close>, which only
  offers storage for it, is left out.
\<close>

definition leed_ld_2lay_rpm ::
  "(mat \<Rightarrow> mat) \<Rightarrow> mat \<Rightarrow> mat \<Rightarrow> mat \<Rightarrow> mat \<Rightarrow> mat \<Rightarrow> leed_beam list \<Rightarrow> (nat \<Rightarrow> real) \<Rightarrow> mat" where
  "leed_ld_2lay_rpm matinv Rpm_a Tpp_b Tmm_b Rpm_b Rmp_b beams vec_ab =
     (let n_beams = cols Rpm_a;
          nn_beams = n_beams * n_beams;
          Pp = ld_Pp beams vec_ab n_beams;
          Pm = ld_Pm beams vec_ab n_beams;
          Maux_a = ld_cols_mul n_beams (\<lambda>z. z) Pm Rpm_a;
          Maux_b = ld_cols_mul n_beams (\<lambda>z. - z) Pp Rmp_b;
          Maux_b = matmul Maux_b Maux_a;
          Maux_b = ld_add_unity nn_beams 1 Maux_b;
          Maux_b = matinv Maux_b;
          Maux_b = matmul Maux_b Tmm_b;
          Res = matmul Maux_a Maux_b;
          Maux_b = ld_cols_mul n_beams (\<lambda>z. z) Pp Tpp_b;
          Res = matmul Maux_b Res
      in ld_add nn_beams Res Rpm_b)"

text \<open>The right-hand side of the layer doubling formula.\<close>

definition ld_denominator :: "mat \<Rightarrow> mat \<Rightarrow> complex list \<Rightarrow> complex list \<Rightarrow> mat" where
  "ld_denominator Rpm_a Rmp_b Pp Pm =
     msub (mat_id (cols Rpm_a)) (matmul (matmul (matmul Rmp_b (mat_diag Pp)) Rpm_a) (mat_diag Pm))"

definition ld_formula :: "mat \<Rightarrow> mat \<Rightarrow> mat \<Rightarrow> mat \<Rightarrow> mat \<Rightarrow> complex list \<Rightarrow> complex list \<Rightarrow> mat \<Rightarrow> mat" where
  "ld_formula Rpm_a Tpp_b Tmm_b Rpm_b Rmp_b Pp Pm Inv =
     madd Rpm_b
       (matmul (matmul (matmul (matmul (matmul Tpp_b (mat_diag Pp)) Rpm_a) (mat_diag Pm)) Inv) Tmm_b)"

definition ld_propagator_p :: "leed_beam \<Rightarrow> (nat \<Rightarrow> real) \<Rightarrow> complex" where
  "ld_propagator_p b v =
     exp (\<i> * (of_real (k_r b 1 * v 1) + of_real (k_r b 2 * v 2) + Complex (k_r b 3) (k_i b 3) * of_real (v 3)))"

definition ld_propagator_m :: "leed_beam \<Rightarrow> (nat \<Rightarrow> real) \<Rightarrow> complex" where
  "ld_propagator_m b v =
     exp (\<i> * (- of_real (k_r b 1 * v 1) - of_real (k_r b 2 * v 2) + Complex (k_r b 3) (k_i b 3) * of_real (v 3)))"

definition mat_inverse :: "nat \<Rightarrow> mat \<Rightarrow> mat \<Rightarrow> bool" where
  "mat_inverse n A X = (mat_sq n X \<and> matmul X A = mat_id n \<and> matmul A X = mat_id n)"

definition ld_P_plus :: "leed_beam list \<Rightarrow> (nat \<Rightarrow> real) \<Rightarrow> nat \<Rightarrow> complex list" where
  "ld_P_plus beams v n = map (\<lambda>k. ld_propagator_p (beams ! k) v) [0 ..< n]"

definition ld_P_minus :: "leed_beam list \<Rightarrow> (nat \<Rightarrow> real) \<Rightarrow> nat \<Rightarrow> complex list" where
  "ld_P_minus beams v n = map (\<lambda>k. ld_propagator_m (beams ! k) v) [0 ..< n]"

definition ld_ex_matinv :: "mat \<Rightarrow> mat" where
  "ld_ex_matinv A = \<lparr>rows = 1, cols = 1, el = [1 / el A ! 0]\<rparr>"

definition ld_ex_beam :: leed_beam where
  "ld_ex_beam = \<lparr>ind_1 = 0, ind_2 = 0, k_par = 0, k_r = (\<lambda>i. 0), k_i = (\<lambda>i. 0), set_no = 0, Akz_r = 1,
     Akz_i = 0, eout_b_r = (\<lambda>i. 1), eout_b_i = (\<lambda>i. 0), eout_s_r = (\<lambda>i. 1), eout_s_i = (\<lambda>i. 0)\<rparr>"

definition ld_ex_mat :: "complex \<Rightarrow> mat" where
  "ld_ex_mat z = \<lparr>rows = 1, cols = 1, el = [z]\<rparr>"


section \<open>Composite layer: \<open>leed_ms_compl_sym\<close>\<close>

definition cri_div :: "complex \<Rightarrow> complex \<Rightarrow> complex" where
  \<comment> \<open>Modelled from the spec: \<open>cri_div(&r, &i, a_r, a_i, b_r, b_i)\<close> is the complex quotient.\<close>
  "cri_div a b = a / b"

definition cri_abs :: "complex \<Rightarrow> real" where
  \<comment> \<open>Modelled from the spec: \<open>cri_abs(a_r, a_i)\<close> is the modulus.\<close>
  "cri_abs a = cmod a"

definition matins :: "mat \<Rightarrow> mat \<Rightarrow> nat \<Rightarrow> nat \<Rightarrow> mat" where
  \<comment> \<open>Modelled from the spec: \<open>matins(Mbg, Msm, off_row, off_col)\<close> writes \<open>Msm\<close> into \<open>Mbg\<close>
      with its element \<open>(1, 1)\<close> at \<open>(off_row, off_col)\<close> and leaves the rest of \<open>Mbg\<close> as it is.\<close>
  "matins Mbig Msm off_row off_col =
     Mbig\<lparr>el := map (\<lambda>p. let i = p div cols Mbig; j = p mod cols Mbig
                           in if off_row - 1 \<le> i \<and> i < off_row - 1 + rows Msm
                                 \<and> off_col - 1 \<le> j \<and> j < off_col - 1 + cols Msm
                              then el Msm ! ((i - (off_row - 1)) * cols Msm + (j - (off_col - 1)))
                              else el Mbig ! p)
                  [0 ..< length (el Mbig)]\<rparr>"

record leed_atom =
  type :: nat
  pos :: "nat \<Rightarrow> real"

text \<open>
  The routines and constants that \<open>leed_ms_compl_sym\<close> uses and that are not part of the
  sources; each is a parameter.  Storage handed over for the result (the first argument
  of most of them) is left out.  \<open>EQUAL_REAL\<close> is the macro \<open>IS_EQUAL_REAL\<close>; \<open>lsum\<close> holds
  the parameters of \<open>leed_ms_lsum_ij\<close> and \<open>WARNING_LOG\<close> its compile-time switch.
\<close>

record compl_env =
  BULK :: int
  OVER :: int
  EQUAL_REAL :: "real \<Rightarrow> real \<Rightarrow> bool"
  lsum :: lsum_env
  WARNING_LOG :: bool
  matcheck :: "mat option \<Rightarrow> int"
  mattrans :: "mat \<Rightarrow> mat"
  ms_partinv :: "mat \<Rightarrow> nat \<Rightarrow> nat \<Rightarrow> mat"
  leed_ms_lsum_ii :: "real \<Rightarrow> real \<Rightarrow> (nat \<Rightarrow> real) \<Rightarrow> (nat \<Rightarrow> real) \<Rightarrow> nat \<Rightarrow> real \<Rightarrow> mat"
  leed_ms_tmat_ii :: "mat \<Rightarrow> mat \<Rightarrow> nat \<Rightarrow> mat"
  leed_ms_tmat_ij :: "mat option \<Rightarrow> mat option \<Rightarrow> nat \<Rightarrow> mat"
  leed_ms_ymat :: "nat \<Rightarrow> leed_beam list \<Rightarrow> nat \<Rightarrow> mat"
  leed_ms_yp_yxm :: "mat \<Rightarrow> mat"
  leed_ms_yp_yxp :: "mat \<Rightarrow> mat"
  leed_ms_yp_ym :: "mat \<Rightarrow> mat"
  leed_ms_comp_k_sum :: "mat \<Rightarrow> leed_beam list \<Rightarrow> leed_atom \<Rightarrow> int \<Rightarrow> nat \<Rightarrow> nat \<Rightarrow> mat"

subsection \<open>Preparation: \<open>l_max\<close>, the outermost planes, the most populated plane\<close>

text \<open>\<open>for (iaux = v_par->l_max; cri_abs(tl->rel[iaux+1], tl->iel[iaux+1]) < epsilon && iaux > 1;
  iaux--)\<close>\<close>

function compl_l_atom :: "mat \<Rightarrow> real \<Rightarrow> nat \<Rightarrow> nat" where
  "compl_l_atom tl_i eps iaux =
     (if cri_abs (el tl_i ! iaux) < eps \<and> iaux > 1 then compl_l_atom tl_i eps (iaux - 1) else iaux)"
  by pat_completeness auto

termination
  by (relation "measure (\<lambda>(tl_i, eps, iaux). iaux)") auto

declare compl_l_atom.simps [simp del]

definition compl_l_max :: "(nat \<Rightarrow> mat) \<Rightarrow> real \<Rightarrow> nat \<Rightarrow> leed_atom list \<Rightarrow> nat" where
  "compl_l_max v_p_tl v_epsilon v_l_max atoms =
     fold (\<lambda>a l_max. max l_max (compl_l_atom (v_p_tl (type a)) v_epsilon v_l_max)) atoms 1"

text \<open>\<open>n_type\<close>, \<open>z_min\<close> and \<open>z_max\<close> start from the fields of the first element of the
  list \<open>atoms\<close>, which \<open>calloc\<close> has just filled with zeros.\<close>

definition compl_n_type :: "leed_atom list \<Rightarrow> nat" where
  "compl_n_type atoms = Suc (fold (\<lambda>a n_type. max (type a) n_type) atoms 0)"

definition compl_z_max :: "leed_atom list \<Rightarrow> real" where
  "compl_z_max atoms = fold (\<lambda>a z_max. max (pos a 3) z_max) atoms 0"

definition compl_z_min :: "leed_atom list \<Rightarrow> real" where
  "compl_z_min atoms = fold (\<lambda>a z_min. min (pos a 3) z_min) atoms 0"

text \<open>(ii)a: the plane that holds most atoms, as \<open>(n_plane, z_plane)\<close>.\<close>

definition compl_plane :: "leed_atom list \<Rightarrow> nat \<times> real" where
  "compl_plane atoms =
     fold (\<lambda>a (n_plane, z_plane).
             let iaux = length (filter (\<lambda>b. \<bar>pos b 3 - pos a 3\<bar> < GEO_TOLERANCE) atoms)
             in if iaux > n_plane then (iaux, pos a 3) else (n_plane, z_plane))
       atoms (1, pos (atoms ! 0) 3)"

text \<open>(ii)b: the atoms of that plane are moved to the front; two atoms exchange \<open>type\<close> and
  \<open>pos[1..3]\<close>.\<close>

definition compl_exchange :: "leed_atom \<Rightarrow> leed_atom \<Rightarrow> leed_atom" where
  "compl_exchange a b = a\<lparr>type := type b, pos := (pos a)(1 := pos b 1, 2 := pos b 2, 3 := pos b 3)\<rparr>"

definition compl_sort :: "real \<Rightarrow> leed_atom list \<Rightarrow> leed_atom list" where
  "compl_sort z_plane atoms =
     fst (fold (\<lambda>i_atoms (atoms, j_atoms).
                  if \<bar>pos (atoms ! i_atoms) 3 - z_plane\<bar> < GEO_TOLERANCE
                  then ((if i_atoms \<noteq> j_atoms
                         then atoms[i_atoms := compl_exchange (atoms ! i_atoms) (atoms ! j_atoms),
                                    j_atoms := compl_exchange (atoms ! j_atoms) (atoms ! i_atoms)]
                         else atoms), j_atoms + 1)
                  else (atoms, j_atoms))
            [0 ..< length atoms] (atoms, 0))"

subsection \<open>Bravais layer scattering matrices \<open>p_Tii\<close>\<close>

definition compl_mul_all :: "complex \<Rightarrow> mat \<Rightarrow> mat" where
  "compl_mul_all c M =
     M\<lparr>el := map (\<lambda>z. cri_mul z c) (take (cols M * rows M) (el M)) @ drop (cols M * rows M) (el M)\<rparr>"

definition compl_Tii ::
  "compl_env \<Rightarrow> mat \<Rightarrow> (nat \<Rightarrow> mat) \<Rightarrow> nat \<Rightarrow> leed_beam list \<Rightarrow> leed_atom list \<Rightarrow> (nat \<Rightarrow> mat option)" where
  "compl_Tii env Llm_ij v_p_tl l_max beams atoms =
     fold (\<lambda>a p_Tii.
             if p_Tii (type a) = None
             then let T = leed_ms_tmat_ii env Llm_ij (v_p_tl (type a)) l_max;
                      T = mattrans env T;
                      faux = cri_div (Complex (- 0.5) 0) (Complex (k_r (beams ! 0) 0) (k_i (beams ! 0) 0))
                  in p_Tii(type a \<mapsto> compl_mul_all faux T)
             else p_Tii)
       atoms (\<lambda>i_type. None)"

subsection \<open>The giant matrix\<close>

text \<open>
  The state of the loop over the pairs of atoms: \<open>Mbg\<close>, \<open>Mark\<close>, the lattice sums
  \<open>Llm_ij\<close> and \<open>Llm_ji\<close> (\<open>None\<close> is \<open>NULL\<close>), and, as a record of what the loop did, the
  pairs \<open>(i_atoms, j_atoms)\<close> whose blocks it wrote.
\<close>

record compl_giant =
  Mbg :: mat
  Mark :: mat
  Llm_ij :: "mat option"
  Llm_ji :: "mat option"
  blocks :: "(nat \<times> nat) list"

definition compl_lsum_ij ::
  "compl_env \<Rightarrow> real \<Rightarrow> real \<Rightarrow> (nat \<Rightarrow> real) \<Rightarrow> (nat \<Rightarrow> real) \<Rightarrow> (nat \<Rightarrow> real) \<Rightarrow> nat \<Rightarrow> real \<Rightarrow>
   mat option \<times> mat option \<Rightarrow> mat option \<times> mat option" where
  \<comment> \<open>\<open>leed_ms_lsum_ij(&Llm_ij, &Llm_ji, ...)\<close>; its return value is not looked at.\<close>
  "compl_lsum_ij env k0_r k0_i v_k_in a_lat d_ij l2 eps L =
     (case lsum_out (leed_ms_lsum_ij (lsum env) (WARNING_LOG env) k0_r k0_i v_k_in a_lat d_ij l2 eps) of
        None \<Rightarrow> L
      | Some acc \<Rightarrow> (Some \<lparr>rows = (l2 + 1) * (l2 + 1), cols = 1, el = Llm_p acc\<rparr>,
                     Some \<lparr>rows = (l2 + 1) * (l2 + 1), cols = 1, el = Llm_m acc\<rparr>))"

definition compl_pair ::
  "compl_env \<Rightarrow> (nat \<Rightarrow> real) \<Rightarrow> (nat \<Rightarrow> real) \<Rightarrow> real \<Rightarrow> leed_beam list \<Rightarrow> leed_atom list \<Rightarrow>
   (nat \<Rightarrow> mat option) \<Rightarrow> nat \<Rightarrow> nat \<times> nat \<Rightarrow> compl_giant \<Rightarrow> compl_giant" where
  "compl_pair env v_k_in a_lat v_epsilon beams atoms p_Tii l_max ij g =
     (let i_atoms = fst ij; j_atoms = snd ij;
          l_max_2 = (l_max + 1) * (l_max + 1);
          off_row = 1 + i_atoms * l_max_2;
          off_col = 1 + j_atoms * l_max_2
      in if \<not> EQUAL_REAL env (Re (matel (Mark g) (i_atoms + 1) (j_atoms + 1))) 1
         then
           let d_ij = (\<lambda>k. pos (atoms ! j_atoms) k - pos (atoms ! i_atoms) k);
               L = compl_lsum_ij env (k_r (beams ! 0) 0) (k_i (beams ! 0) 0) v_k_in a_lat d_ij
                     (2 * l_max) v_epsilon (Llm_ij g, Llm_ji g);
               Maux = leed_ms_tmat_ij env (fst L) (p_Tii (type (atoms ! j_atoms))) l_max;
               M1 = matins (Mbg g) Maux off_col off_row;
               Maux = leed_ms_tmat_ij env (snd L) (p_Tii (type (atoms ! i_atoms))) l_max;
               M2 = matins M1 Maux off_row off_col;
               K = matset (matset (Mark g) (i_atoms + 1) (j_atoms + 1) 1) (j_atoms + 1) (i_atoms + 1) 1
           in \<lparr>Mbg = M2, Mark = K, Llm_ij = fst L, Llm_ji = snd L, blocks = blocks g @ [ij]\<rparr>
         else g)"

text \<open>\<open>for (i_atoms = 0; i_atoms < n_atoms; ...) for (j_atoms = i_atoms + 1; j_atoms < n_atoms; ...)\<close>\<close>

definition compl_pairs :: "nat \<Rightarrow> (nat \<times> nat) list" where
  "compl_pairs n_atoms =
     concat (map (\<lambda>i_atoms. map (\<lambda>j_atoms. (i_atoms, j_atoms)) [i_atoms + 1 ..< n_atoms]) [0 ..< n_atoms])"

definition compl_assemble ::
  "compl_env \<Rightarrow> (nat \<Rightarrow> real) \<Rightarrow> (nat \<Rightarrow> real) \<Rightarrow> real \<Rightarrow> leed_beam list \<Rightarrow> leed_atom list \<Rightarrow>
   (nat \<Rightarrow> mat option) \<Rightarrow> nat \<Rightarrow> mat \<Rightarrow> compl_giant" where
  "compl_assemble env v_k_in a_lat v_epsilon beams atoms p_Tii l_max Llm =
     (let n_atoms = length atoms;
          iaux = (l_max + 1) * (l_max + 1) * n_atoms
      in fold (compl_pair env v_k_in a_lat v_epsilon beams atoms p_Tii l_max) (compl_pairs n_atoms)
           \<lparr>Mbg = matalloc iaux iaux, Mark = matalloc n_atoms n_atoms,
            Llm_ij = Some Llm, Llm_ji = None, blocks = []\<rparr>)"

text \<open>The identity is added with the loop that \<open>leed_ld_2lay_rpm\<close> has, here over
  \<open>Mbg->cols * Mbg->rows\<close> elements; then the matrix is inverted.\<close>

definition compl_add_identity :: "mat \<Rightarrow> mat" where
  "compl_add_identity M = ld_add_unity (cols M * rows M) 1 M"

subsection \<open>Conversion into plane waves\<close>

text \<open>Row \<open>k\<close> of a matrix multiplied by \<open>f k\<close>: the loops over \<open>k\<close> (or \<open>i_beams\<close>) and the
  elements of row \<open>k\<close>.\<close>

definition compl_rows_mul :: "(nat \<Rightarrow> complex) \<Rightarrow> mat \<Rightarrow> mat" where
  "compl_rows_mul f M =
     M\<lparr>el := map (\<lambda>p. cri_mul (el M ! p) (f (p div cols M))) [0 ..< rows M * cols M]
               @ drop (rows M * cols M) (el M)\<rparr>"

definition compl_L_p_factor :: "leed_beam \<Rightarrow> leed_atom \<Rightarrow> real \<Rightarrow> complex" where
  "compl_L_p_factor b a pref_i =
     (let faux_r = - k_r b 1 * pos a 1 - k_r b 2 * pos a 2 - k_r b 3 * pos a 3;
          faux_i = - k_i b 3 * pos a 3;
          faux = cri_expi faux_r faux_i;
          faux = cri_mul faux (Complex (Akz_r b) (Akz_i b))
      in cri_mul faux (Complex 0 pref_i))"

definition compl_L_m_factor :: "leed_beam \<Rightarrow> leed_atom \<Rightarrow> real \<Rightarrow> complex" where
  "compl_L_m_factor b a pref_i =
     (let faux_r = - k_r b 1 * pos a 1 - k_r b 2 * pos a 2 + k_r b 3 * pos a 3;
          faux_i = k_i b 3 * pos a 3;
          faux = cri_expi faux_r faux_i;
          faux = cri_mul faux (Complex (Akz_r b) (Akz_i b))
      in cri_mul faux (Complex 0 pref_i))"

text \<open>\<open>if (l_type == BULK) ...\<close> and \<open>if (l_type == OVER) ...\<close>: the rows are multiplied by
  \<open>eout_b\<close> or \<open>eout_s\<close> of the layer.\<close>

definition compl_eout :: "compl_env \<Rightarrow> int \<Rightarrow> nat \<Rightarrow> leed_beam list \<Rightarrow> mat \<Rightarrow> mat" where
  "compl_eout env l_type i_layer beams M =
     (let M1 = (if l_type = BULK env
                then compl_rows_mul (\<lambda>i_beams. Complex (eout_b_r (beams ! i_beams) i_layer)
                                                      (eout_b_i (beams ! i_beams) i_layer)) M
                else M)
      in if l_type = OVER env
         then compl_rows_mul (\<lambda>i_beams. Complex (eout_s_r (beams ! i_beams) i_layer)
                                               (eout_s_i (beams ! i_beams) i_layer)) M1
         else M1)"

text \<open>The four matrices \<open>L_p\<close>, \<open>L_m\<close>, \<open>R_p\<close>, \<open>R_m\<close>, block by block over the atoms.\<close>

record compl_LR =
  L_p :: mat
  L_m :: mat
  R_p :: mat
  R_m :: mat

definition compl_atom_blocks ::
  "compl_env \<Rightarrow> leed_beam list \<Rightarrow> leed_atom list \<Rightarrow> (nat \<Rightarrow> mat option) \<Rightarrow> nat \<Rightarrow> int \<Rightarrow> nat \<Rightarrow>
   real \<Rightarrow> mat \<Rightarrow> nat \<Rightarrow> compl_LR \<Rightarrow> compl_LR" where
  "compl_atom_blocks env beams atoms p_Tii l_max l_type i_layer pref_i Ylm i_atoms w =
     (let l_max_2 = (l_max + 1) * (l_max + 1);
          off_row = i_atoms * l_max_2 + 1;
          a = atoms ! i_atoms;
          Tii = the (p_Tii (type a));
          Maux = leed_ms_yp_yxm env Ylm;
          Maux = matmul Tii Maux;
          Maux = leed_ms_comp_k_sum env Maux beams a l_type l_max 0;
          Rp = matins (R_p w) Maux off_row 1;
          Maux = leed_ms_yp_yxp env Ylm;
          Maux = matmul Tii Maux;
          Maux = leed_ms_comp_k_sum env Maux beams a l_type l_max 1;
          Rm = matins (R_m w) Maux off_row 1;
          Maux = leed_ms_yp_ym env Ylm;
          Maux = compl_rows_mul (\<lambda>k. compl_L_p_factor (beams ! k) a pref_i) Maux;
          Maux = compl_eout env l_type i_layer beams Maux;
          Lp = matins (L_p w) Maux 1 off_row;
          Maux = Ylm;
          Maux = compl_rows_mul (\<lambda>k. compl_L_m_factor (beams ! k) a pref_i) Maux;
          Maux = compl_eout env l_type i_layer beams Maux;
          Lm = matins (L_m w) Maux 1 off_row
      in \<lparr>L_p = Lp, L_m = Lm, R_p = Rp, R_m = Rm\<rparr>)"

definition compl_waves ::
  "compl_env \<Rightarrow> leed_beam list \<Rightarrow> leed_atom list \<Rightarrow> (nat \<Rightarrow> mat option) \<Rightarrow> nat \<Rightarrow> int \<Rightarrow> nat \<Rightarrow>
   real \<Rightarrow> compl_LR" where
  "compl_waves env beams atoms p_Tii l_max l_type i_layer rel_area =
     (let n_beams = length beams; n_atoms = length atoms;
          Ylm = leed_ms_ymat env l_max beams n_beams;
          iaux = (l_max + 1) * (l_max + 1) * n_atoms;
          pref_i = - 16 * pi * pi / rel_area
      in fold (compl_atom_blocks env beams atoms p_Tii l_max l_type i_layer pref_i Ylm) [0 ..< n_atoms]
           \<lparr>L_p = matalloc n_beams iaux, L_m = matalloc n_beams iaux,
            R_p = matalloc iaux n_beams, R_m = matalloc iaux n_beams\<rparr>)"

subsection \<open>Shift of the origin and the unscattered wave\<close>

text \<open>Element \<open>(k, l)\<close> becomes \<open>R l * (L k * element)\<close>.\<close>

definition compl_shift :: "(nat \<Rightarrow> complex) \<Rightarrow> (nat \<Rightarrow> complex) \<Rightarrow> mat \<Rightarrow> mat" where
  "compl_shift L R M =
     M\<lparr>el := map (\<lambda>p. cri_mul (R (p mod cols M)) (cri_mul (L (p div cols M)) (el M ! p)))
                 [0 ..< rows M * cols M]
               @ drop (rows M * cols M) (el M)\<rparr>"

text \<open>\<open>for (iaux = 1, k = 0; k < n_beams; iaux += n_beams + 1, k++)\<close>: \<open>f k\<close> is added to
  element \<open>iaux\<close>.\<close>

definition compl_add_diag :: "nat \<Rightarrow> (nat \<Rightarrow> complex) \<Rightarrow> mat \<Rightarrow> mat" where
  "compl_add_diag n_beams f M =
     fold (\<lambda>k M. M\<lparr>el := (el M)[k * (n_beams + 1) := el M ! (k * (n_beams + 1)) + f k]\<rparr>) [0 ..< n_beams] M"

definition compl_origin ::
  "leed_beam list \<Rightarrow> real \<Rightarrow> real \<Rightarrow> mat \<times> mat \<times> mat \<times> mat \<Rightarrow> mat \<times> mat \<times> mat \<times> mat" where
  "compl_origin beams z_min z_max M =
     (let n_beams = length beams;
          Lp = (\<lambda>k. cri_expi (k_r (beams ! k) 3 * z_max) (k_i (beams ! k) 3 * z_max));
          Rm = Lp;
          Rp = (\<lambda>k. cri_expi (- k_r (beams ! k) 3 * z_min) (- k_i (beams ! k) 3 * z_min));
          Lm = Rp;
          Tpp = compl_shift Lp Rp (fst M);
          Tmm = compl_shift Lm Rm (fst (snd M));
          Rpm = compl_shift Lp Rm (fst (snd (snd M)));
          Rmp = compl_shift Lm Rp (snd (snd (snd M)));
          unsc = (\<lambda>k. cri_mul (Lp k) (Rp k))
      in (compl_add_diag n_beams unsc Tpp, compl_add_diag n_beams unsc Tmm, Rpm, Rmp))"

subsection \<open>The function\<close>

text \<open>
  \<open>v_par\<close> and \<open>layer\<close> are handed over field by field (\<open>v_par->l_max\<close>, \<open>v_par->p_tl\<close>,
  \<open>v_par->epsilon\<close>, \<open>v_par->k_in\<close>; \<open>layer->atoms\<close> with \<open>layer->n_atoms\<close> its length,
  \<open>layer->a_lat\<close>, \<open>layer->rel_area\<close>, \<open>layer->bulk_over\<close>, \<open>layer->no_of_layer\<close>), the beams
  as the list in front of the terminating element.  The result is the return value and
  the four matrices \<open>(Tpp, Tmm, Rpm, Rmp)\<close> written to \<open>*p_Tpp\<close>, ... when it is
  \<open>1\<close>.
\<close>

definition leed_ms_compl_sym ::
  "compl_env \<Rightarrow> mat option \<Rightarrow> mat option \<Rightarrow> mat option \<Rightarrow> mat option \<Rightarrow>
   nat \<Rightarrow> (nat \<Rightarrow> mat) \<Rightarrow> real \<Rightarrow> (nat \<Rightarrow> real) \<Rightarrow>
   leed_atom list \<Rightarrow> (nat \<Rightarrow> real) \<Rightarrow> real \<Rightarrow> int \<Rightarrow> nat \<Rightarrow> leed_beam list \<Rightarrow>
   int \<times> (mat \<times> mat \<times> mat \<times> mat) option" where
  "leed_ms_compl_sym env p_Tpp p_Tmm p_Rpm p_Rmp v_l_max v_p_tl v_epsilon v_k_in
       layer_atoms a_lat rel_area bulk_over no_of_layer beams =
     (if matcheck env p_Tpp < 0 \<or> matcheck env p_Tmm < 0 \<or> matcheck env p_Rmp < 0
         \<or> matcheck env p_Rpm < 0
      then (- 1, None)
      else
        let l_max = compl_l_max v_p_tl v_epsilon v_l_max layer_atoms;
            z_max = compl_z_max layer_atoms;
            z_min = compl_z_min layer_atoms;
            n_plane = fst (compl_plane layer_atoms);
            z_plane = snd (compl_plane layer_atoms);
            atoms = compl_sort z_plane layer_atoms;
            Llm = leed_ms_lsum_ii env (k_r (beams ! 0) 0) (k_i (beams ! 0) 0) v_k_in a_lat
                    (2 * l_max) v_epsilon;
            p_Tii = compl_Tii env Llm v_p_tl l_max beams atoms;
            g = compl_assemble env v_k_in a_lat v_epsilon beams atoms p_Tii l_max Llm;
            G = ms_partinv env (compl_add_identity (Mbg g)) n_plane l_max;
            w = compl_waves env beams atoms p_Tii l_max bulk_over no_of_layer rel_area;
            Maux = matmul G (R_p w);
            Tpp = matmul (L_p w) Maux;
            Rmp = matmul (L_m w) Maux;
            Maux = matmul G (R_m w);
            Tmm = matmul (L_m w) Maux;
            Rpm = matmul (L_p w) Maux
        in (1, Some (compl_origin beams z_min z_max (Tpp, Tmm, Rpm, Rmp))))"

text \<open>The quantities of a call that the statements below name: the atoms after sorting,
  the state after the loop over the pairs, the giant matrix before its inversion, the four
  conversion matrices.\<close>

definition compl_atoms :: "leed_atom list \<Rightarrow> leed_atom list" where
  "compl_atoms layer_atoms = compl_sort (snd (compl_plane layer_atoms)) layer_atoms"

definition compl_Tii_of ::
  "compl_env \<Rightarrow> nat \<Rightarrow> (nat \<Rightarrow> mat) \<Rightarrow> real \<Rightarrow> (nat \<Rightarrow> real) \<Rightarrow> leed_atom list \<Rightarrow> (nat \<Rightarrow> real) \<Rightarrow>
   leed_beam list \<Rightarrow> (nat \<Rightarrow> mat option)" where
  "compl_Tii_of env v_l_max v_p_tl v_epsilon v_k_in layer_atoms a_lat beams =
     (let l_max = compl_l_max v_p_tl v_epsilon v_l_max layer_atoms;
          Llm = leed_ms_lsum_ii env (k_r (beams ! 0) 0) (k_i (beams ! 0) 0) v_k_in a_lat
                  (2 * l_max) v_epsilon
      in compl_Tii env Llm v_p_tl l_max beams (compl_atoms layer_atoms))"

definition compl_giant_of ::
  "compl_env \<Rightarrow> nat \<Rightarrow> (nat \<Rightarrow> mat) \<Rightarrow> real \<Rightarrow> (nat \<Rightarrow> real) \<Rightarrow> leed_atom list \<Rightarrow> (nat \<Rightarrow> real) \<Rightarrow>
   leed_beam list \<Rightarrow> compl_giant" where
  "compl_giant_of env v_l_max v_p_tl v_epsilon v_k_in layer_atoms a_lat beams =
     (let l_max = compl_l_max v_p_tl v_epsilon v_l_max layer_atoms;
          Llm = leed_ms_lsum_ii env (k_r (beams ! 0) 0) (k_i (beams ! 0) 0) v_k_in a_lat
                  (2 * l_max) v_epsilon
      in compl_assemble env v_k_in a_lat v_epsilon beams (compl_atoms layer_atoms)
           (compl_Tii_of env v_l_max v_p_tl v_epsilon v_k_in layer_atoms a_lat beams) l_max Llm)"

definition compl_giant_matrix ::
  "compl_env \<Rightarrow> nat \<Rightarrow> (nat \<Rightarrow> mat) \<Rightarrow> real \<Rightarrow> (nat \<Rightarrow> real) \<Rightarrow> leed_atom list \<Rightarrow> (nat \<Rightarrow> real) \<Rightarrow>
   leed_beam list \<Rightarrow> mat" where
  "compl_giant_matrix env v_l_max v_p_tl v_epsilon v_k_in layer_atoms a_lat beams =
     compl_add_identity (Mbg (compl_giant_of env v_l_max v_p_tl v_epsilon v_k_in layer_atoms a_lat beams))"

definition compl_waves_of ::
  "compl_env \<Rightarrow> nat \<Rightarrow> (nat \<Rightarrow> mat) \<Rightarrow> real \<Rightarrow> (nat \<Rightarrow> real) \<Rightarrow> leed_atom list \<Rightarrow> (nat \<Rightarrow> real) \<Rightarrow>
   real \<Rightarrow> int \<Rightarrow> nat \<Rightarrow> leed_beam list \<Rightarrow> compl_LR" where
  "compl_waves_of env v_l_max v_p_tl v_epsilon v_k_in layer_atoms a_lat rel_area bulk_over no_of_layer beams =
     compl_waves env beams (compl_atoms layer_atoms)
       (compl_Tii_of env v_l_max v_p_tl v_epsilon v_k_in layer_atoms a_lat beams)
       (compl_l_max v_p_tl v_epsilon v_l_max layer_atoms) bulk_over no_of_layer rel_area"

text \<open>
  The single-sublattice construction: the conversion matrices multiplied with each other,
  \<open>L (T\<^sub>i\<^sub>i Y)\<close>, with no giant matrix between them, then the shift of the origin and the
  unscattered wave.
\<close>

definition compl_bravais ::
  "compl_env \<Rightarrow> nat \<Rightarrow> (nat \<Rightarrow> mat) \<Rightarrow> real \<Rightarrow> (nat \<Rightarrow> real) \<Rightarrow> leed_atom list \<Rightarrow> (nat \<Rightarrow> real) \<Rightarrow>
   real \<Rightarrow> int \<Rightarrow> nat \<Rightarrow> leed_beam list \<Rightarrow> mat \<times> mat \<times> mat \<times> mat" where
  "compl_bravais env v_l_max v_p_tl v_epsilon v_k_in layer_atoms a_lat rel_area bulk_over no_of_layer beams =
     (let w = compl_waves_of env v_l_max v_p_tl v_epsilon v_k_in layer_atoms a_lat rel_area
                bulk_over no_of_layer beams
      in compl_origin beams (compl_z_min layer_atoms) (compl_z_max layer_atoms)
           (matmul (L_p w) (R_p w), matmul (L_m w) (R_m w), matmul (L_p w) (R_m w),
            matmul (L_m w) (R_p w)))"

definition compl_ex_env :: compl_env where
  "compl_ex_env =
     \<lparr>BULK = 0, OVER = 1, EQUAL_REAL = (\<lambda>x y. x = y),
      lsum = \<lparr>c_hank1 = (\<lambda>x y l i. 0), r_ylm = (\<lambda>x y l i. 0)\<rparr>, WARNING_LOG = False,
      matcheck = (\<lambda>M. 0), mattrans = (\<lambda>M. M), ms_partinv = (\<lambda>M n_plane l_max. M),
      leed_ms_lsum_ii = (\<lambda>k0_r k0_i k_in a_lat l eps. matalloc ((l + 1) * (l + 1)) 1),
      leed_ms_tmat_ii = (\<lambda>Llm tl_i l. matalloc ((l + 1) * (l + 1)) ((l + 1) * (l + 1))),
      leed_ms_tmat_ij = (\<lambda>Llm Tii l. matalloc ((l + 1) * (l + 1)) ((l + 1) * (l + 1))),
      leed_ms_ymat = (\<lambda>l beams n_beams. matalloc n_beams ((l + 1) * (l + 1))),
      leed_ms_yp_yxm = (\<lambda>Ylm. matalloc (cols Ylm) (rows Ylm)),
      leed_ms_yp_yxp = (\<lambda>Ylm. matalloc (cols Ylm) (rows Ylm)),
      leed_ms_yp_ym = (\<lambda>Ylm. Ylm),
      leed_ms_comp_k_sum = (\<lambda>M beams a l_type l flag. M)\<rparr>"

definition compl_ex_atom :: leed_atom where
  "compl_ex_atom = \<lparr>type = 0, pos = (\<lambda>i. 0)\<rparr>"


section \<open>Cumulant expansion: the criterion of convergence and the bound on the passes\<close>

text \<open>
  The criterion of convergence in the words of the specification: the sum, over the
  elements of the accumulated matrix whose (real or imaginary) part is not zero, of the
  modulus of that part of the current term divided by the modulus of that part of the
  accumulated element, for the real and for the imaginary parts, each at most \<open>CONV_TEST\<close>
  times the square of the dimension of the matrix.
\<close>

definition cum_rel_change :: "cum_env \<Rightarrow> (complex \<Rightarrow> real) \<Rightarrow> mat \<Rightarrow> mat \<Rightarrow> real" where
  "cum_rel_change env part Tn Tacc =
     (\<Sum>p \<in> {p. p < rows Tacc * cols Tacc \<and> \<not> IS_EQUAL_REAL env (part (el Tacc ! p)) 0}.
        \<bar>part (el Tn ! p)\<bar> / \<bar>part (el Tacc ! p)\<bar>)"

definition cum_criterion :: "cum_env \<Rightarrow> mat \<Rightarrow> mat \<Rightarrow> bool" where
  "cum_criterion env Tn Tacc =
     (cum_rel_change env Re Tn Tacc \<le> CONV_TEST * (real (rows Tacc))\<^sup>2
      \<and> cum_rel_change env Im Tn Tacc \<le> CONV_TEST * (real (rows Tacc))\<^sup>2)"

text \<open>An input whose criterion is first met in pass 999.\<close>

definition diag4 :: "complex \<Rightarrow> complex \<Rightarrow> complex \<Rightarrow> complex \<Rightarrow> mat" where
  "diag4 p q r s = \<lparr>rows = 4, cols = 4, el = [p, 0, 0, 0,  0, q, 0, 0,  0, 0, r, 0,  0, 0, 0, s]\<rparr>"

definition cum_bug_Mx :: mat where
  "cum_bug_Mx = \<lparr>rows = 4, cols = 4, el = [0, 1, 0, 0,  - 1, 0, 0, 0,  0, 0, 0, 0,  0, 0, 0, 0]\<rparr>"

definition cum_bug_ms :: cum_ms where
  "cum_bug_ms = \<lparr>Mx = cum_bug_Mx, My = matalloc 4 4, Mz = matalloc 4 4,
                 MxMx = diag4 (- 1) (- 1) 0 0, MyMy = matalloc 4 4, MzMz = matalloc 4 4\<rparr>"

definition cum_bug_env :: cum_env where
  "cum_bug_env = \<lparr>pc_mk_ms = (\<lambda>l. cum_bug_ms), IS_EQUAL_REAL = (\<lambda>x y. x = y)\<rparr>"








section \<open>Properties of the interlayer lattice sum\<close>

lemma round_le_int: "x \<le> real_of_int n \<Longrightarrow> round x \<le> n"
  using round_mono[of x "real_of_int n"] by simp

lemma int_le_round: "real_of_int n \<le> x \<Longrightarrow> n \<le> round x"
  using round_mono[of "real_of_int n" x] by simp

lemma sqrt_sq: "0 \<le> x \<Longrightarrow> sqrt (x * x) = x"
  by (simp add: real_sqrt_mult)

lemma sq_less_sqrt:
  fixes x :: real
  assumes "x * x < D"
  shows "\<bar>x\<bar> < sqrt D"
proof -
  have "sqrt (x * x) < sqrt D" using assms real_sqrt_less_iff by blast
  then show ?thesis by (simp only: real_sqrt_abs2)
qed

text \<open>The integers at which a quadratic \<open>f2 n\<^sup>2 + 2 fb n + fc\<close> with \<open>f2 > 0\<close> is negative
  lie between its two roots.\<close>

lemma quad_roots_pos:
  fixes f2 fb fc n :: real
  assumes f2: "0 < f2" and q: "f2 * n * n + 2 * fb * n + fc < 0"
  shows "0 \<le> fb * fb - f2 * fc"
    and "- fb / f2 - sqrt (fb * fb - f2 * fc) / f2 \<le> n"
    and "n \<le> - fb / f2 + sqrt (fb * fb - f2 * fc) / f2"
proof -
  have e: "(f2 * n + fb) * (f2 * n + fb)
      = f2 * (f2 * n * n + 2 * fb * n + fc) + (fb * fb - f2 * fc)"
    by (simp add: algebra_simps)
  have "f2 * (f2 * n * n + 2 * fb * n + fc) < 0" using f2 q by (simp add: mult_pos_neg)
  then have lt: "(f2 * n + fb) * (f2 * n + fb) < fb * fb - f2 * fc" using e by linarith
  have "0 \<le> (f2 * n + fb) * (f2 * n + fb)" by simp
  then show "0 \<le> fb * fb - f2 * fc" using lt by linarith
  have ab: "\<bar>f2 * n + fb\<bar> < sqrt (fb * fb - f2 * fc)" using lt by (rule sq_less_sqrt)
  have n: "n = (f2 * n + fb) / f2 - fb / f2" using f2 by (simp add: field_simps)
  have "- sqrt (fb * fb - f2 * fc) \<le> f2 * n + fb" using ab by linarith
  then have "- sqrt (fb * fb - f2 * fc) / f2 \<le> (f2 * n + fb) / f2"
    using divide_right_mono[of "- sqrt (fb * fb - f2 * fc)" "f2 * n + fb" f2] f2 by simp
  then show "- fb / f2 - sqrt (fb * fb - f2 * fc) / f2 \<le> n" using n by linarith
  have "f2 * n + fb \<le> sqrt (fb * fb - f2 * fc)" using ab by linarith
  then have "(f2 * n + fb) / f2 \<le> sqrt (fb * fb - f2 * fc) / f2"
    using f2 by (simp add: divide_right_mono)
  then show "n \<le> - fb / f2 + sqrt (fb * fb - f2 * fc) / f2" using n by linarith
qed

lemma quad_disc_pos:
  fixes f2 fb fc n :: real
  assumes f2: "0 < f2" and q: "f2 * n * n + 2 * fb * n + fc < 0"
  shows "0 < fb * fb - f2 * fc"
proof -
  have e: "(f2 * n + fb) * (f2 * n + fb)
      = f2 * (f2 * n * n + 2 * fb * n + fc) + (fb * fb - f2 * fc)"
    by (simp add: algebra_simps)
  have "f2 * (f2 * n * n + 2 * fb * n + fc) < 0" using f2 q by (simp add: mult_pos_neg)
  moreover have "0 \<le> (f2 * n + fb) * (f2 * n + fb)" by simp
  ultimately show ?thesis using e by linarith
qed

lemmas lsum_f_defs =
  lsum_f1_def lsum_f2_def lsum_f12_def lsum_f1d_def lsum_f2d_def lsum_fd_def

text \<open>The index ranges themselves are right: a lattice point inside the radius has its
  \<open>n2\<close> within the bounds of the inner loop for its \<open>n1\<close> ...\<close>

lemma lsum_n2_bounds_cover:
  assumes f2: "0 < lsum_f2 a" and ins: "lsum_inside a d_ij r_max n1 n2"
  shows "\<exists>lo hi. lsum_n2_bounds a d_ij r_max n1 = Some (lo, hi) \<and> lo \<le> n2 \<and> n2 \<le> hi"
proof -
  define fb where "fb = real_of_int n1 * lsum_f12 a + lsum_f2d a d_ij"
  define fc where "fc = lsum_f1 a * real_of_int n1 * real_of_int n1
      + 2 * lsum_f1d a d_ij * real_of_int n1 + lsum_fd d_ij - r_max"
  have q: "lsum_f2 a * real_of_int n2 * real_of_int n2 + 2 * fb * real_of_int n2 + fc < 0"
    using ins unfolding lsum_inside_def fb_def fc_def lsum_f_defs
    by (simp add: algebra_simps)
  note r = quad_roots_pos[OF f2 q]
  have b: "lsum_n2_bounds a d_ij r_max n1 =
      Some (R_nint (- fb / lsum_f2 a - sqrt (fb * fb - lsum_f2 a * fc) / lsum_f2 a),
            R_nint (- fb / lsum_f2 a + sqrt (fb * fb - lsum_f2 a * fc) / lsum_f2 a))"
    using r(1) unfolding lsum_n2_bounds_def Let_def fb_def fc_def by simp
  show ?thesis unfolding b R_nint_def using r(2) r(3) round_le_int int_le_round by blast
qed

text \<open>... and its \<open>n1\<close> within the bounds of the outer loop (for a cell whose vectors are
  not parallel, \<open>fa < 0\<close>).\<close>

lemma lsum_n1_bounds_cover:
  assumes f2: "0 < lsum_f2 a" and fa: "lsum_f12 a * lsum_f12 a < lsum_f1 a * lsum_f2 a"
    and ins: "lsum_inside a d_ij r_max n1 n2"
  shows "fst (lsum_n1_bounds a d_ij r_max) \<le> n1 \<and> n1 \<le> snd (lsum_n1_bounds a d_ij r_max)"
proof -
  define fb where "fb = real_of_int n1 * lsum_f12 a + lsum_f2d a d_ij"
  define fc where "fc = lsum_f1 a * real_of_int n1 * real_of_int n1
      + 2 * lsum_f1d a d_ij * real_of_int n1 + lsum_fd d_ij - r_max"
  define ga where "ga = lsum_f12 a * lsum_f12 a - lsum_f1 a * lsum_f2 a"
  define gb where "gb = lsum_f12 a * lsum_f2d a d_ij - lsum_f1d a d_ij * lsum_f2 a"
  define gc where "gc = lsum_f2d a d_ij * lsum_f2d a d_ij - lsum_f2 a * lsum_fd d_ij
      + lsum_f2 a * r_max"
  have q: "lsum_f2 a * real_of_int n2 * real_of_int n2 + 2 * fb * real_of_int n2 + fc < 0"
    using ins unfolding lsum_inside_def fb_def fc_def lsum_f_defs
    by (simp add: algebra_simps)
  have d2: "0 < fb * fb - lsum_f2 a * fc" by (rule quad_disc_pos[OF f2 q])
  have id: "fb * fb - lsum_f2 a * fc
      = ga * real_of_int n1 * real_of_int n1 + 2 * gb * real_of_int n1 + gc"
    unfolding fb_def fc_def ga_def gb_def gc_def by (simp add: algebra_simps)
  have ga: "0 < - ga" using fa unfolding ga_def by simp
  have q1: "(- ga) * real_of_int n1 * real_of_int n1 + 2 * (- gb) * real_of_int n1 + (- gc) < 0"
    using d2 id by simp
  note r = quad_roots_pos[OF ga q1]
  have D: "(- gb) * (- gb) - (- ga) * (- gc) = gb * gb - ga * gc" by simp
  have lo: "- gb / ga + sqrt (gb * gb - ga * gc) / ga \<le> real_of_int n1"
    using r(2) unfolding D by (simp add: divide_minus_right)
  have hi: "real_of_int n1 \<le> - gb / ga - sqrt (gb * gb - ga * gc) / ga"
    using r(3) unfolding D by (simp add: divide_minus_right)
  have s0: "\<not> 0 < gb * gb - ga * gc \<Longrightarrow> sqrt (gb * gb - ga * gc) = 0"
    using r(1) unfolding D by simp
  have b: "lsum_n1_bounds a d_ij r_max =
      (R_nint (- gb / ga + sqrt (gb * gb - ga * gc) / ga),
       R_nint (- gb / ga - sqrt (gb * gb - ga * gc) / ga))"
    unfolding lsum_n1_bounds_def Let_def ga_def[symmetric] gb_def[symmetric] gc_def[symmetric]
    using s0 by auto
  show ?thesis unfolding b R_nint_def using lo hi round_le_int int_le_round by simp
qed

text \<open>Unfolding the two loops one pass at a time.\<close>

lemma lsum_n2_loop_stop:
  "n2_max < n2 \<Longrightarrow>
   lsum_n2_loop env kr ki k_in a d_ij l_max r_max n1 n2 n2_max p_x p_y acc = acc"
  by (simp add: lsum_n2_loop.simps)

lemma lsum_n2_loop_step:
  "n2 \<le> n2_max \<Longrightarrow>
   lsum_n2_loop env kr ki k_in a d_ij l_max r_max n1 n2 n2_max p_x p_y acc =
   lsum_n2_loop env kr ki k_in a d_ij l_max r_max n1 (n2 + 1) n2_max (p_x + a 2) (p_y + a 4)
     (lsum_point env kr ki k_in d_ij l_max r_max n1 n2 p_x p_y acc)"
  by (subst lsum_n2_loop.simps) simp

lemma lsum_n1_loop_stop:
  "n1_max < n1 \<Longrightarrow>
   lsum_n1_loop env kr ki k_in a d_ij l_max r_max n1 n1_max p0_x p0_y acc = acc"
  by (simp add: lsum_n1_loop.simps)

lemma lsum_n1_loop_step:
  "n1 \<le> n1_max \<Longrightarrow>
   lsum_n1_loop env kr ki k_in a d_ij l_max r_max n1 n1_max p0_x p0_y acc =
   lsum_n1_loop env kr ki k_in a d_ij l_max r_max (n1 + 1) n1_max (p0_x + a 1) (p0_y + a 3)
     (case lsum_n2_bounds a d_ij r_max n1 of
        None \<Rightarrow> acc
      | Some (n2_min, n2_max) \<Rightarrow>
          lsum_n2_loop env kr ki k_in a d_ij l_max r_max n1 n2_min n2_max
            (p0_x + real_of_int n2_min * a 2) (p0_y + real_of_int n2_min * a 4) acc)"
  by (subst lsum_n1_loop.simps) simp

lemma lsum_point_visited:
  "visited (lsum_point env kr ki k_in d_ij l_max r_max n1 n2 p_x p_y acc)
     = visited acc @ [(n1, n2, p_x, p_y)]"
  by (simp add: lsum_point_def Let_def)

lemma lsum_point_summed:
  "summed (lsum_point env kr ki k_in d_ij l_max r_max n1 n2 p_x p_y acc) =
     (if (d_ij 1 + p_x) * (d_ij 1 + p_x) + (d_ij 2 + p_y) * (d_ij 2 + p_y) + d_ij 3 * d_ij 3 < r_max
         \<and> (d_ij 1 + p_x) * (d_ij 1 + p_x) + (d_ij 2 + p_y) * (d_ij 2 + p_y) + d_ij 3 * d_ij 3
             > GEO_TOLERANCE
      then summed acc @ [(n1, n2, p_x, p_y)] else summed acc)"
  by (simp add: lsum_point_def Let_def)

text \<open>The run on the rectangular cell: the loop bounds.\<close>

lemma lsum_ex_sqrt1: "sqrt (25 / 4) = 5 / 2"
  using sqrt_sq[of "5 / 2"] by simp

lemma lsum_ex_sqrt2: "sqrt (9 / 16) = 3 / 4"
  using sqrt_sq[of "3 / 4"] by simp

lemma lsum_ex_n1_bounds: "lsum_n1_bounds lsum_ex_a lsum_ex_d (1681 / 1024) = (- 1, 0)"
  apply (simp add: lsum_n1_bounds_def lsum_ex_a_def lsum_ex_d_def lsum_f_defs Let_def
      R_nint_def lsum_ex_sqrt1)
  apply (simp add: round_def)
  done

lemma lsum_ex_n2_bounds_m1: "lsum_n2_bounds lsum_ex_a lsum_ex_d (1681 / 1024) (- 1) = Some (- 1, 1)"
  apply (simp add: lsum_n2_bounds_def lsum_ex_a_def lsum_ex_d_def lsum_f_defs Let_def
      R_nint_def lsum_ex_sqrt2)
  apply (simp add: round_def)
  done

lemma lsum_ex_n2_bounds_0: "lsum_n2_bounds lsum_ex_a lsum_ex_d (1681 / 1024) 0 = Some (- 1, 1)"
  apply (simp add: lsum_n2_bounds_def lsum_ex_a_def lsum_ex_d_def lsum_f_defs Let_def
      R_nint_def lsum_ex_sqrt2)
  apply (simp add: round_def)
  done

lemma lsum_ex_run:
  "visited (the (lsum_out (leed_ms_lsum_ij env wl kr 1 k_in lsum_ex_a lsum_ex_d l_max (41 / 32))))
     = [(- 1, - 1, 0, - 1), (- 1, 0, 0, 0), (- 1, 1, 0, 1), (0, - 1, 2, - 1), (0, 0, 2, 0), (0, 1, 2, 1)]
   \<and> summed (the (lsum_out (leed_ms_lsum_ij env wl kr 1 k_in lsum_ex_a lsum_ex_d l_max (41 / 32))))
     = [(- 1, 0, 0, 0)]"
  apply (simp add: leed_ms_lsum_ij_def lsum_radius_def Let_def lsum_ex_n1_bounds)
  apply (simp add: lsum_n1_loop_step lsum_n1_loop_stop lsum_ex_n2_bounds_m1 lsum_ex_n2_bounds_0)
  apply (simp add: lsum_n2_loop_step lsum_n2_loop_stop)
  apply (simp add: lsum_point_visited lsum_point_summed lsum_ex_a_def lsum_ex_d_def GEO_TOLERANCE_def)
  done

text \<open>
  Claim C7.  \<open>leed_ms_lsum_ij\<close> returns \<open>-1\<close>, with an error message and without touching the
  lattice sums, exactly when the damping constant \<open>k_i\<close> is not positive.  For every
  positive \<open>k_i\<close> it returns \<open>0\<close> with the lattice sums computed, and a radius of summation
  beyond \<open>WARN_LEVEL = 1000\<close> costs one warning only (when warnings are compiled in).
\<close>

theorem leed_ms_lsum_ij_damping:
  "(lsum_status (leed_ms_lsum_ij env wl kr ki k_in a d_ij l_max epsilon) = - 1 \<longleftrightarrow> ki \<le> 0)
   \<and> (lsum_out (leed_ms_lsum_ij env wl kr ki k_in a d_ij l_max epsilon) = None \<longleftrightarrow> ki \<le> 0)
   \<and> (ki \<le> 0 \<longrightarrow>
        lsum_msgs (leed_ms_lsum_ij env wl kr ki k_in a d_ij l_max epsilon)
          = [ERROR_MSG ''damping too small''])
   \<and> (0 < ki \<longrightarrow>
        lsum_status (leed_ms_lsum_ij env wl kr ki k_in a d_ij l_max epsilon) = 0
        \<and> lsum_msgs (leed_ms_lsum_ij env wl kr ki k_in a d_ij l_max epsilon)
          = (if wl \<and> lsum_radius ki epsilon > WARN_LEVEL
             then [WARNING_MSG ''damping very weak''] else []))"
  by (simp add: leed_ms_lsum_ij_def Let_def)

theorem leed_ms_lsum_ij_damping_witness:
  "lsum_status (leed_ms_lsum_ij lsum_ex_env True 1 (1 / 2) (\<lambda>i. 0) lsum_ex_a lsum_ex_d 2 2000) = 0
   \<and> lsum_msgs (leed_ms_lsum_ij lsum_ex_env True 1 (1 / 2) (\<lambda>i. 0) lsum_ex_a lsum_ex_d 2 2000)
        = [WARNING_MSG ''damping very weak'']
   \<and> lsum_out (leed_ms_lsum_ij lsum_ex_env True 1 (1 / 2) (\<lambda>i. 0) lsum_ex_a lsum_ex_d 2 2000) \<noteq> None
   \<and> lsum_status (leed_ms_lsum_ij lsum_ex_env True 1 0 (\<lambda>i. 0) lsum_ex_a lsum_ex_d 2 2000) = - 1
   \<and> lsum_msgs (leed_ms_lsum_ij lsum_ex_env True 1 0 (\<lambda>i. 0) lsum_ex_a lsum_ex_d 2 2000)
        = [ERROR_MSG ''damping too small'']"
  using leed_ms_lsum_ij_damping[of lsum_ex_env True 1 "1 / 2" "\<lambda>i. 0" lsum_ex_a lsum_ex_d 2 2000]
    leed_ms_lsum_ij_damping[of lsum_ex_env True 1 0 "\<lambda>i. 0" lsum_ex_a lsum_ex_d 2 2000]
  by (simp add: lsum_radius_def WARN_LEVEL_def)

text \<open>
  Claim C6.  The index ranges cover every lattice point inside the radius
  (\<open>lsum_n1_bounds_cover\<close>, \<open>lsum_n2_bounds_cover\<close>), but the double loop does not visit
  those points: its running vector starts at \<open>- n1_max * a1\<close> while its counter starts at
  \<open>n1_min\<close>.  On the rectangular cell \<open>a1 = (2, 0)\<close>, \<open>a2 = (0, 1)\<close> with
  \<open>d_ij = (1, 0, 9/32)\<close> and radius \<open>41/32\<close> the lattice point \<open>- a1\<close> (\<open>n1 = -1\<close>,
  \<open>n2 = 0\<close>) lies inside the radius and beyond the tolerance, the counters run through
  \<open>n1 = -1\<close>, \<open>n2 = 0\<close>, and yet the position \<open>(-2, 0)\<close> is never visited: the loop is at
  \<open>(0, 0)\<close> there, and only the point at the origin of the lattice enters the sums.
\<close>

theorem leed_ms_lsum_ij_skips_lattice_point:
  "lsum_inside lsum_ex_a lsum_ex_d ((41 / 32) * (41 / 32)) (- 1) 0
   \<and> GEO_TOLERANCE < (lsum_ex_d 1 - lsum_ex_a 1) * (lsum_ex_d 1 - lsum_ex_a 1)
        + lsum_ex_d 2 * lsum_ex_d 2 + lsum_ex_d 3 * lsum_ex_d 3
   \<and> fst (lsum_n1_bounds lsum_ex_a lsum_ex_d ((41 / 32) * (41 / 32))) \<le> - 1
   \<and> (\<exists>out. lsum_out (leed_ms_lsum_ij env wl kr 1 k_in lsum_ex_a lsum_ex_d l_max (41 / 32)) = Some out
        \<and> map (\<lambda>(n1, n2, p_x, p_y). (p_x, p_y)) (visited out)
            = [(0, - 1), (0, 0), (0, 1), (2, - 1), (2, 0), (2, 1)]
        \<and> (- 1 * lsum_ex_a 1 + 0 * lsum_ex_a 2, - 1 * lsum_ex_a 3 + 0 * lsum_ex_a 4)
            \<notin> set (map (\<lambda>(n1, n2, p_x, p_y). (p_x, p_y)) (visited out))
        \<and> summed out = [(- 1, 0, 0, 0)])"
proof -
  have ins: "lsum_inside lsum_ex_a lsum_ex_d ((41 / 32) * (41 / 32)) (- 1) 0"
    by (simp add: lsum_inside_def lsum_ex_a_def lsum_ex_d_def)
  have tol: "GEO_TOLERANCE < (lsum_ex_d 1 - lsum_ex_a 1) * (lsum_ex_d 1 - lsum_ex_a 1)
        + lsum_ex_d 2 * lsum_ex_d 2 + lsum_ex_d 3 * lsum_ex_d 3"
    by (simp add: GEO_TOLERANCE_def lsum_ex_a_def lsum_ex_d_def)
  have bnd: "fst (lsum_n1_bounds lsum_ex_a lsum_ex_d ((41 / 32) * (41 / 32))) \<le> - 1"
    using lsum_ex_n1_bounds by simp
  obtain out where
    out: "lsum_out (leed_ms_lsum_ij env wl kr 1 k_in lsum_ex_a lsum_ex_d l_max (41 / 32)) = Some out"
    by (simp add: leed_ms_lsum_ij_def Let_def)
  have run: "visited out = [(- 1, - 1, 0, - 1), (- 1, 0, 0, 0), (- 1, 1, 0, 1),
        (0, - 1, 2, - 1), (0, 0, 2, 0), (0, 1, 2, 1)]
      \<and> summed out = [(- 1, 0, 0, 0)]"
    using lsum_ex_run[of env wl kr k_in l_max] out by simp
  have v: "map (\<lambda>(n1, n2, p_x, p_y). (p_x, p_y)) (visited out)
      = [(0, - 1), (0, 0), (0, 1), (2, - 1), (2, 0), (2, 1)]"
    using run by simp
  have nv: "(- 1 * lsum_ex_a 1 + 0 * lsum_ex_a 2, - 1 * lsum_ex_a 3 + 0 * lsum_ex_a 4)
      \<notin> set (map (\<lambda>(n1, n2, p_x, p_y). (p_x, p_y)) (visited out))"
    unfolding v by (simp add: lsum_ex_a_def)
  have "lsum_out (leed_ms_lsum_ij env wl kr 1 k_in lsum_ex_a lsum_ex_d l_max (41 / 32)) = Some out
        \<and> map (\<lambda>(n1, n2, p_x, p_y). (p_x, p_y)) (visited out)
            = [(0, - 1), (0, 0), (0, 1), (2, - 1), (2, 0), (2, 1)]
        \<and> (- 1 * lsum_ex_a 1 + 0 * lsum_ex_a 2, - 1 * lsum_ex_a 3 + 0 * lsum_ex_a 4)
            \<notin> set (map (\<lambda>(n1, n2, p_x, p_y). (p_x, p_y)) (visited out))
        \<and> summed out = [(- 1, 0, 0, 0)]"
    using out v nv run by (intro conjI) simp_all
  then have ex: "\<exists>out. lsum_out (leed_ms_lsum_ij env wl kr 1 k_in lsum_ex_a lsum_ex_d l_max (41 / 32)) = Some out
        \<and> map (\<lambda>(n1, n2, p_x, p_y). (p_x, p_y)) (visited out)
            = [(0, - 1), (0, 0), (0, 1), (2, - 1), (2, 0), (2, 1)]
        \<and> (- 1 * lsum_ex_a 1 + 0 * lsum_ex_a 2, - 1 * lsum_ex_a 3 + 0 * lsum_ex_a 4)
            \<notin> set (map (\<lambda>(n1, n2, p_x, p_y). (p_x, p_y)) (visited out))
        \<and> summed out = [(- 1, 0, 0, 0)]"
    by (rule exI)
  show ?thesis using ins tol bnd ex by (intro conjI)
qed

section \<open>Properties of \<open>leed_par_mktl_nd\<close>\<close>











lemma mktl_sets_fatal_only:
  "mktl_fatal (mktl_sets env phs l_max e msgs p_tl) \<Longrightarrow>
   \<exists>p \<in> set phs. mktl_fatal (mktl_set env p l_max e)"
proof (induction phs arbitrary: msgs p_tl)
  case Nil
  then show ?case by (simp add: mktl_fatal_def)
next
  case (Cons p rest)
  show ?case
  proof (cases "mktl_set env p l_max e")
    case (Inl a)
    then show ?thesis using Cons.prems by (auto simp add: mktl_fatal_def split: prod.splits)
  next
    case (Inr b)
    then show ?thesis using Cons by (auto split: prod.splits)
  qed
qed

lemma mktl_sets_first_fatal:
  "mktl_fatal (mktl_set env p l_max e) \<Longrightarrow> mktl_fatal (mktl_sets env (p # rest) l_max e msgs p_tl)"
  by (auto simp add: mktl_fatal_def split: sum.splits prod.splits)








section \<open>Properties of \<open>leed_par_cumulative_tl\<close>\<close>

lemma length_lm_natural: "length (lm_natural l) = (l + 1) * (l + 1)"
proof (induction l)
  case 0
  then show ?case by (simp add: lm_natural_def)
next
  case (Suc l)
  have "lm_natural (Suc l) = lm_natural l @ map (\<lambda>m. (Suc l, m)) [- int (Suc l) .. int (Suc l)]"
    by (simp add: lm_natural_def)
  then show ?case using Suc by (simp add: algebra_simps)
qed

lemma matset_sq: "mat_sq n T \<Longrightarrow> mat_sq n (matset T i j v)"
  by (simp add: mat_sq_def matset_def)

lemma cum_t0_loop_sq: "mat_sq n T \<Longrightarrow> mat_sq n (cum_t0_loop tla kappa xs lm1 T)"
  by (induction tla kappa xs lm1 T rule: cum_t0_loop.induct) (simp_all add: matset_sq)

lemma if_pick_then: "c \<Longrightarrow> x = (if c then a else b) \<Longrightarrow> x = a"
  by simp

lemma if_pick_else: "\<not> c \<Longrightarrow> x = (if c then a else b) \<Longrightarrow> x = b"
  by simp

lemma matset_diag_nth:
  assumes "mat_sq n T" "a < n" "p < n * n"
  shows "el (matset T (Suc a) (Suc a) v) ! p = (if p div n = a \<and> p mod n = a then v else el T ! p)"
proof -
  have cn: "cols T = n" "length (el T) = n * n" using assms(1) by (simp_all add: mat_sq_def)
  have e: "el (matset T (Suc a) (Suc a) v) = (el T)[a * n + a := v]"
    by (simp add: matset_def cn)
  have dm: "p = a * n + a \<longleftrightarrow> (p div n = a \<and> p mod n = a)"
  proof
    assume "p = a * n + a"
    then show "p div n = a \<and> p mod n = a" using assms(2) by simp
  next
    assume b: "p div n = a \<and> p mod n = a"
    have "p = p div n * n + p mod n" by simp
    then show "p = a * n + a" using b by simp
  qed
  have "(el T)[a * n + a := v] ! p = (if p = a * n + a then v else el T ! p)"
    using assms(3) cn by (simp add: nth_list_update)
  then show ?thesis unfolding e dm .
qed

lemma cum_t0_loop_el:
  assumes "mat_sq n T" "a + length xs \<le> n" "p < n * n"
  shows "el (cum_t0_loop tla kappa xs (Suc a) T) ! p =
     (if p div n = p mod n \<and> a \<le> p div n \<and> p div n < a + length xs
      then - (el tla ! fst (xs ! (p div n - a))) / of_real kappa
      else el T ! p)"
  using assms
proof (induction xs arbitrary: a T)
  case Nil
  show ?case by auto
next
  case (Cons x rest)
  obtain l1 m1 where x: "x = (l1, m1)" by (cases x)
  let ?v = "Complex (- Re (el tla ! l1) / kappa) (- Im (el tla ! l1) / kappa)"
  let ?T = "matset T (Suc a) (Suc a) ?v"
  have sq: "mat_sq n ?T" using Cons.prems by (simp add: matset_sq)
  have an: "a < n" using Cons.prems by simp
  have IH: "el (cum_t0_loop tla kappa rest (Suc (Suc a)) ?T) ! p =
     (if p div n = p mod n \<and> Suc a \<le> p div n \<and> p div n < Suc a + length rest
      then - (el tla ! fst (rest ! (p div n - Suc a))) / of_real kappa
      else el ?T ! p)"
    using Cons.IH[OF sq, of "Suc a"] Cons.prems by simp
  have v: "?v = - (el tla ! l1) / of_real kappa"
    by (simp add: complex_eq_iff Re_divide_of_real Im_divide_of_real)
  have here: "el ?T ! p = (if p div n = a \<and> p mod n = a then ?v else el T ! p)"
    by (rule matset_diag_nth[OF Cons.prems(1) an Cons.prems(3)])
  have unf: "cum_t0_loop tla kappa (x # rest) (Suc a) T
      = cum_t0_loop tla kappa rest (Suc (Suc a)) ?T"
    by (simp add: x)
  consider (eq) "p div n = p mod n" "p div n = a"
    | (gt) "p div n = p mod n" "Suc a \<le> p div n" "p div n < Suc a + length rest"
    | (out) "\<not> (p div n = p mod n \<and> a \<le> p div n \<and> p div n < a + length (x # rest))"
    by fastforce
  then show ?case
  proof cases
    case eq
    have n1: "\<not> (p div n = p mod n \<and> Suc a \<le> p div n \<and> p div n < Suc a + length rest)"
      using eq by simp
    have y2: "p div n = a \<and> p mod n = a" using eq by simp
    have "el (cum_t0_loop tla kappa rest (Suc (Suc a)) ?T) ! p = el ?T ! p"
      by (rule if_pick_else[OF n1 IH])
    also have "\<dots> = ?v" by (rule if_pick_then[OF y2 here])
    finally show ?thesis unfolding unf using eq v x by simp
  next
    case gt
    have s: "p div n - a = Suc (p div n - Suc a)" using gt by simp
    have y1: "p div n = p mod n \<and> Suc a \<le> p div n \<and> p div n < Suc a + length rest"
      using gt by simp
    have "el (cum_t0_loop tla kappa rest (Suc (Suc a)) ?T) ! p
        = - (el tla ! fst (rest ! (p div n - Suc a))) / of_real kappa"
      by (rule if_pick_then[OF y1 IH])
    then show ?thesis unfolding unf using gt s by simp
  next
    case out
    have n1: "\<not> (p div n = p mod n \<and> Suc a \<le> p div n \<and> p div n < Suc a + length rest)"
      using out by auto
    have n2: "\<not> (p div n = a \<and> p mod n = a)" using out by auto
    have "el (cum_t0_loop tla kappa rest (Suc (Suc a)) ?T) ! p = el ?T ! p"
      by (rule if_pick_else[OF n1 IH])
    also have "\<dots> = el T ! p" by (rule if_pick_else[OF n2 here])
    finally have r: "el (cum_t0_loop tla kappa rest (Suc (Suc a)) ?T) ! p = el T ! p" .
    show ?thesis unfolding unf r using out by (simp only: if_False)
  qed
qed

lemma cum_t0_spec:
  assumes "(l0 + 1) * (l0 + 1) \<le> n"
  shows "cum_t0_loop tla kappa (lm_natural l0) 1 (matalloc n n) = cum_T0_spec tla kappa l0 n"
proof -
  have sq0: "mat_sq n (matalloc n n)" by (simp add: mat_sq_def matalloc_def)
  have sq: "mat_sq n (cum_t0_loop tla kappa (lm_natural l0) 1 (matalloc n n))"
    by (rule cum_t0_loop_sq[OF sq0])
  have len: "0 + length (lm_natural l0) \<le> n" using assms by (simp add: length_lm_natural)
  have els: "el (cum_t0_loop tla kappa (lm_natural l0) (Suc 0) (matalloc n n)) = el (cum_T0_spec tla kappa l0 n)"
  proof (rule nth_equalityI)
    show "length (el (cum_t0_loop tla kappa (lm_natural l0) (Suc 0) (matalloc n n)))
        = length (el (cum_T0_spec tla kappa l0 n))"
      using sq by (simp add: mat_sq_def cum_T0_spec_def)
  next
    fix p assume "p < length (el (cum_t0_loop tla kappa (lm_natural l0) (Suc 0) (matalloc n n)))"
    then have p: "p < n * n" using sq by (simp add: mat_sq_def)
    show "el (cum_t0_loop tla kappa (lm_natural l0) (Suc 0) (matalloc n n)) ! p
        = el (cum_T0_spec tla kappa l0 n) ! p"
      using cum_t0_loop_el[OF sq0 len p, of tla kappa] p
      by (simp add: cum_T0_spec_def matalloc_def)
  qed
  show ?thesis using sq els by (simp add: mat_sq_def cum_T0_spec_def)
qed

lemma matcopy_write:
  assumes "ptr_ok h P"
  shows "snd (matcopy h P M) < length (fst (matcopy h P M))"
    and "(fst (matcopy h P M))[snd (matcopy h P M) := f (fst (matcopy h P M) ! snd (matcopy h P M))]
           ! snd (matcopy h P M) = f M"
  using assms by (auto simp add: matcopy_def ptr_ok_def split: option.splits)

lemma cum_degenerate_value:
  assumes deg: "ux < GEO_TOLERANCE \<and> uy < GEO_TOLERANCE \<and> uz < GEO_TOLERANCE" and ok: "ptr_ok h Tmat"
  shows "cum_result_mat (leed_par_cumulative_tl env st h Tmat tl_0 ux uy uz eng l_max_t l_max_0)
     = Some (cum_scale (sqrt (2 * eng))
         (cum_t0 (h ! tl_0) (sqrt (2 * eng)) (if l_max_0 > l_max_t then l_max_t else l_max_0)
            ((l_max_t + 1) * (l_max_t + 1))))"
  unfolding leed_par_cumulative_tl_def cum_result_mat_def Let_def case_prod_beta if_P[OF deg]
  by (simp add: matcopy_write(2)[OF ok, where f = "cum_scale (sqrt (2 * eng))"])

lemma cum_iterated_value:
  assumes nd: "\<not> (ux < GEO_TOLERANCE \<and> uy < GEO_TOLERANCE \<and> uz < GEO_TOLERANCE)" and ok: "ptr_ok h Tmat"
  shows "cum_result_mat (leed_par_cumulative_tl env st h Tmat tl_0 ux uy uz eng l_max_t l_max_0)
     = (if i_iter (cum_final env st (h ! tl_0) ux uy uz eng l_max_t l_max_0) = NITER then None
        else Some (cum_scale (sqrt (2 * eng))
               (T_acc (cum_final env st (h ! tl_0) ux uy uz eng l_max_t l_max_0))))"
proof -
  have m: "ms (if n_call st = 0 \<or> last_l st \<noteq> int l_max_t then st\<lparr>ms := pc_mk_ms env l_max_t\<rparr> else st)
      = cum_ms_used env st l_max_t"
    by (simp add: cum_ms_used_def)
  show ?thesis
    unfolding leed_par_cumulative_tl_def cum_result_mat_def Let_def case_prod_beta m cum_final_def
      if_not_P[OF nd]
    by (simp add: matcopy_write(2)[OF ok, where f = "cum_scale (sqrt (2 * eng))"])
qed

lemma cum_body_iter: "i_iter (cum_body env M ux2 uy2 uz2 kappa s) = Suc (i_iter s)"
  by (simp add: cum_body_def Let_def)

lemma cum_pass_iter: "i_iter (cum_pass env M ux2 uy2 uz2 kappa s0 k) = i_iter s0 + k"
  by (induction k) (simp_all add: cum_body_iter)

lemma cum_pass_shift:
  "cum_pass env M ux2 uy2 uz2 kappa (cum_body env M ux2 uy2 uz2 kappa s0) k
     = cum_pass env M ux2 uy2 uz2 kappa s0 (Suc k)"
  by (induction k) simp_all

lemma cum_loop_stop:
  "\<not> cum_goes_on conv_test s \<Longrightarrow> cum_loop env M ux2 uy2 uz2 kappa conv_test s = s"
  by (subst cum_loop.simps) (auto simp add: cum_goes_on_def)

lemma cum_loop_step:
  "cum_goes_on conv_test s \<Longrightarrow>
   cum_loop env M ux2 uy2 uz2 kappa conv_test s
     = cum_loop env M ux2 uy2 uz2 kappa conv_test (cum_body env M ux2 uy2 uz2 kappa s)"
  by (subst cum_loop.simps) (auto simp add: cum_goes_on_def)

lemma cum_loop_stops:
  "\<exists>j. cum_loop env M ux2 uy2 uz2 kappa conv_test s = cum_pass env M ux2 uy2 uz2 kappa s j
       \<and> \<not> cum_goes_on conv_test (cum_pass env M ux2 uy2 uz2 kappa s j)
       \<and> (\<forall>i < j. cum_goes_on conv_test (cum_pass env M ux2 uy2 uz2 kappa s i))"
proof (induction env M ux2 uy2 uz2 kappa conv_test s rule: cum_loop.induct)
  case (1 env M ux2 uy2 uz2 kappa conv_test s)
  show ?case
  proof (cases "cum_goes_on conv_test s")
    case False
    then have "cum_loop env M ux2 uy2 uz2 kappa conv_test s = s"
      by (rule cum_loop_stop)
    then show ?thesis using False by (intro exI[of _ 0]) simp
  next
    case True
    then have g: "i_iter s < NITER \<and> (conv_test < relerr_r s \<or> conv_test < relerr_i s)"
      by (simp add: cum_goes_on_def)
    have u: "cum_loop env M ux2 uy2 uz2 kappa conv_test s
        = cum_loop env M ux2 uy2 uz2 kappa conv_test (cum_body env M ux2 uy2 uz2 kappa s)"
      using True by (rule cum_loop_step)
    obtain j where j: "cum_loop env M ux2 uy2 uz2 kappa conv_test (cum_body env M ux2 uy2 uz2 kappa s)
          = cum_pass env M ux2 uy2 uz2 kappa (cum_body env M ux2 uy2 uz2 kappa s) j"
        "\<not> cum_goes_on conv_test (cum_pass env M ux2 uy2 uz2 kappa (cum_body env M ux2 uy2 uz2 kappa s) j)"
        "\<forall>i < j. cum_goes_on conv_test (cum_pass env M ux2 uy2 uz2 kappa (cum_body env M ux2 uy2 uz2 kappa s) i)"
      using "1.IH"[OF g] by blast
    have a: "\<forall>i < Suc j. cum_goes_on conv_test (cum_pass env M ux2 uy2 uz2 kappa s i)"
    proof (intro allI impI)
      fix i assume "i < Suc j"
      show "cum_goes_on conv_test (cum_pass env M ux2 uy2 uz2 kappa s i)"
      proof (cases i)
        case 0
        then show ?thesis using True by simp
      next
        case (Suc i')
        then have "i' < j" using \<open>i < Suc j\<close> by simp
        then show ?thesis using j(3) Suc by (simp add: cum_pass_shift del: cum_pass.simps)
      qed
    qed
    show ?thesis
      using u j(1) j(2) a by (intro exI[of _ "Suc j"]) (simp add: cum_pass_shift del: cum_pass.simps)
  qed
qed

lemma length_concat_rows:
  "length (concat (map (\<lambda>i. map (f i) [0 ..< c]) [0 ..< r])) = r * c"
  by (induction r) simp_all

















lemma mat_sq_cum_t0: "mat_sq n (cum_t0 tla kappa l0 n)"
  unfolding cum_t0_def by (rule cum_t0_loop_sq) (simp add: mat_sq_def matalloc_def)

lemma cum_t0_is_spec: "(l0 + 1) * (l0 + 1) \<le> n \<Longrightarrow> cum_t0 tla kappa l0 n = cum_T0_spec tla kappa l0 n"
  unfolding cum_t0_def by (rule cum_t0_spec)

lemma conv_test_pos: "0 < CONV_TEST * real ((l + 1) * (l + 1)) * real ((l + 1) * (l + 1))"
proof -
  have "0 < (l + 1) * (l + 1)" by simp
  then have "0 < real ((l + 1) * (l + 1))" by (simp only: of_nat_0_less_iff)
  then show ?thesis by (simp add: CONV_TEST_def del: of_nat_mult of_nat_add)
qed

lemma cum_final_stops:
  "\<exists>j. cum_final env st tl0 ux uy uz eng l_max_t l_max_0 = cum_after env st tl0 ux uy uz eng l_max_t l_max_0 j
       \<and> 1 \<le> j \<and> Suc j \<le> NITER
       \<and> (Suc j < NITER \<longrightarrow> cum_converged l_max_t (cum_after env st tl0 ux uy uz eng l_max_t l_max_0 j))
       \<and> (\<forall>i. 1 \<le> i \<and> i < j \<longrightarrow> \<not> cum_converged l_max_t (cum_after env st tl0 ux uy uz eng l_max_t l_max_0 i))"
proof -
  define n where "n = (l_max_t + 1) * (l_max_t + 1)"
  define kappa where "kappa = sqrt (2 * eng)"
  define ct where "ct = CONV_TEST * real n * real n"
  define M where "M = cum_ms_used env st l_max_t"
  define s0 where "s0 = cum_start (cum_t0 tl0 kappa (if l_max_0 > l_max_t then l_max_t else l_max_0) n) ct"
  have ct: "0 < ct" unfolding ct_def n_def by (rule conv_test_pos)
  have fin: "cum_final env st tl0 ux uy uz eng l_max_t l_max_0
      = cum_loop env M (ux * ux) (uy * uy) (uz * uz) kappa ct s0"
    by (simp add: cum_final_def Let_def n_def kappa_def ct_def M_def s0_def cum_start_def)
  have aft: "\<And>k. cum_after env st tl0 ux uy uz eng l_max_t l_max_0 k
      = cum_pass env M (ux * ux) (uy * uy) (uz * uz) kappa s0 k"
    by (simp add: cum_after_def Let_def n_def kappa_def ct_def M_def s0_def)
  have it: "\<And>k. i_iter (cum_pass env M (ux * ux) (uy * uy) (uz * uz) kappa s0 k) = Suc k"
    by (simp add: cum_pass_iter s0_def cum_start_def)
  have go: "\<And>k. cum_goes_on ct (cum_pass env M (ux * ux) (uy * uy) (uz * uz) kappa s0 k)
      \<longleftrightarrow> Suc k < NITER \<and> \<not> cum_converged l_max_t (cum_pass env M (ux * ux) (uy * uy) (uz * uz) kappa s0 k)"
    by (auto simp add: cum_goes_on_def cum_converged_def Let_def it ct_def n_def)
  have go0: "cum_goes_on ct s0"
    using ct by (simp add: cum_goes_on_def s0_def cum_start_def NITER_def)
  obtain j where j: "cum_loop env M (ux * ux) (uy * uy) (uz * uz) kappa ct s0
        = cum_pass env M (ux * ux) (uy * uy) (uz * uz) kappa s0 j"
      "\<not> cum_goes_on ct (cum_pass env M (ux * ux) (uy * uy) (uz * uz) kappa s0 j)"
      "\<forall>i < j. cum_goes_on ct (cum_pass env M (ux * ux) (uy * uy) (uz * uz) kappa s0 i)"
    using cum_loop_stops[of env M "ux * ux" "uy * uy" "uz * uz" kappa ct s0] by blast
  have j1: "1 \<le> j" using j(2) go0 by (cases j) simp_all
  have jN: "Suc j \<le> NITER"
  proof (rule ccontr)
    assume "\<not> Suc j \<le> NITER"
    then have "NITER - 1 < j" by (simp add: NITER_def)
    then have "cum_goes_on ct (cum_pass env M (ux * ux) (uy * uy) (uz * uz) kappa s0 (NITER - 1))"
      using j(3) by blast
    then show False using go[of "NITER - 1"] by (simp add: NITER_def)
  qed
  have c: "Suc j < NITER \<longrightarrow> cum_converged l_max_t (cum_pass env M (ux * ux) (uy * uy) (uz * uz) kappa s0 j)"
    using j(2) go[of j] by blast
  have b: "\<forall>i. 1 \<le> i \<and> i < j \<longrightarrow> \<not> cum_converged l_max_t (cum_pass env M (ux * ux) (uy * uy) (uz * uz) kappa s0 i)"
    using j(3) go by blast
  show ?thesis unfolding fin aft using j(1) j1 jN c b by blast
qed

lemma cum_scale_mscale: "cum_scale kappa M = mscale (- kappa) M"
  by (simp add: cum_scale_def mscale_def complex_eq_iff)

lemma cum_ret_iterated:
  assumes nd: "\<not> (ux < GEO_TOLERANCE \<and> uy < GEO_TOLERANCE \<and> uz < GEO_TOLERANCE)"
  shows "cum_ret (leed_par_cumulative_tl env st h Tmat tl_0 ux uy uz eng l_max_t l_max_0) = None
           \<longleftrightarrow> i_iter (cum_final env st (h ! tl_0) ux uy uz eng l_max_t l_max_0) = NITER"
    and "cum_passes (leed_par_cumulative_tl env st h Tmat tl_0 ux uy uz eng l_max_t l_max_0)
           = i_iter (cum_final env st (h ! tl_0) ux uy uz eng l_max_t l_max_0) - 1"
proof -
  have m: "ms (if n_call st = 0 \<or> last_l st \<noteq> int l_max_t then st\<lparr>ms := pc_mk_ms env l_max_t\<rparr> else st)
      = cum_ms_used env st l_max_t"
    by (simp add: cum_ms_used_def)
  show "cum_ret (leed_par_cumulative_tl env st h Tmat tl_0 ux uy uz eng l_max_t l_max_0) = None
           \<longleftrightarrow> i_iter (cum_final env st (h ! tl_0) ux uy uz eng l_max_t l_max_0) = NITER"
    unfolding leed_par_cumulative_tl_def Let_def case_prod_beta m cum_final_def if_not_P[OF nd]
    by simp
  show "cum_passes (leed_par_cumulative_tl env st h Tmat tl_0 ux uy uz eng l_max_t l_max_0)
           = i_iter (cum_final env st (h ! tl_0) ux uy uz eng l_max_t l_max_0) - 1"
    unfolding leed_par_cumulative_tl_def Let_def case_prod_beta m cum_final_def if_not_P[OF nd]
    by simp
qed

lemma cum_after_iter: "i_iter (cum_after env st tl0 ux uy uz eng l_max_t l_max_0 k) = Suc k"
  by (simp add: cum_after_def Let_def cum_pass_iter cum_start_def)

lemma cum_iterated_outcome:
  assumes nd: "\<not> (ux < GEO_TOLERANCE \<and> uy < GEO_TOLERANCE \<and> uz < GEO_TOLERANCE)"
  shows "(cum_ret (leed_par_cumulative_tl env st h Tmat tl_0 ux uy uz eng l_max_t l_max_0) = None
          \<longleftrightarrow> (\<forall>k. 1 \<le> k \<and> Suc k < NITER \<longrightarrow>
                 \<not> cum_converged l_max_t (cum_after env st (h ! tl_0) ux uy uz eng l_max_t l_max_0 k)))
     \<and> (ptr_ok h Tmat
          \<and> cum_ret (leed_par_cumulative_tl env st h Tmat tl_0 ux uy uz eng l_max_t l_max_0) \<noteq> None
        \<longrightarrow> Suc (cum_passes (leed_par_cumulative_tl env st h Tmat tl_0 ux uy uz eng l_max_t l_max_0)) < NITER
          \<and> cum_converged l_max_t (cum_after env st (h ! tl_0) ux uy uz eng l_max_t l_max_0
               (cum_passes (leed_par_cumulative_tl env st h Tmat tl_0 ux uy uz eng l_max_t l_max_0)))
          \<and> cum_result_mat (leed_par_cumulative_tl env st h Tmat tl_0 ux uy uz eng l_max_t l_max_0)
              = Some (cum_scale (sqrt (2 * eng))
                  (T_acc (cum_after env st (h ! tl_0) ux uy uz eng l_max_t l_max_0
                    (cum_passes (leed_par_cumulative_tl env st h Tmat tl_0 ux uy uz eng l_max_t l_max_0))))))"
proof -
  let ?r = "leed_par_cumulative_tl env st h Tmat tl_0 ux uy uz eng l_max_t l_max_0"
  let ?after = "cum_after env st (h ! tl_0) ux uy uz eng l_max_t l_max_0"
  obtain j where fin: "cum_final env st (h ! tl_0) ux uy uz eng l_max_t l_max_0 = ?after j"
    and j1: "1 \<le> j" and jN: "Suc j \<le> NITER"
    and c: "Suc j < NITER \<longrightarrow> cum_converged l_max_t (?after j)"
    and b: "\<forall>i. 1 \<le> i \<and> i < j \<longrightarrow> \<not> cum_converged l_max_t (?after i)"
    using cum_final_stops[of env st "h ! tl_0" ux uy uz eng l_max_t l_max_0] by blast
  have none: "cum_ret ?r = None \<longleftrightarrow> Suc j = NITER"
    using cum_ret_iterated(1)[OF nd, of env st h Tmat tl_0 eng l_max_t l_max_0]
    by (simp add: fin cum_after_iter)
  have passes: "cum_passes ?r = j"
    using cum_ret_iterated(2)[OF nd, of env st h Tmat tl_0 eng l_max_t l_max_0]
    by (simp add: fin cum_after_iter)
  have A: "cum_ret ?r = None \<longleftrightarrow> (\<forall>k. 1 \<le> k \<and> Suc k < NITER \<longrightarrow> \<not> cum_converged l_max_t (?after k))"
  proof
    assume "cum_ret ?r = None"
    then have "Suc j = NITER" using none by simp
    then show "\<forall>k. 1 \<le> k \<and> Suc k < NITER \<longrightarrow> \<not> cum_converged l_max_t (?after k)"
      using b by auto
  next
    assume a: "\<forall>k. 1 \<le> k \<and> Suc k < NITER \<longrightarrow> \<not> cum_converged l_max_t (?after k)"
    have "\<not> Suc j < NITER" using a c j1 by blast
    then show "cum_ret ?r = None" using none jN by simp
  qed
  have B: "ptr_ok h Tmat \<and> cum_ret ?r \<noteq> None \<longrightarrow>
      Suc (cum_passes ?r) < NITER \<and> cum_converged l_max_t (?after (cum_passes ?r))
      \<and> cum_result_mat ?r = Some (cum_scale (sqrt (2 * eng)) (T_acc (?after (cum_passes ?r))))"
  proof (intro impI)
    assume h: "ptr_ok h Tmat \<and> cum_ret ?r \<noteq> None"
    then have lt: "Suc j < NITER" using none jN by simp
    have ne: "i_iter (cum_final env st (h ! tl_0) ux uy uz eng l_max_t l_max_0) \<noteq> NITER"
      using lt by (simp add: fin cum_after_iter)
    have "cum_result_mat ?r = Some (cum_scale (sqrt (2 * eng)) (T_acc (?after j)))"
      using cum_iterated_value[OF nd, of h Tmat env st tl_0 eng l_max_t l_max_0] h ne
      by (simp add: fin)
    then show "Suc (cum_passes ?r) < NITER \<and> cum_converged l_max_t (?after (cum_passes ?r))
      \<and> cum_result_mat ?r = Some (cum_scale (sqrt (2 * eng)) (T_acc (?after (cum_passes ?r))))"
      using lt c passes by simp
  qed
  show ?thesis using A B by blast
qed

lemma cum_fields_degenerate:
  assumes deg: "ux < GEO_TOLERANCE \<and> uy < GEO_TOLERANCE \<and> uz < GEO_TOLERANCE"
  shows "cum_passes (leed_par_cumulative_tl env st h Tmat tl_0 ux uy uz eng l_max_t l_max_0) = 0"
    and "cum_stat (leed_par_cumulative_tl env st h Tmat tl_0 ux uy uz eng l_max_t l_max_0) = st"
    and "cum_ret (leed_par_cumulative_tl env st h Tmat tl_0 ux uy uz eng l_max_t l_max_0) \<noteq> None"
    and "last (cum_msgs (leed_par_cumulative_tl env st h Tmat tl_0 ux uy uz eng l_max_t l_max_0))
           = WARNING_MSG ''All displacements are zero: return Tmat(T=0)''"
  unfolding leed_par_cumulative_tl_def Let_def case_prod_beta if_P[OF deg]
  by simp_all


lemma sqrt4: "sqrt 4 = 2"
  using sqrt_sq[of 2] by simp


lemma cum_ex_degenerate:
  "(0 :: real) < GEO_TOLERANCE \<and> (0 :: real) < GEO_TOLERANCE \<and> (0 :: real) < GEO_TOLERANCE"
  by (simp add: GEO_TOLERANCE_def)

lemma cum_ex_used: "cum_ms_used cum_ex_env cum_ex_st 0 = cum_ex_ms"
  by (simp add: cum_ms_used_def cum_ex_env_def cum_ex_st_def)


lemma cum_ex_T0: "cum_t0 cum_ex_tl 2 0 (Suc 0) = \<lparr>rows = 1, cols = 1, el = [Complex (- (1 / 4)) (- (1 / 4))]\<rparr>"
  by (simp add: cum_t0_def lm_natural_def matalloc_def matset_def cum_ex_tl_def)

lemma cum_ex_next:
  "cum_next cum_ex_ms ux2 uy2 uz2 kappa i \<lparr>rows = Suc 0, cols = Suc 0, el = [z]\<rparr>
     = \<lparr>rows = Suc 0, cols = Suc 0, el = [0]\<rparr>"
  by (simp add: cum_next_def cum_ex_ms_def matmul_def matalloc_def Let_def complex_eq_iff zero_complex.code)

lemma cum_ex_after1:
  "cum_after cum_ex_env cum_ex_st cum_ex_tl (1 / 10) 0 0 2 0 0 1
     = \<lparr>i_iter = 2, T_n = \<lparr>rows = 1, cols = 1, el = [0]\<rparr>,
        T_acc = \<lparr>rows = 1, cols = 1, el = [Complex (- (1 / 4)) (- (1 / 4))]\<rparr>,
        relerr_r = 0, relerr_i = 0\<rparr>"
  apply (simp add: cum_after_def Let_def sqrt4 cum_ex_T0 cum_ex_used cum_start_def)
  apply (simp add: cum_body_def cum_ex_next Let_def)
  apply (simp add: cum_acc_def cum_relerr_r_def cum_relerr_i_def)
  done

lemma cum_ex_converged:
  "cum_converged 0 (cum_after cum_ex_env cum_ex_st cum_ex_tl (1 / 10) 0 0 2 0 0 1)"
  unfolding cum_ex_after1 by (simp add: cum_converged_def CONV_TEST_def)

lemma cum_ex_ptr: "ptr_ok [cum_ex_tl] (Some 0)"
  by (simp add: ptr_ok_def)

lemma cum_ex_spec_T0:
  "cum_T0_spec cum_ex_tl 2 0 (Suc 0) = \<lparr>rows = Suc 0, cols = Suc 0, el = [Complex (- (1 / 4)) (- (1 / 4))]\<rparr>"
  by (simp add: cum_T0_spec_def lm_natural_def cum_ex_tl_def complex_eq_iff)







text \<open>
  Claim C4.  When \<open>ux\<close>, \<open>uy\<close> and \<open>uz\<close> are all below \<open>GEO_TOLERANCE\<close> the call returns,
  without a pass through the loop and without touching the static variables, the diagonal
  matrix with the entries \<open>- tl_0(l) / kappa\<close> in natural \<open>(l, m)\<close> order and zero elsewhere,
  every element multiplied by \<open>- kappa\<close>, and its last message is the warning.
\<close>

theorem leed_par_cumulative_tl_degenerate:
  assumes deg: "ux < GEO_TOLERANCE \<and> uy < GEO_TOLERANCE \<and> uz < GEO_TOLERANCE"
    and ok: "ptr_ok h Tmat"
  shows "cum_result_mat (leed_par_cumulative_tl env st h Tmat tl_0 ux uy uz eng l_max_t l_max_0)
           = Some (mscale (- sqrt (2 * eng))
               (cum_T0_spec (h ! tl_0) (sqrt (2 * eng)) (min l_max_0 l_max_t) ((l_max_t + 1) * (l_max_t + 1))))
     \<and> cum_passes (leed_par_cumulative_tl env st h Tmat tl_0 ux uy uz eng l_max_t l_max_0) = 0
     \<and> cum_stat (leed_par_cumulative_tl env st h Tmat tl_0 ux uy uz eng l_max_t l_max_0) = st
     \<and> last (cum_msgs (leed_par_cumulative_tl env st h Tmat tl_0 ux uy uz eng l_max_t l_max_0))
           = WARNING_MSG ''All displacements are zero: return Tmat(T=0)''"
proof -
  let ?n = "(l_max_t + 1) * (l_max_t + 1)"
  have l0: "(if l_max_0 > l_max_t then l_max_t else l_max_0) = min l_max_0 l_max_t" by simp
  have le: "(min l_max_0 l_max_t + 1) * (min l_max_0 l_max_t + 1) \<le> ?n"
    by (intro mult_le_mono) simp_all
  have t0: "cum_t0 (h ! tl_0) (sqrt (2 * eng)) (min l_max_0 l_max_t) ?n
      = cum_T0_spec (h ! tl_0) (sqrt (2 * eng)) (min l_max_0 l_max_t) ?n"
    by (rule cum_t0_is_spec[OF le])
  have v: "cum_result_mat (leed_par_cumulative_tl env st h Tmat tl_0 ux uy uz eng l_max_t l_max_0)
           = Some (mscale (- sqrt (2 * eng))
               (cum_T0_spec (h ! tl_0) (sqrt (2 * eng)) (min l_max_0 l_max_t) ?n))"
    using cum_degenerate_value[OF deg ok, of env st tl_0 eng l_max_t l_max_0]
    unfolding l0 t0 cum_scale_mscale .
  show ?thesis using v cum_fields_degenerate(1,2,4)[OF deg] by simp
qed

theorem leed_par_cumulative_tl_degenerate_witness:
  "cum_result_mat (leed_par_cumulative_tl cum_ex_env cum_ex_st [cum_ex_tl] (Some 0) 0 0 0 0 2 0 0)
      = Some cum_ex_tl
   \<and> cum_passes (leed_par_cumulative_tl cum_ex_env cum_ex_st [cum_ex_tl] (Some 0) 0 0 0 0 2 0 0) = 0
   \<and> cum_stat (leed_par_cumulative_tl cum_ex_env cum_ex_st [cum_ex_tl] (Some 0) 0 0 0 0 2 0 0)
      = cum_ex_st"
  using leed_par_cumulative_tl_degenerate[OF cum_ex_degenerate cum_ex_ptr,
      of cum_ex_env cum_ex_st 0 2 0 0]
  apply (simp add: sqrt4 cum_ex_spec_T0)
  apply (simp add: mscale_def cum_ex_tl_def complex_eq_iff)
  done



section \<open>Properties of \<open>leed_ld_2lay_rpm\<close>\<close>

lemma mat_sq_dim: "mat_sq n M = mat_dim n n M"
  by (simp add: mat_sq_def mat_dim_def)

lemma sum_list_upt: "(\<Sum>k \<leftarrow> [0 ..< n]. f k) = (\<Sum>k < n. f k)"
  by (induction n) simp_all

lemma rc_index: "i < r \<Longrightarrow> j < c \<Longrightarrow> i * c + j < r * (c::nat)"
proof -
  assume a: "i < r" "j < c"
  then have "i * c + j < Suc i * c" by simp
  also have "\<dots> \<le> r * c" using a by (intro mult_le_mono1) simp
  finally show ?thesis .
qed

lemma concat_rows_nth:
  "i < r \<Longrightarrow> j < c \<Longrightarrow> concat (map (\<lambda>i. map (f i) [0 ..< c]) [0 ..< r]) ! (i * c + j) = f i j"
proof (induction r)
  case 0
  then show ?case by simp
next
  case (Suc r)
  show ?case
  proof (cases "i < r")
    case True
    then have "i * c + j < r * c" using Suc.prems by (intro rc_index)
    then show ?thesis using Suc True by (simp add: nth_append length_concat_rows)
  next
    case False
    then have "i = r" using Suc.prems by simp
    then show ?thesis using Suc.prems by (simp add: nth_append length_concat_rows)
  qed
qed

lemma mat_dim_matmul: "mat_dim r m A \<Longrightarrow> mat_dim m c B \<Longrightarrow> mat_dim r c (matmul A B)"
  by (simp add: mat_dim_def matmul_def length_concat_rows)

lemma matmul_nth:
  assumes "mat_dim r m A" "mat_dim m c B" "i < r" "j < c"
  shows "el (matmul A B) ! (i * c + j) = (\<Sum>k < m. el A ! (i * m + k) * el B ! (k * c + j))"
  using assms by (simp add: matmul_def mat_dim_def concat_rows_nth sum_list_upt)

lemma mat_dim_eqI:
  assumes A: "mat_dim r c A" and B: "mat_dim r c B"
    and e: "\<And>i j. i < r \<Longrightarrow> j < c \<Longrightarrow> el A ! (i * c + j) = el B ! (i * c + j)"
    and m: "mat.more A = mat.more B"
  shows "A = B"
proof -
  have "el A ! p = el B ! p" if p: "p < r * c" for p
  proof -
    have c: "0 < c" using p by (cases c) simp_all
    have "p div c < r" using p c by (simp add: less_mult_imp_div_less)
    moreover have "p mod c < c" using c by simp
    ultimately have "el A ! (p div c * c + p mod c) = el B ! (p div c * c + p mod c)" by (rule e)
    then show ?thesis by simp
  qed
  then have "el A = el B" using A B by (intro nth_equalityI) (simp_all add: mat_dim_def)
  then show ?thesis using A B m by (simp add: mat_dim_def mat.equality)
qed

lemma div_mod_rc: "j < c \<Longrightarrow> (i * c + j) div c = i \<and> (i * c + j) mod (c::nat) = j"
  by simp

lemma mat_dim_id: "mat_dim n n (mat_id n)"
  by (simp add: mat_dim_def mat_id_def)

lemma mat_id_nth: "i < n \<Longrightarrow> j < n \<Longrightarrow> el (mat_id n) ! (i * n + j) = (if i = j then 1 else 0)"
  using rc_index[of i n j n] by (simp add: mat_id_def)

lemma mat_dim_diag: "mat_dim (length P) (length P) (mat_diag P)"
  by (simp add: mat_dim_def mat_diag_def)

lemma mat_diag_nth:
  "i < length P \<Longrightarrow> j < length P \<Longrightarrow> el (mat_diag P) ! (i * length P + j) = (if i = j then P ! i else 0)"
proof -
  assume ij: "i < length P" "j < length P"
  have p: "i * length P + j < length P * length P" using ij by (intro rc_index)
  have d: "(i * length P + j) div length P = i" "(i * length P + j) mod length P = j"
    using div_mod_rc[of j "length P" i] ij by blast+
  have "el (mat_diag P) ! (i * length P + j)
      = (if (i * length P + j) div length P = (i * length P + j) mod length P
         then P ! ((i * length P + j) div length P) else 0)"
    unfolding mat_diag_def using p by (simp del: div_mult_self3 div_mult_self4 mod_mult_self3 mod_mult_self4)
  then show ?thesis unfolding d .
qed

lemma sum_pick_left: "i < m \<Longrightarrow> (\<Sum>k < m. (if i = k then a else 0) * f k) = (a::complex) * f (i::nat)"
proof -
  assume i: "i < m"
  have "(\<Sum>k < m. (if i = k then a else 0) * f k) = (\<Sum>k < m. if k = i then a * f k else (0::complex))"
    by (intro sum.cong) auto
  then show ?thesis using i by simp
qed

lemma sum_pick_right: "j < m \<Longrightarrow> (\<Sum>k < m. f k * (if k = j then a else 0)) = f (j::nat) * (a::complex)"
proof -
  assume j: "j < m"
  have "(\<Sum>k < m. f k * (if k = j then a else 0)) = (\<Sum>k < m. if k = j then f k * a else (0::complex))"
    by (intro sum.cong) auto
  then show ?thesis using j by simp
qed

lemma matmul_id_left:
  assumes B: "mat_dim n c B"
  shows "matmul (mat_id n) B = B\<lparr>rows := n\<rparr>"
proof (rule mat_dim_eqI[of n c])
  show "mat_dim n c (matmul (mat_id n) B)" by (rule mat_dim_matmul[OF mat_dim_id B])
  show "mat_dim n c (B\<lparr>rows := n\<rparr>)" using B by (simp add: mat_dim_def)
  show "mat.more (matmul (mat_id n) B) = mat.more (B\<lparr>rows := n\<rparr>)" by (simp add: matmul_def)
  fix i j assume ij: "i < n" "j < c"
  show "el (matmul (mat_id n) B) ! (i * c + j) = el (B\<lparr>rows := n\<rparr>) ! (i * c + j)"
    using ij by (simp add: matmul_nth[OF mat_dim_id B] mat_id_nth sum_pick_left)
qed

lemma matmul_id_right:
  assumes A: "mat_dim r n A"
  shows "matmul A (mat_id n) = A"
proof (rule mat_dim_eqI[of r n])
  show "mat_dim r n (matmul A (mat_id n))" by (rule mat_dim_matmul[OF A mat_dim_id])
  show "mat_dim r n A" by (rule A)
  show "mat.more (matmul A (mat_id n)) = mat.more A" by (simp add: matmul_def)
  fix i j assume ij: "i < r" "j < n"
  show "el (matmul A (mat_id n)) ! (i * n + j) = el A ! (i * n + j)"
    using ij by (simp add: matmul_nth[OF A mat_dim_id] mat_id_nth sum_pick_right)
qed

lemma matmul_assoc:
  assumes A: "mat_dim r m A" and B: "mat_dim m q B" and C: "mat_dim q c C"
  shows "matmul (matmul A B) C = matmul A (matmul B C)"
proof (rule mat_dim_eqI[of r c])
  show "mat_dim r c (matmul (matmul A B) C)" by (rule mat_dim_matmul[OF mat_dim_matmul[OF A B] C])
  show "mat_dim r c (matmul A (matmul B C))" by (rule mat_dim_matmul[OF A mat_dim_matmul[OF B C]])
  show "mat.more (matmul (matmul A B) C) = mat.more (matmul A (matmul B C))" by (simp add: matmul_def)
  fix i j assume ij: "i < r" "j < c"
  have "el (matmul (matmul A B) C) ! (i * c + j)
      = (\<Sum>k < q. (\<Sum>l < m. el A ! (i * m + l) * el B ! (l * q + k)) * el C ! (k * c + j))"
    using ij by (simp add: matmul_nth[OF mat_dim_matmul[OF A B] C] matmul_nth[OF A B])
  also have "\<dots> = (\<Sum>k < q. \<Sum>l < m. el A ! (i * m + l) * el B ! (l * q + k) * el C ! (k * c + j))"
    by (simp add: sum_distrib_right)
  also have "\<dots> = (\<Sum>l < m. \<Sum>k < q. el A ! (i * m + l) * el B ! (l * q + k) * el C ! (k * c + j))"
    by (rule sum.swap)
  also have "\<dots> = (\<Sum>l < m. el A ! (i * m + l) * (\<Sum>k < q. el B ! (l * q + k) * el C ! (k * c + j)))"
    by (simp add: sum_distrib_left mult.assoc)
  also have "\<dots> = el (matmul A (matmul B C)) ! (i * c + j)"
    using ij by (simp add: matmul_nth[OF A mat_dim_matmul[OF B C]] matmul_nth[OF B C])
  finally show "el (matmul (matmul A B) C) ! (i * c + j) = el (matmul A (matmul B C)) ! (i * c + j)" .
qed

lemma cri_mul_times: "cri_mul a b = a * b"
  by (simp add: cri_mul_def complex_eq_iff)

lemma cri_expi_exp: "cri_expi x y = exp (\<i> * Complex x y)"
  by (simp add: cri_expi_def exp_eq_polar complex_eq_iff cis.code)

lemma ld_Pp_propagator:
  "ld_Pp beams v n = map (\<lambda>k. ld_propagator_p (beams ! k) v) [0 ..< n]"
  unfolding ld_Pp_def ld_propagator_p_def Let_def cri_expi_exp
  by (intro map_cong refl arg_cong[where f = exp] arg_cong[where f = "(*) \<i>"])
    (simp add: complex_eq_iff)

lemma ld_Pm_propagator:
  "ld_Pm beams v n = map (\<lambda>k. ld_propagator_m (beams ! k) v) [0 ..< n]"
  unfolding ld_Pm_def ld_propagator_m_def Let_def cri_expi_exp
  by (intro map_cong refl arg_cong[where f = exp] arg_cong[where f = "(*) \<i>"])
    (simp add: complex_eq_iff)

lemma ld_col_mul_upto:
  assumes len: "length (el M) = n * n" and k: "1 \<le> k" "k \<le> n" and j: "j \<le> n"
  shows "fold (\<lambda>r M. M\<lparr>el := (el M)[k - 1 + r * n := cri_mul (el M ! (k - 1 + r * n)) c]\<rparr>) [0 ..< j] M
     = M\<lparr>el := map (\<lambda>p. if p mod n = k - 1 \<and> p div n < j then el M ! p * c else el M ! p) [0 ..< n * n]\<rparr>"
  using j
proof (induction j)
  case 0
  have "map (\<lambda>p. el M ! p) [0 ..< n * n] = el M" using len by (metis map_nth)
  then show ?case by simp
next
  case (Suc j)
  let ?E = "\<lambda>j. map (\<lambda>p. if p mod n = k - 1 \<and> p div n < j then el M ! p * c else el M ! p) [0 ..< n * n]"
  let ?q = "k - 1 + j * n"
  have jn: "j < n" using Suc.prems by simp
  have k1: "k - 1 < n" using k by simp
  have q: "?q < n * n" using rc_index[OF jn k1] by (simp add: add.commute)
  have qd: "?q div n = j" "?q mod n = k - 1" using k1 by simp_all
  have IH: "fold (\<lambda>r M. M\<lparr>el := (el M)[k - 1 + r * n := cri_mul (el M ! (k - 1 + r * n)) c]\<rparr>) [0 ..< j] M
      = M\<lparr>el := ?E j\<rparr>"
    using Suc by simp
  have "(?E j)[?q := cri_mul (?E j ! ?q) c] = ?E (Suc j)"
  proof (rule nth_equalityI)
    show "length ((?E j)[?q := cri_mul (?E j ! ?q) c]) = length (?E (Suc j))" by simp
    fix p assume "p < length ((?E j)[?q := cri_mul (?E j ! ?q) c])"
    then have p: "p < n * n" by simp
    show "(?E j)[?q := cri_mul (?E j ! ?q) c] ! p = ?E (Suc j) ! p"
    proof (cases "p = ?q")
      case True
      have "?E j ! ?q = el M ! ?q" using q qd by (simp del: div_mult_self3 div_mult_self4 mod_mult_self3 mod_mult_self4)
      moreover have "?E (Suc j) ! ?q = el M ! ?q * c" using q qd by (simp del: div_mult_self3 div_mult_self4 mod_mult_self3 mod_mult_self4)
      ultimately show ?thesis using True q by (simp add: cri_mul_times)
    next
      case False
      have ne: "\<not> (p mod n = k - 1 \<and> p div n = j)"
      proof
        assume a: "p mod n = k - 1 \<and> p div n = j"
        have "p = p div n * n + p mod n" by simp
        then have "p = ?q" using a by (simp add: add.commute)
        then show False using False by simp
      qed
      have "(p mod n = k - 1 \<and> p div n < Suc j) = (p mod n = k - 1 \<and> p div n < j)"
        using ne by auto
      then show ?thesis using False p by simp
    qed
  qed
  then show ?case unfolding upt_Suc_append[OF le0] fold_append comp_def IH by simp
qed

lemma ld_col_mul_el:
  assumes len: "length (el M) = n * n" and k: "1 \<le> k" "k \<le> n"
  shows "ld_col_mul n k c M
     = M\<lparr>el := map (\<lambda>p. if p mod n = k - 1 then el M ! p * c else el M ! p) [0 ..< n * n]\<rparr>"
proof -
  have "\<And>p. p < n * n \<Longrightarrow> p div n < n"
    by (metis less_mult_imp_div_less mult.commute)
  then have "map (\<lambda>p. if p mod n = k - 1 \<and> p div n < n then el M ! p * c else el M ! p) [0 ..< n * n]
      = map (\<lambda>p. if p mod n = k - 1 then el M ! p * c else el M ! p) [0 ..< n * n]"
    by (intro map_cong) auto
  then show ?thesis
    unfolding ld_col_mul_def using ld_col_mul_upto[OF len k, of n c] by simp
qed

lemma ld_cols_mul_upto:
  assumes len: "length (el M) = n * n" and j: "j \<le> n"
  shows "fold (\<lambda>k M. ld_col_mul n k (f (P ! (k - 1))) M) [1 ..< Suc j] M
     = M\<lparr>el := map (\<lambda>p. if p mod n < j then el M ! p * f (P ! (p mod n)) else el M ! p) [0 ..< n * n]\<rparr>"
  using j
proof (induction j)
  case 0
  have "map (\<lambda>p. el M ! p) [0 ..< n * n] = el M" using len by (metis map_nth)
  then show ?case by simp
next
  case (Suc j)
  let ?E = "\<lambda>j. map (\<lambda>p. if p mod n < j then el M ! p * f (P ! (p mod n)) else el M ! p) [0 ..< n * n]"
  have IH: "fold (\<lambda>k M. ld_col_mul n k (f (P ! (k - 1))) M) [1 ..< Suc j] M = M\<lparr>el := ?E j\<rparr>"
    using Suc by simp
  have l: "length (el (M\<lparr>el := ?E j\<rparr>)) = n * n" by simp
  have k: "1 \<le> Suc j" "Suc j \<le> n" using Suc.prems by simp_all
  have "map (\<lambda>p. if p mod n = j then ?E j ! p * f (P ! j) else ?E j ! p) [0 ..< n * n] = ?E (Suc j)"
    by (intro nth_equalityI) (auto simp add: less_Suc_eq)
  then show ?case
    unfolding upt_Suc_append[OF k(1)] fold_append comp_def IH
    by (simp add: ld_col_mul_el[OF l k])
qed

lemma ld_cols_mul_diag:
  assumes M: "mat_sq n M" and P: "length P = n"
  shows "ld_cols_mul n f P M = matmul M (mat_diag (map f P))"
proof (rule mat_dim_eqI[of n n])
  have len: "length (el M) = n * n" and rc: "rows M = n" "cols M = n"
    using M by (simp_all add: mat_sq_def)
  have D: "mat_dim n n (mat_diag (map f P))" using mat_dim_diag[of "map f P"] P by simp
  have Md: "mat_dim n n M" using M by (simp add: mat_sq_dim)
  have E: "ld_cols_mul n f P M
      = M\<lparr>el := map (\<lambda>p. el M ! p * f (P ! (p mod n))) [0 ..< n * n]\<rparr>"
  proof -
    have "\<And>p. p < n * n \<Longrightarrow> p mod n < n"
      by (cases n) simp_all
    then have "map (\<lambda>p. if p mod n < n then el M ! p * f (P ! (p mod n)) else el M ! p) [0 ..< n * n]
        = map (\<lambda>p. el M ! p * f (P ! (p mod n))) [0 ..< n * n]"
      by (intro map_cong) auto
    then show ?thesis
      unfolding ld_cols_mul_def ld_cols_mul_upto[OF len le_refl] by simp
  qed
  show "mat_dim n n (ld_cols_mul n f P M)" unfolding E using rc by (simp add: mat_dim_def)
  show "mat_dim n n (matmul M (mat_diag (map f P)))" by (rule mat_dim_matmul[OF Md D])
  show "mat.more (ld_cols_mul n f P M) = mat.more (matmul M (mat_diag (map f P)))"
    unfolding E by (simp add: matmul_def)
  fix i j assume ij: "i < n" "j < n"
  have dn: "\<And>k. k < n \<Longrightarrow> el (mat_diag (map f P)) ! (k * n + j) = (if k = j then f (P ! k) else 0)"
    using mat_diag_nth[of _ "map f P" j] P ij by simp
  have "el (matmul M (mat_diag (map f P))) ! (i * n + j)
      = (\<Sum>k < n. el M ! (i * n + k) * (if k = j then f (P ! j) else 0))"
    unfolding matmul_nth[OF Md D ij] by (intro sum.cong refl) (simp add: dn)
  also have "\<dots> = el M ! (i * n + j) * f (P ! j)" using ij by (simp add: sum_pick_right)
  finally show "el (ld_cols_mul n f P M) ! (i * n + j) = el (matmul M (mat_diag (map f P))) ! (i * n + j)"
    unfolding E using rc_index[OF ij] ij by simp
qed

lemma map_nth_upt: "length xs = m \<Longrightarrow> map (\<lambda>p. xs ! p) [0 ..< m] = xs"
  by (metis map_nth)

lemma ld_add_unity_from:
  assumes "mat_sq n M" "r \<le> n"
  shows "ld_add_unity (n * n) (r * (n + 1) + 1) M
     = M\<lparr>el := map (\<lambda>p. if p div n = p mod n \<and> r \<le> p div n then el M ! p + 1 else el M ! p) [0 ..< n * n]\<rparr>"
  using assms
proof (induction "n - r" arbitrary: r M)
  case 0
  then have r: "r = n" by simp
  have "\<And>p. p < n * n \<Longrightarrow> \<not> n \<le> p div n"
    by (metis less_mult_imp_div_less mult.commute not_le)
  then have e1: "map (\<lambda>p. if p div n = p mod n \<and> n \<le> p div n then el M ! p + 1 else el M ! p) [0 ..< n * n]
      = map (\<lambda>p. el M ! p) [0 ..< n * n]"
    by (intro map_cong) auto
  have e2: "map (\<lambda>p. el M ! p) [0 ..< n * n] = el M"
    using "0.prems" by (intro map_nth_upt) (simp add: mat_sq_def)
  have e: "map (\<lambda>p. if p div n = p mod n \<and> n \<le> p div n then el M ! p + 1 else el M ! p) [0 ..< n * n]
      = el M"
    by (rule trans[OF e1 e2])
  have "\<not> n * (n + 1) + 1 \<le> n * n" by simp
  then have "ld_add_unity (n * n) (n * (n + 1) + 1) M = M"
    by (subst ld_add_unity.simps) simp
  then show ?case unfolding r e by simp
next
  case (Suc d)
  then have rn: "r < n" by simp
  let ?q = "r * n + r"
  let ?M' = "M\<lparr>el := (el M)[?q := el M ! ?q + 1]\<rparr>"
  have len: "length (el M) = n * n" and c: "cols M = n" using Suc.prems by (simp_all add: mat_sq_def)
  have q: "?q < n * n" using rc_index[OF rn rn] .
  have qd: "?q div n = r" "?q mod n = r" using rn by simp_all
  have k: "r * (n + 1) + 1 \<le> n * n" using q by simp
  have M': "mat_sq n ?M'" using Suc.prems by (simp add: mat_sq_def)
  have d: "d = n - Suc r" using Suc.hyps(2) by simp
  have IH: "ld_add_unity (n * n) (Suc r * (n + 1) + 1) ?M'
      = ?M'\<lparr>el := map (\<lambda>p. if p div n = p mod n \<and> Suc r \<le> p div n then el ?M' ! p + 1 else el ?M' ! p)
                     [0 ..< n * n]\<rparr>"
    using Suc.hyps(1)[OF d M'] rn by simp
  have step: "ld_add_unity (n * n) (r * (n + 1) + 1) M = ld_add_unity (n * n) (Suc r * (n + 1) + 1) ?M'"
    using k c by (subst ld_add_unity.simps) (simp add: algebra_simps)
  have "map (\<lambda>p. if p div n = p mod n \<and> Suc r \<le> p div n then el ?M' ! p + 1 else el ?M' ! p) [0 ..< n * n]
      = map (\<lambda>p. if p div n = p mod n \<and> r \<le> p div n then el M ! p + 1 else el M ! p) [0 ..< n * n]"
  proof (rule map_cong[OF refl])
    fix p assume "p \<in> set [0 ..< n * n]"
    then have p: "p < n * n" by simp
    show "(if p div n = p mod n \<and> Suc r \<le> p div n then el ?M' ! p + 1 else el ?M' ! p)
        = (if p div n = p mod n \<and> r \<le> p div n then el M ! p + 1 else el M ! p)"
    proof (cases "p = ?q")
      case True
      have "el ?M' ! ?q = el M ! ?q + 1" using q len by simp
      then show ?thesis unfolding True qd by simp
    next
      case False
      have ne: "\<not> (p div n = p mod n \<and> p div n = r)"
      proof
        assume a: "p div n = p mod n \<and> p div n = r"
        have "p = p div n * n + p mod n" by simp
        also have "\<dots> = r * n + r" using a by metis
        finally show False using False by simp
      qed
      have "el ?M' ! p = el M ! p" using False by simp
      moreover have "(p div n = p mod n \<and> Suc r \<le> p div n) = (p div n = p mod n \<and> r \<le> p div n)"
        using ne by auto
      ultimately show ?thesis by simp
    qed
  qed
  then show ?case unfolding step IH by simp
qed

lemma ld_add_unity_id:
  assumes M: "mat_sq n M"
  shows "ld_add_unity (n * n) 1 M = madd M (mat_id n)"
proof -
  have len: "length (el M) = n * n" using M by (simp add: mat_sq_def)
  have "map (\<lambda>p. if p div n = p mod n \<and> 0 \<le> p div n then el M ! p + 1 else el M ! p) [0 ..< n * n]
      = map2 (+) (el M) (el (mat_id n))"
    using len by (intro nth_equalityI) (simp_all add: mat_id_def)
  then show ?thesis
    using ld_add_unity_from[OF M le0] by (simp add: madd_def)
qed

lemma mat_diag_neg: "mat_diag (map uminus P) = mscale (- 1) (mat_diag P)"
proof -
  have "\<And>p. p < length P * length P \<Longrightarrow> p mod length P < length P"
    by (cases "length P") simp_all
  then show ?thesis by (simp add: mat_diag_def mscale_def)
qed

lemma mat_dim_mscale: "mat_dim r c A \<Longrightarrow> mat_dim r c (mscale x A)"
  by (simp add: mat_dim_def mscale_def)

lemma mscale_el: "mat_dim r c A \<Longrightarrow> i < r \<Longrightarrow> j < c \<Longrightarrow> el (mscale x A) ! (i * c + j) = of_real x * el A ! (i * c + j)"
  using rc_index[of i r j c] by (simp add: mat_dim_def mscale_def)

lemma matmul_mscale_right:
  assumes A: "mat_dim r m A" and B: "mat_dim m c B"
  shows "matmul A (mscale x B) = mscale x (matmul A B)"
proof (rule mat_dim_eqI[of r c])
  show "mat_dim r c (matmul A (mscale x B))" by (rule mat_dim_matmul[OF A mat_dim_mscale[OF B]])
  show "mat_dim r c (mscale x (matmul A B))" by (rule mat_dim_mscale[OF mat_dim_matmul[OF A B]])
  show "mat.more (matmul A (mscale x B)) = mat.more (mscale x (matmul A B))" by simp
  fix i j assume ij: "i < r" "j < c"
  show "el (matmul A (mscale x B)) ! (i * c + j) = el (mscale x (matmul A B)) ! (i * c + j)"
    using ij
    by (simp add: matmul_nth[OF A mat_dim_mscale[OF B]] mscale_el[OF B]
        mscale_el[OF mat_dim_matmul[OF A B]] matmul_nth[OF A B] sum_distrib_left mult.left_commute)
qed

lemma matmul_mscale_left:
  assumes A: "mat_dim r m A" and B: "mat_dim m c B"
  shows "matmul (mscale x A) B = mscale x (matmul A B)"
proof (rule mat_dim_eqI[of r c])
  show "mat_dim r c (matmul (mscale x A) B)" by (rule mat_dim_matmul[OF mat_dim_mscale[OF A] B])
  show "mat_dim r c (mscale x (matmul A B))" by (rule mat_dim_mscale[OF mat_dim_matmul[OF A B]])
  show "mat.more (matmul (mscale x A) B) = mat.more (mscale x (matmul A B))" by simp
  fix i j assume ij: "i < r" "j < c"
  show "el (matmul (mscale x A) B) ! (i * c + j) = el (mscale x (matmul A B)) ! (i * c + j)"
    using ij
    by (simp add: matmul_nth[OF mat_dim_mscale[OF A] B] mscale_el[OF A]
        mscale_el[OF mat_dim_matmul[OF A B]] matmul_nth[OF A B] sum_distrib_left mult.assoc)
qed

lemma madd_neg_id:
  assumes Y: "mat_sq n Y"
  shows "madd (mscale (- 1) Y) (mat_id n) = msub (mat_id n) Y"
  using Y
  by (intro mat.equality nth_equalityI) (simp_all add: madd_def msub_def mscale_def mat_id_def mat_sq_def)

lemma ld_add_madd:
  assumes R: "mat_sq n Res" and B: "mat_sq n Rpm_b"
  shows "ld_add (n * n) Res Rpm_b = madd Rpm_b Res"
  using R B
  by (intro mat.equality nth_equalityI) (simp_all add: ld_add_def madd_def mat_sq_def complex_eq_iff)

lemma ld_result:
  assumes Ra: "mat_sq n Rpm_a" and Tp: "mat_sq n Tpp_b" and Tm: "mat_sq n Tmm_b"
    and Rb: "mat_sq n Rpm_b" and Rm: "mat_sq n Rmp_b"
    and X: "mat_sq n (matinv (ld_denominator Rpm_a Rmp_b (ld_P_plus beams vec_ab n) (ld_P_minus beams vec_ab n)))"
  shows "leed_ld_2lay_rpm matinv Rpm_a Tpp_b Tmm_b Rpm_b Rmp_b beams vec_ab
     = ld_formula Rpm_a Tpp_b Tmm_b Rpm_b Rmp_b (ld_P_plus beams vec_ab n) (ld_P_minus beams vec_ab n)
         (matinv (ld_denominator Rpm_a Rmp_b (ld_P_plus beams vec_ab n) (ld_P_minus beams vec_ab n)))"
proof -
  let ?Pp = "ld_P_plus beams vec_ab n" and ?Pm = "ld_P_minus beams vec_ab n"
  let ?Dp = "mat_diag ?Pp" and ?Dm = "mat_diag ?Pm"
  let ?A = "ld_denominator Rpm_a Rmp_b ?Pp ?Pm"
  let ?X = "matinv ?A"
  have c: "cols Rpm_a = n" using Ra by (simp add: mat_sq_def)
  have lp: "length ?Pp = n" and lm: "length ?Pm = n" by (simp_all add: ld_P_plus_def ld_P_minus_def)
  have Pp: "ld_Pp beams vec_ab n = ?Pp" by (simp add: ld_Pp_propagator ld_P_plus_def)
  have Pm: "ld_Pm beams vec_ab n = ?Pm" by (simp add: ld_Pm_propagator ld_P_minus_def)
  have dRa: "mat_dim n n Rpm_a" and dTp: "mat_dim n n Tpp_b" and dTm: "mat_dim n n Tmm_b"
    and dRm: "mat_dim n n Rmp_b" and dX: "mat_dim n n ?X"
    using Ra Tp Tm Rm X by (simp_all add: mat_sq_dim)
  have dDp: "mat_dim n n ?Dp" using mat_dim_diag[of ?Pp] lp by simp
  have dDm: "mat_dim n n ?Dm" using mat_dim_diag[of ?Pm] lm by simp
  note mm = mat_dim_matmul
  have a: "ld_cols_mul n (\<lambda>z. z) ?Pm Rpm_a = matmul Rpm_a ?Dm"
    using ld_cols_mul_diag[OF Ra lm, of "\<lambda>z. z"] by simp
  have b: "ld_cols_mul n (\<lambda>z. - z) ?Pp Rmp_b = mscale (- 1) (matmul Rmp_b ?Dp)"
    using ld_cols_mul_diag[OF Rm lp, of uminus]
    by (simp add: mat_diag_neg matmul_mscale_right[OF dRm dDp])
  have t: "ld_cols_mul n (\<lambda>z. z) ?Pp Tpp_b = matmul Tpp_b ?Dp"
    using ld_cols_mul_diag[OF Tp lp, of "\<lambda>z. z"] by simp
  have Y: "matmul (matmul Rmp_b ?Dp) (matmul Rpm_a ?Dm) = matmul (matmul (matmul Rmp_b ?Dp) Rpm_a) ?Dm"
    by (rule matmul_assoc[OF mm[OF dRm dDp] dRa dDm, symmetric])
  have dY: "mat_dim n n (matmul (matmul (matmul Rmp_b ?Dp) Rpm_a) ?Dm)"
    by (rule mm[OF mm[OF mm[OF dRm dDp] dRa] dDm])
  have b2: "matmul (mscale (- 1) (matmul Rmp_b ?Dp)) (matmul Rpm_a ?Dm)
      = mscale (- 1) (matmul (matmul (matmul Rmp_b ?Dp) Rpm_a) ?Dm)"
    unfolding matmul_mscale_left[OF mm[OF dRm dDp] mm[OF dRa dDm]] Y ..
  have b3: "ld_add_unity (n * n) 1 (mscale (- 1) (matmul (matmul (matmul Rmp_b ?Dp) Rpm_a) ?Dm)) = ?A"
    using ld_add_unity_id[of n "mscale (- 1) (matmul (matmul (matmul Rmp_b ?Dp) Rpm_a) ?Dm)"]
      mat_dim_mscale[OF dY, of "- 1"] madd_neg_id[of n "matmul (matmul (matmul Rmp_b ?Dp) Rpm_a) ?Dm"] dY
    by (simp add: mat_sq_dim ld_denominator_def c)
  have r1: "matmul (matmul Tpp_b ?Dp) (matmul (matmul Rpm_a ?Dm) (matmul ?X Tmm_b))
      = matmul (matmul (matmul (matmul (matmul Tpp_b ?Dp) Rpm_a) ?Dm) ?X) Tmm_b"
    unfolding matmul_assoc[OF mm[OF mm[OF mm[OF dTp dDp] dRa] dDm] dX dTm]
      matmul_assoc[OF mm[OF mm[OF dTp dDp] dRa] dDm mm[OF dX dTm]]
      matmul_assoc[OF mm[OF dTp dDp] dRa mm[OF dDm mm[OF dX dTm]]]
      matmul_assoc[OF dRa dDm mm[OF dX dTm]] ..
  have dR: "mat_sq n (matmul (matmul (matmul (matmul (matmul Tpp_b ?Dp) Rpm_a) ?Dm) ?X) Tmm_b)"
    unfolding mat_sq_dim by (rule mm[OF mm[OF mm[OF mm[OF mm[OF dTp dDp] dRa] dDm] dX] dTm])
  show ?thesis
    unfolding leed_ld_2lay_rpm_def Let_def c Pp Pm a b t b2 b3 r1 ld_add_madd[OF dR Rb] ld_formula_def ..
qed

lemma Complex_0_0: "Complex 0 0 = 0"
  by (simp add: complex_eq_iff)

lemma ld_ex_P: "ld_P_plus [ld_ex_beam] ((!) [0, 0, 0, 1]) (Suc 0) = [1]"
  "ld_P_minus [ld_ex_beam] ((!) [0, 0, 0, 1]) (Suc 0) = [1]"
  by (simp_all add: ld_P_plus_def ld_P_minus_def ld_propagator_p_def ld_propagator_m_def ld_ex_beam_def
      Complex_0_0)

lemma ld_ex_diag: "mat_diag [1] = ld_ex_mat 1"
  by (simp add: mat_diag_def ld_ex_mat_def)

lemma ld_ex_id: "mat_id (Suc 0) = ld_ex_mat 1"
  by (simp add: mat_id_def ld_ex_mat_def)

lemma ld_ex_mul: "matmul (ld_ex_mat a) (ld_ex_mat b) = ld_ex_mat (a * b)"
  by (simp add: matmul_def ld_ex_mat_def)

lemma ld_ex_sub: "msub (ld_ex_mat a) (ld_ex_mat b) = ld_ex_mat (a - b)"
  by (simp add: msub_def ld_ex_mat_def)

lemma ld_ex_add: "madd (ld_ex_mat a) (ld_ex_mat b) = ld_ex_mat (a + b)"
  by (simp add: madd_def ld_ex_mat_def)

lemma ld_ex_inv: "ld_ex_matinv (ld_ex_mat a) = ld_ex_mat (1 / a)"
  by (simp add: ld_ex_matinv_def ld_ex_mat_def)

lemma ld_ex_cols: "cols (ld_ex_mat a) = Suc 0"
  by (simp add: ld_ex_mat_def)

lemma ld_ex_sq: "mat_sq (Suc 0) (ld_ex_mat a)"
  by (simp add: mat_sq_def ld_ex_mat_def)

text \<open>
  Claim C1.  For \<open>n \<times> n\<close> matrices \<open>Rpm_a\<close>, \<open>Tpp_b\<close>, \<open>Tmm_b\<close>, \<open>Rpm_b\<close>, \<open>Rmp_b\<close>, a list
  of beams and a vector \<open>vec_ab\<close>, with \<open>matinv\<close> returning the inverse of the matrix it is
  given, \<open>leed_ld_2lay_rpm\<close> returns
  \<open>Rpm_b + Tpp_b P\<^sup>+ Rpm_a P\<^sup>- (I - Rmp_b P\<^sup>+ Rpm_a P\<^sup>-)\<^sup>-\<^sup>1 Tmm_b\<close>,
  where \<open>P\<^sup>+\<close> and \<open>P\<^sup>-\<close> are the diagonal matrices with the entries
  \<open>exp (i (k_x v_x + k_y v_y + k_z v_z))\<close> and \<open>exp (i (- k_x v_x - k_y v_y + k_z v_z))\<close> of beam
  \<open>k\<close>, \<open>k_z\<close> being the complex number \<open>k_r[3] + i k_i[3]\<close>.  The sign of the z component of
  \<open>vec_ab\<close> plays no part in this.
\<close>

theorem leed_ld_2lay_rpm_formula:
  assumes "mat_sq n Rpm_a" and "mat_sq n Tpp_b" and "mat_sq n Tmm_b"
    and "mat_sq n Rpm_b" and "mat_sq n Rmp_b"
    and "mat_inverse n (ld_denominator Rpm_a Rmp_b (ld_P_plus beams vec_ab n) (ld_P_minus beams vec_ab n))
           (matinv (ld_denominator Rpm_a Rmp_b (ld_P_plus beams vec_ab n) (ld_P_minus beams vec_ab n)))"
  shows "leed_ld_2lay_rpm matinv Rpm_a Tpp_b Tmm_b Rpm_b Rmp_b beams vec_ab
     = ld_formula Rpm_a Tpp_b Tmm_b Rpm_b Rmp_b (ld_P_plus beams vec_ab n) (ld_P_minus beams vec_ab n)
         (matinv (ld_denominator Rpm_a Rmp_b (ld_P_plus beams vec_ab n) (ld_P_minus beams vec_ab n)))"
  using assms by (intro ld_result) (simp_all add: mat_inverse_def)

theorem leed_ld_2lay_rpm_formula_witness:
  "leed_ld_2lay_rpm ld_ex_matinv (ld_ex_mat (1 / 2)) (ld_ex_mat 1) (ld_ex_mat 1) (ld_ex_mat 0)
       (ld_ex_mat (1 / 2)) [ld_ex_beam] ((!) [0, 0, 0, 1])
     = ld_ex_mat (2 / 3)"
  using leed_ld_2lay_rpm_formula[of 1 "ld_ex_mat (1 / 2)" "ld_ex_mat 1" "ld_ex_mat 1" "ld_ex_mat 0"
      "ld_ex_mat (1 / 2)" "[ld_ex_beam]" "(!) [0, 0, 0, 1]" ld_ex_matinv]
  by (simp add: ld_ex_sq ld_ex_cols ld_ex_P ld_ex_diag ld_ex_id ld_ex_mul ld_ex_sub ld_ex_add ld_ex_inv
      ld_denominator_def ld_formula_def mat_inverse_def)

section \<open>Properties of \<open>leed_ms_compl_sym\<close>\<close>

lemma compl_plane_single: "compl_plane [a] = (1, pos a 3)"
  by (simp add: compl_plane_def GEO_TOLERANCE_def)

lemma compl_atoms_single: "compl_atoms [a] = [a]"
  by (simp add: compl_atoms_def compl_plane_single compl_sort_def GEO_TOLERANCE_def)

lemma compl_pairs_single: "compl_pairs (Suc 0) = []"
  by (simp add: compl_pairs_def)

lemma compl_assemble_single:
  "compl_assemble env v_k_in a_lat v_epsilon beams [a] p_Tii l_max Llm
     = \<lparr>Mbg = matalloc ((l_max + 1) * (l_max + 1)) ((l_max + 1) * (l_max + 1)),
        Mark = matalloc 1 1, Llm_ij = Some Llm, Llm_ji = None, blocks = []\<rparr>"
  by (simp add: compl_assemble_def compl_pairs_single)

lemma mat_sq_matalloc: "mat_sq n (matalloc n n)"
  by (simp add: mat_sq_def matalloc_def)

lemma compl_add_identity_zero: "compl_add_identity (matalloc n n) = mat_id n"
proof -
  have "compl_add_identity (matalloc n n) = madd (matalloc n n) (mat_id n)"
    using ld_add_unity_id[OF mat_sq_matalloc, of n] by (simp add: compl_add_identity_def matalloc_def)
  also have "\<dots> = mat_id n"
    by (intro mat.equality nth_equalityI) (simp_all add: madd_def matalloc_def mat_id_def)
  finally show ?thesis .
qed

lemma mat_inverse_id: "mat_inverse n (mat_id n) X \<Longrightarrow> X = mat_id n"
proof -
  assume a: "mat_inverse n (mat_id n) X"
  then have "mat_dim n n X" by (simp add: mat_inverse_def mat_sq_dim)
  then have "matmul X (mat_id n) = X" by (rule matmul_id_right)
  then show ?thesis using a by (simp add: mat_inverse_def)
qed

lemma mat_inverse_id_id: "mat_inverse n (mat_id n) (mat_id n)"
  using matmul_id_right[OF mat_dim_id, of n] mat_dim_id[of n]
  by (simp add: mat_inverse_def mat_sq_dim)

lemma matins_dim: "mat_dim r c M \<Longrightarrow> mat_dim r c (matins M B i j)"
  by (simp add: mat_dim_def matins_def)

lemma mat_dim_matalloc: "mat_dim r c (matalloc r c)"
  by (simp add: mat_dim_def matalloc_def)

lemma compl_waves_single_dim:
  "mat_dim ((l_max + 1) * (l_max + 1)) (length beams)
     (R_p (compl_waves env beams [a] p_Tii l_max l_type i_layer rel_area))"
  "mat_dim ((l_max + 1) * (l_max + 1)) (length beams)
     (R_m (compl_waves env beams [a] p_Tii l_max l_type i_layer rel_area))"
  by (simp_all add: compl_waves_def compl_atom_blocks_def Let_def matins_dim mat_dim_matalloc)

lemma matmul_id_left_same: "mat_dim n c B \<Longrightarrow> matmul (mat_id n) B = B"
  using matmul_id_left[of n c B] by (simp add: mat_dim_def)

lemma compl_single:
  assumes chk: "0 \<le> matcheck env p_Tpp" "0 \<le> matcheck env p_Tmm" "0 \<le> matcheck env p_Rpm"
      "0 \<le> matcheck env p_Rmp"
    and l: "l_max = compl_l_max v_p_tl v_epsilon v_l_max [a]"
    and n: "n = (l_max + 1) * (l_max + 1)"
  shows "blocks (compl_giant_of env v_l_max v_p_tl v_epsilon v_k_in [a] a_lat beams) = []"
    and "Mbg (compl_giant_of env v_l_max v_p_tl v_epsilon v_k_in [a] a_lat beams) = matalloc n n"
    and "compl_giant_matrix env v_l_max v_p_tl v_epsilon v_k_in [a] a_lat beams = mat_id n"
    and "ms_partinv env (compl_giant_matrix env v_l_max v_p_tl v_epsilon v_k_in [a] a_lat beams) 1 l_max
           = mat_id n
         \<Longrightarrow> leed_ms_compl_sym env p_Tpp p_Tmm p_Rpm p_Rmp v_l_max v_p_tl v_epsilon v_k_in [a] a_lat
               rel_area bulk_over no_of_layer beams
             = (1, Some (compl_bravais env v_l_max v_p_tl v_epsilon v_k_in [a] a_lat rel_area bulk_over
                           no_of_layer beams))"
proof -
  let ?g = "compl_giant_of env v_l_max v_p_tl v_epsilon v_k_in [a] a_lat beams"
  let ?G = "compl_giant_matrix env v_l_max v_p_tl v_epsilon v_k_in [a] a_lat beams"
  let ?w = "compl_waves_of env v_l_max v_p_tl v_epsilon v_k_in [a] a_lat rel_area bulk_over no_of_layer beams"
  show b: "blocks ?g = []"
    by (simp add: compl_giant_of_def Let_def compl_atoms_single compl_assemble_single)
  show m: "Mbg ?g = matalloc n n"
    by (simp add: compl_giant_of_def Let_def compl_atoms_single compl_assemble_single l n)
  show G: "?G = mat_id n"
    unfolding compl_giant_matrix_def m by (rule compl_add_identity_zero)
  assume X: "ms_partinv env ?G 1 l_max = mat_id n"
  have dRp: "mat_dim n (length beams) (R_p ?w)" and dRm: "mat_dim n (length beams) (R_m ?w)"
    unfolding compl_waves_of_def compl_atoms_single n l
    by (rule compl_waves_single_dim)+
  have nochk: "\<not> (matcheck env p_Tpp < 0 \<or> matcheck env p_Tmm < 0 \<or> matcheck env p_Rmp < 0
         \<or> matcheck env p_Rpm < 0)"
    using chk by simp
  have call: "leed_ms_compl_sym env p_Tpp p_Tmm p_Rpm p_Rmp v_l_max v_p_tl v_epsilon v_k_in [a] a_lat
               rel_area bulk_over no_of_layer beams
      = (1, Some (compl_origin beams (compl_z_min [a]) (compl_z_max [a])
           (matmul (L_p ?w) (matmul (ms_partinv env ?G (fst (compl_plane [a])) l_max) (R_p ?w)),
            matmul (L_m ?w) (matmul (ms_partinv env ?G (fst (compl_plane [a])) l_max) (R_m ?w)),
            matmul (L_p ?w) (matmul (ms_partinv env ?G (fst (compl_plane [a])) l_max) (R_m ?w)),
            matmul (L_m ?w) (matmul (ms_partinv env ?G (fst (compl_plane [a])) l_max) (R_p ?w)))))"
    unfolding leed_ms_compl_sym_def if_not_P[OF nochk]
    by (simp add: Let_def compl_giant_matrix_def compl_giant_of_def compl_waves_of_def
        compl_Tii_of_def compl_atoms_def l)
  show "leed_ms_compl_sym env p_Tpp p_Tmm p_Rpm p_Rmp v_l_max v_p_tl v_epsilon v_k_in [a] a_lat
               rel_area bulk_over no_of_layer beams
             = (1, Some (compl_bravais env v_l_max v_p_tl v_epsilon v_k_in [a] a_lat rel_area bulk_over
                           no_of_layer beams))"
    unfolding call compl_plane_single fst_conv X matmul_id_left_same[OF dRp] matmul_id_left_same[OF dRm]
      compl_bravais_def Let_def ..
qed

lemma compl_ex_l_max: "compl_l_max (\<lambda>i. matalloc 2 1) 1 1 [compl_ex_atom] = 1"
  by (simp add: compl_l_max_def compl_l_atom.simps)

lemma compl_ex_chk: "0 \<le> matcheck compl_ex_env None"
  by (simp add: compl_ex_env_def)

lemma compl_ex_partinv: "ms_partinv compl_ex_env M n_plane l = M"
  by (simp add: compl_ex_env_def)

text \<open>
  Claim C2.  For a composite layer of exactly one atom, valid output arguments, and
  \<open>ms_partinv\<close> returning the inverse of the matrix it is given: the loop over the pairs of
  atoms writes no block, so the giant matrix is the zero matrix of dimension
  \<open>(l_max + 1)\<^sup>2\<close> before the identity is added and the identity afterwards; its inverse
  is the identity; and the four matrices returned are those of the single-sublattice
  construction, the products of the conversion matrices alone, \<open>L_p R_p\<close>, \<open>L_m R_m\<close>,
  \<open>L_p R_m\<close>, \<open>L_m R_p\<close> (\<open>R_p\<close> and \<open>R_m\<close> holding the Bravais matrix \<open>T\<^sub>i\<^sub>i\<close> of the atom),
  with the shift of the origin and the unscattered wave.
\<close>

theorem leed_ms_compl_sym_single_atom:
  assumes "0 \<le> matcheck env p_Tpp" and "0 \<le> matcheck env p_Tmm" and "0 \<le> matcheck env p_Rpm"
    and "0 \<le> matcheck env p_Rmp"
    and "l_max = compl_l_max v_p_tl v_epsilon v_l_max [a]"
    and "n = (l_max + 1) * (l_max + 1)"
    and "mat_inverse n (compl_giant_matrix env v_l_max v_p_tl v_epsilon v_k_in [a] a_lat beams)
           (ms_partinv env (compl_giant_matrix env v_l_max v_p_tl v_epsilon v_k_in [a] a_lat beams) 1 l_max)"
  shows "blocks (compl_giant_of env v_l_max v_p_tl v_epsilon v_k_in [a] a_lat beams) = []
     \<and> Mbg (compl_giant_of env v_l_max v_p_tl v_epsilon v_k_in [a] a_lat beams) = matalloc n n
     \<and> compl_giant_matrix env v_l_max v_p_tl v_epsilon v_k_in [a] a_lat beams = mat_id n
     \<and> ms_partinv env (compl_giant_matrix env v_l_max v_p_tl v_epsilon v_k_in [a] a_lat beams) 1 l_max
         = mat_id n
     \<and> leed_ms_compl_sym env p_Tpp p_Tmm p_Rpm p_Rmp v_l_max v_p_tl v_epsilon v_k_in [a] a_lat
           rel_area bulk_over no_of_layer beams
         = (1, Some (compl_bravais env v_l_max v_p_tl v_epsilon v_k_in [a] a_lat rel_area bulk_over
                       no_of_layer beams))"
proof -
  note s = compl_single[OF assms(1-6)]
  have X: "ms_partinv env (compl_giant_matrix env v_l_max v_p_tl v_epsilon v_k_in [a] a_lat beams) 1 l_max
      = mat_id n"
    using assms(7) unfolding s(3)[of v_k_in a_lat beams] by (rule mat_inverse_id)
  show ?thesis using s(1)[of v_k_in a_lat beams] s(2)[of v_k_in a_lat beams] s(3)[of v_k_in a_lat beams] X
      s(4)[OF X, of rel_area bulk_over no_of_layer]
    by simp
qed

theorem leed_ms_compl_sym_single_atom_witness:
  "blocks (compl_giant_of compl_ex_env 1 (\<lambda>i. matalloc 2 1) 1 (\<lambda>i. 0) [compl_ex_atom] (\<lambda>i. 0) [ld_ex_beam]) = []
   \<and> compl_giant_matrix compl_ex_env 1 (\<lambda>i. matalloc 2 1) 1 (\<lambda>i. 0) [compl_ex_atom] (\<lambda>i. 0) [ld_ex_beam]
       = mat_id 4
   \<and> leed_ms_compl_sym compl_ex_env None None None None 1 (\<lambda>i. matalloc 2 1) 1 (\<lambda>i. 0) [compl_ex_atom]
         (\<lambda>i. 0) 1 0 0 [ld_ex_beam]
       = (1, Some (compl_bravais compl_ex_env 1 (\<lambda>i. matalloc 2 1) 1 (\<lambda>i. 0) [compl_ex_atom] (\<lambda>i. 0) 1 0 0
                     [ld_ex_beam]))"
proof -
  have l: "(1::nat) = compl_l_max (\<lambda>i. matalloc 2 1) 1 1 [compl_ex_atom]"
    by (rule compl_ex_l_max[symmetric])
  have n: "(4::nat) = (1 + 1) * (1 + 1)" by simp
  have G: "compl_giant_matrix compl_ex_env 1 (\<lambda>i. matalloc 2 1) 1 (\<lambda>i. 0) [compl_ex_atom] (\<lambda>i. 0) [ld_ex_beam]
      = mat_id 4"
    by (rule compl_single(3)[OF compl_ex_chk compl_ex_chk compl_ex_chk compl_ex_chk l n])
  have inv: "mat_inverse 4
      (compl_giant_matrix compl_ex_env 1 (\<lambda>i. matalloc 2 1) 1 (\<lambda>i. 0) [compl_ex_atom] (\<lambda>i. 0) [ld_ex_beam])
      (ms_partinv compl_ex_env
        (compl_giant_matrix compl_ex_env 1 (\<lambda>i. matalloc 2 1) 1 (\<lambda>i. 0) [compl_ex_atom] (\<lambda>i. 0) [ld_ex_beam])
        1 1)"
    unfolding compl_ex_partinv G by (rule mat_inverse_id_id)
  show ?thesis
    using leed_ms_compl_sym_single_atom[OF compl_ex_chk compl_ex_chk compl_ex_chk compl_ex_chk l n inv,
        of 1 0 0]
    by simp
qed

section \<open>The loops over \<open>l\<close> and \<open>m\<close> of the lattice sum\<close>

lemma lsum_m_loop_skipped:
  "0 < l \<Longrightarrow> int l < 2 ^ 63 \<Longrightarrow> lsum_m_loop term_p term_m l (- int l) L = L"
  by (subst lsum_m_loop.simps) (simp add: size_t_of_int_def)

lemma lsum_m_loop_l0:
  "lsum_m_loop term_p term_m 0 0 L
     = ((fst L)[0 := fst L ! 0 + term_p (0, 0)], (snd L)[0 := snd L ! 0 + term_m (0, 0)])"
  apply (subst lsum_m_loop.simps)
  apply (simp add: size_t_of_int_def Let_def)
  apply (subst lsum_m_loop.simps)
  apply (simp add: size_t_of_int_def)
  done

lemma lsum_l_loop_l0:
  "int l_max < 2 ^ 63 \<Longrightarrow> lsum_l_loop term_p term_m l_max L = lsum_m_loop term_p term_m 0 0 L"
  unfolding lsum_l_loop_def
proof (induction l_max)
  case 0
  show ?case by simp
next
  case (Suc l)
  have "fold (\<lambda>l L. lsum_m_loop term_p term_m l (- int l) L) [0 ..< Suc (Suc l)] L
      = lsum_m_loop term_p term_m (Suc l) (- int (Suc l))
          (fold (\<lambda>l L. lsum_m_loop term_p term_m l (- int l) L) [0 ..< Suc l] L)"
    by simp
  also have "\<dots> = fold (\<lambda>l L. lsum_m_loop term_p term_m l (- int l) L) [0 ..< Suc l] L"
    using Suc.prems by (intro lsum_m_loop_skipped) simp_all
  finally show ?case using Suc by simp
qed

section \<open>The bound on the passes of \<open>leed_par_cumulative_tl\<close>\<close>

lemma upt4: "[0 ..< 4] = [0, 1, 2, 3]"
  by (simp add: upt_rec)

lemma matmul44:
  "matmul \<lparr>rows = 4, cols = 4, el = [a0, a1, a2, a3, a4, a5, a6, a7, a8, a9, a10, a11, a12, a13, a14, a15]\<rparr>
          \<lparr>rows = 4, cols = 4, el = [b0, b1, b2, b3, b4, b5, b6, b7, b8, b9, b10, b11, b12, b13, b14, b15]\<rparr>
   = \<lparr>rows = 4, cols = 4, el =
       [a0 * b0 + a1 * b4 + a2 * b8 + a3 * b12, a0 * b1 + a1 * b5 + a2 * b9 + a3 * b13,
        a0 * b2 + a1 * b6 + a2 * b10 + a3 * b14, a0 * b3 + a1 * b7 + a2 * b11 + a3 * b15,
        a4 * b0 + a5 * b4 + a6 * b8 + a7 * b12, a4 * b1 + a5 * b5 + a6 * b9 + a7 * b13,
        a4 * b2 + a5 * b6 + a6 * b10 + a7 * b14, a4 * b3 + a5 * b7 + a6 * b11 + a7 * b15,
        a8 * b0 + a9 * b4 + a10 * b8 + a11 * b12, a8 * b1 + a9 * b5 + a10 * b9 + a11 * b13,
        a8 * b2 + a9 * b6 + a10 * b10 + a11 * b14, a8 * b3 + a9 * b7 + a10 * b11 + a11 * b15,
        a12 * b0 + a13 * b4 + a14 * b8 + a15 * b12, a12 * b1 + a13 * b5 + a14 * b9 + a15 * b13,
        a12 * b2 + a13 * b6 + a14 * b10 + a15 * b14, a12 * b3 + a13 * b7 + a14 * b11 + a15 * b15]\<rparr>"
  by (simp add: matmul_def upt4)

lemma matalloc44: "matalloc 4 4 = diag4 0 0 0 0"
proof -
  have "replicate (4 * 4) (0::complex) = [0, 0, 0, 0, 0, 0, 0, 0, 0, 0, 0, 0, 0, 0, 0, 0]"
    by (simp add: numeral_eq_Suc)
  then show ?thesis unfolding matalloc_def diag4_def by simp
qed


lemma upt16: "[0 ..< 16] = [0, 1, 2, 3, 4, 5, 6, 7, 8, 9, 10, 11, 12, 13, 14, 15]"
  by (simp add: upt_rec)

lemma sqrt2_sq: "sqrt 2 * sqrt 2 = 2"
  by simp

lemma cum_bug_next:
  "cum_next cum_bug_ms (441 / 4) 0 0 (sqrt 2) i (diag4 (of_real p) (of_real q) (of_real r) (of_real s))
     = diag4 (of_real (441 / real i * (p - q))) (of_real (441 / real i * (q - p))) 0 0"
  unfolding cum_next_def Let_def cum_bug_ms_def cum_ms.simps cum_bug_Mx_def matalloc44 diag4_def matmul44
  apply (simp add: upt16 complex_eq_iff sqrt2_sq)
  apply (cases "i = 0")
   apply (simp_all add: field_simps)
  done


lemma cum_bug_relerr_r:
  "cum_relerr_r cum_bug_env (diag4 (of_real p) (of_real q) (of_real r) (of_real s))
       (diag4 (of_real a) (of_real b) (of_real c) (of_real d))
     = (if a \<noteq> 0 then \<bar>p / a\<bar> else 0) + (if b \<noteq> 0 then \<bar>q / b\<bar> else 0)
       + (if c \<noteq> 0 then \<bar>r / c\<bar> else 0) + (if d \<noteq> 0 then \<bar>s / d\<bar> else 0)"
  by (simp add: cum_relerr_r_def cum_bug_env_def diag4_def upt16)

lemma cum_bug_relerr_i:
  "cum_relerr_i cum_bug_env (diag4 (of_real p) (of_real q) (of_real r) (of_real s))
       (diag4 (of_real a) (of_real b) (of_real c) (of_real d)) = 0"
  by (simp add: cum_relerr_i_def cum_bug_env_def diag4_def upt16)























lemma sum_list_if_upt:
  "(\<Sum>i \<leftarrow> [0 ..< n]. if P i then f i else (0::real)) = (\<Sum>p \<in> {p. p < n \<and> P p}. f p)"
proof -
  have "(\<Sum>i \<leftarrow> [0 ..< n]. if P i then f i else 0) = (\<Sum>i < n. if P i then f i else 0)"
    by (rule sum_list_upt)
  also have "\<dots> = (\<Sum>p \<in> {p \<in> {..<n}. P p}. f p)"
    by (rule sum.inter_filter[symmetric]) simp
  also have "{p \<in> {..<n}. P p} = {p. p < n \<and> P p}" by auto
  finally show ?thesis .
qed

lemma cum_relerr_r_rel_change: "cum_relerr_r env Tn Tacc = cum_rel_change env Re Tn Tacc"
  unfolding cum_relerr_r_def cum_rel_change_def sum_list_if_upt
  by (simp add: mult.commute abs_divide)

lemma cum_relerr_i_rel_change: "cum_relerr_i env Tn Tacc = cum_rel_change env Im Tn Tacc"
  unfolding cum_relerr_i_def cum_rel_change_def sum_list_if_upt
  by (simp add: mult.commute abs_divide)

lemma cum_pass_rows:
  "rows (T_acc (cum_pass env M ux2 uy2 uz2 kappa s0 k)) = rows (T_acc s0)"
  by (induction k) (simp_all add: cum_body_def Let_def cum_acc_def)

lemma cum_pass_relerr:
  "relerr_r (cum_pass env M ux2 uy2 uz2 kappa s0 (Suc k))
     = cum_rel_change env Re (T_n (cum_pass env M ux2 uy2 uz2 kappa s0 (Suc k)))
         (T_acc (cum_pass env M ux2 uy2 uz2 kappa s0 (Suc k)))"
  "relerr_i (cum_pass env M ux2 uy2 uz2 kappa s0 (Suc k))
     = cum_rel_change env Im (T_n (cum_pass env M ux2 uy2 uz2 kappa s0 (Suc k)))
         (T_acc (cum_pass env M ux2 uy2 uz2 kappa s0 (Suc k)))"
  by (simp_all add: cum_body_def Let_def cum_relerr_r_rel_change cum_relerr_i_rel_change)

lemma cum_after_criterion:
  assumes k: "1 \<le> k"
  shows "cum_converged l_max_t (cum_after env st tl0 ux uy uz eng l_max_t l_max_0 k)
     \<longleftrightarrow> cum_criterion env (T_n (cum_after env st tl0 ux uy uz eng l_max_t l_max_0 k))
           (T_acc (cum_after env st tl0 ux uy uz eng l_max_t l_max_0 k))"
proof -
  obtain j where j: "k = Suc j" using k by (cases k) simp_all
  have r: "rows (T_acc (cum_after env st tl0 ux uy uz eng l_max_t l_max_0 k)) = (l_max_t + 1) * (l_max_t + 1)"
    using mat_sq_cum_t0[of "(l_max_t + 1) * (l_max_t + 1)" tl0 "sqrt (2 * eng)"
        "if l_max_0 > l_max_t then l_max_t else l_max_0"]
    by (simp add: cum_after_def Let_def cum_pass_rows cum_start_def mat_sq_def del: cum_pass.simps)
  show ?thesis
    unfolding cum_converged_def cum_criterion_def r Let_def
    unfolding cum_after_def Let_def j cum_pass_relerr
    by (simp add: power2_eq_square mult.assoc)
qed

lemma cum_null_iff_criterion:
  assumes nd: "\<not> (ux < GEO_TOLERANCE \<and> uy < GEO_TOLERANCE \<and> uz < GEO_TOLERANCE)"
  shows "cum_ret (leed_par_cumulative_tl env st h Tmat tl_0 ux uy uz eng l_max_t l_max_0) = None
     \<longleftrightarrow> (\<forall>k. 1 \<le> k \<and> Suc k < NITER \<longrightarrow>
            \<not> cum_criterion env (T_n (cum_after env st (h ! tl_0) ux uy uz eng l_max_t l_max_0 k))
                 (T_acc (cum_after env st (h ! tl_0) ux uy uz eng l_max_t l_max_0 k)))"
  using cum_iterated_outcome[OF nd, of env st h Tmat tl_0 eng l_max_t l_max_0]
    cum_after_criterion[of _ l_max_t env st "h ! tl_0" ux uy uz eng l_max_0]
  by simp













end
